(* ===== verification/Prelude.thy ===== *)
theory Prelude
  imports Main "HOL-Library.AList" "HOL-Library.Word" "HOL-Library.Sublist"
begin

text \<open>
  What every component theory shares: the fact collections of the development, Go's 64-bit
  signed integers written out over \<open>int\<close>, the types that stand for Go's byte strings
  and for Go maps, and generic lemmas on lists and association lists.

  A Go \<open>string\<close> and a Go \<open>[]byte\<close> are both sequences of bytes, so both are HOL's
  \<open>string\<close> (a list of 8-bit characters); the conversions between the two are the identity.
  A Go \<open>map[string]T\<close> is an association list with distinct keys. Go's iteration order over
  a map is unspecified; the functions that iterate over a map in this program build another map
  or sort the keys first, so their results do not depend on that order.
\<close>

section \<open>Fact collections\<close>

named_theorems go_eval \<open>equations that evaluate the model on closed terms\<close>

named_theorems hdr \<open>lookups in header maps after an operation\<close>

named_theorems wire \<open>what an operation of the response writer leaves on the wire\<close>

lemma replicate_num [go_eval]: "replicate (numeral k) x = x # replicate (pred_numeral k) x"
  by (simp add: numeral_eq_Suc)

lemmas char_num [go_eval] = char_of_def bit_0

section \<open>Types\<close>

type_synonym bytes = string

type_synonym 'v gomap = "(string \<times> 'v) list"

abbreviation lookup :: "'v gomap \<Rightarrow> string \<Rightarrow> 'v option" where
  "lookup m k \<equiv> map_of m k"

abbreviation keys :: "'v gomap \<Rightarrow> string set" where
  "keys m \<equiv> fst ` set m"

definition wf_map :: "'v gomap \<Rightarrow> bool" where
  "wf_map m \<longleftrightarrow> distinct (map fst m)"

lemma wf_map_Nil [simp]: "wf_map []"
  by (simp add: wf_map_def)

lemma wf_map_update [simp]: "wf_map m \<Longrightarrow> wf_map (AList.update k v m)"
  by (simp add: wf_map_def distinct_update)

lemma wf_map_delete [simp]: "wf_map m \<Longrightarrow> wf_map (AList.delete k m)"
  by (simp add: wf_map_def distinct_delete)

lemma lookup_update [simp]:
  "lookup (AList.update k v m) k' = (if k' = k then Some v else lookup m k')"
  by (simp add: update_conv')

lemma lookup_delete [simp]:
  "lookup (AList.delete k m) k' = (if k' = k then None else lookup m k')"
  by (simp add: delete_conv')

lemma lookup_map_vals [simp]:
  "lookup (map (\<lambda>(k, v). (k, f v)) m) k = map_option f (lookup m k)"
  by (induction m) auto

lemma wf_map_map_vals [simp]: "wf_map (map (\<lambda>(k, v). (k, f v)) m) = wf_map m"
  by (simp add: wf_map_def comp_def case_prod_unfold)

lemma keys_update [simp]: "keys (AList.update k v m) = insert k (keys m)"
  by (simp add: dom_update)

lemma in_keys_iff: "k \<in> keys m \<longleftrightarrow> lookup m k \<noteq> None"
  by (simp add: map_of_eq_None_iff)

text \<open>Storing every pair of one map into another, as Go's \<open>for k, v := range src\<close> does.\<close>

definition store_all :: "'v gomap \<Rightarrow> 'v gomap \<Rightarrow> 'v gomap" where
  "store_all dst src = fold (\<lambda>(k, v). AList.update k v) src dst"

lemma store_all_lookup:
  "wf_map src \<Longrightarrow>
   lookup (store_all dst src) k = (case lookup src k of Some v \<Rightarrow> Some v | None \<Rightarrow> lookup dst k)"
proof (induction src arbitrary: dst)
  case Nil
  then show ?case by (simp add: store_all_def)
next
  case (Cons p src)
  obtain k' v where p: "p = (k', v)" by (cases p)
  from Cons.prems have wf: "wf_map src" and new: "k' \<notin> keys src"
    by (auto simp: wf_map_def p)
  have step: "store_all dst (p # src) = store_all (AList.update k' v dst) src"
    by (simp add: store_all_def p)
  have none: "lookup src k' = None"
    using new by (simp add: map_of_eq_None_iff)
  show ?case
    unfolding step Cons.IH [OF wf] using none
    by (auto simp: p split: option.splits)
qed

lemma wf_map_store_all [simp]: "wf_map dst \<Longrightarrow> wf_map (store_all dst src)"
proof (induction src arbitrary: dst)
  case Nil
  then show ?case by (simp add: store_all_def)
next
  case (Cons p src)
  then show ?case
    by (cases p) (simp add: store_all_def)
qed

section \<open>Go's int64 over int\<close>

text \<open>
  \<open>i64\<close> is the value a Go \<open>int64\<close> (or \<open>int\<close>, on a 64-bit platform) holds
  after a computation whose mathematical result is the argument: it wraps around.
\<close>

definition max_i64 :: int where
  "max_i64 = 9223372036854775807"

definition min_i64 :: int where
  "min_i64 = -9223372036854775808"

definition i64 :: "int \<Rightarrow> int" where
  "i64 x = (x + 2 ^ 63) mod 2 ^ 64 - 2 ^ 63"

definition is_i64 :: "int \<Rightarrow> bool" where
  "is_i64 x \<longleftrightarrow> min_i64 \<le> x \<and> x \<le> max_i64"

lemma i64_id: "is_i64 x \<Longrightarrow> i64 x = x"
  by (simp add: i64_def is_i64_def min_i64_def max_i64_def)

lemma is_i64_i64 [simp]: "is_i64 (i64 x)"
proof -
  have "0 \<le> (x + 2 ^ 63) mod 2 ^ 64" and "(x + 2 ^ 63) mod 2 ^ 64 < (2 :: int) ^ 64"
    by (simp_all del: power_numeral)
  then show ?thesis
    by (simp add: i64_def is_i64_def min_i64_def max_i64_def)
qed

lemma i64_max_Suc [simp]: "i64 (max_i64 + 1) = min_i64"
  by (simp add: i64_def max_i64_def min_i64_def)

text \<open>
  Go's division truncates towards zero. A \<open>time.Duration\<close> is an \<open>int64\<close> of nanoseconds, and
  \<open>Time.Sub\<close> (so \<open>time.Since\<close> and \<open>time.Until\<close>) saturates; \<open>time.Time\<close> values
  are nanoseconds over \<open>int\<close>.
\<close>

definition quot :: "int \<Rightarrow> int \<Rightarrow> int" where
  "quot a b = sgn a * sgn b * (\<bar>a\<bar> div \<bar>b\<bar>)"

lemma quot_nonneg: "0 \<le> a \<Longrightarrow> 0 < b \<Longrightarrow> quot a b = a div b"
  by (cases "a = 0") (simp_all add: quot_def)

definition time_sub :: "int \<Rightarrow> int \<Rightarrow> int" where
  "time_sub t u = max min_i64 (min max_i64 (t - u))"

definition millis :: "int \<Rightarrow> int" where
  "millis d = quot d 1000000"

lemma millis_nonneg: "0 \<le> d \<Longrightarrow> millis d = d div 1000000"
  by (simp add: millis_def quot_nonneg)

section \<open>Errors as values\<close>

text \<open>A loop that returns at the first error, and the first error of a sequence of checks.\<close>

fun try_map :: "('a \<Rightarrow> 'e + 'b) \<Rightarrow> 'a list \<Rightarrow> 'e + 'b list" where
  "try_map f [] = Inr []"
| "try_map f (x # xs) =
     (case f x of
        Inl e \<Rightarrow> Inl e
      | Inr y \<Rightarrow> (case try_map f xs of Inl e \<Rightarrow> Inl e | Inr ys \<Rightarrow> Inr (y # ys)))"

fun first_error :: "'e option list \<Rightarrow> 'e option" where
  "first_error [] = None"
| "first_error (None # cs) = first_error cs"
| "first_error (Some e # cs) = Some e"

lemma first_error_None: "first_error cs = None \<longleftrightarrow> list_all (\<lambda>c. c = None) cs"
  by (induction cs rule: first_error.induct) auto

lemma try_map_Inr_iff: "try_map f xs = Inr ys \<longleftrightarrow> list_all2 (\<lambda>x y. f x = Inr y) xs ys"
proof (induction xs arbitrary: ys)
  case Nil
  then show ?case by auto
next
  case (Cons x xs)
  show ?case
    by (cases ys; cases "f x"; cases "try_map f xs") (auto simp: Cons.IH [symmetric])
qed

lemma try_map_total: "(\<exists>ys. try_map f xs = Inr ys) \<longleftrightarrow> (\<forall>x \<in> set xs. \<exists>y. f x = Inr y)"
  by (induction xs) (auto split: sum.splits)

section \<open>Lists\<close>

lemma find_SomeD: "find P xs = Some x \<Longrightarrow> P x \<and> x \<in> set xs"
  by (auto simp: find_Some_iff)

lemma fold_delete_lookup:
  "lookup (fold AList.delete ks m) k = (if k \<in> set ks then None else lookup m k)"
  by (induction ks arbitrary: m) auto

lemma wf_map_fold_delete [simp]: "wf_map m \<Longrightarrow> wf_map (fold AList.delete ks m)"
  by (induction ks arbitrary: m) auto

end
