(* ===== verification/GoStrings.thy ===== *)
theory GoStrings
  imports Prelude
begin

text \<open>
  The parts of Go's \<open>strings\<close>, \<open>strconv\<close> and \<open>net\<close> packages that the
  program uses, over byte strings: \<open>Split\<close> and \<open>Join\<close> on a one-byte separator,
  \<open>Cut\<close>, \<open>TrimSpace\<close> (with Unicode's white space in its UTF-8 encoding),
  \<open>TrimPrefix\<close> and its kin, \<open>EqualFold\<close> against an ASCII string, \<open>Atoi\<close>
  and \<open>Itoa\<close>, and \<open>net.SplitHostPort\<close>.
\<close>

section \<open>Splitting and joining\<close>

fun split_on :: "char \<Rightarrow> string \<Rightarrow> string list" where
  "split_on c [] = [[]]"
| "split_on c (x # xs) =
     (if x = c then [] # split_on c xs
      else (case split_on c xs of [] \<Rightarrow> [[x]] | y # ys \<Rightarrow> (x # y) # ys))"

fun join :: "string \<Rightarrow> string list \<Rightarrow> string" where
  "join sep [] = []"
| "join sep [x] = x"
| "join sep (x # y # ys) = x @ sep @ join sep (y # ys)"

lemma split_on_not_Nil [simp]: "split_on c s \<noteq> []"
  by (cases s) (auto split: list.splits)

lemma join_split_on: "join [c] (split_on c s) = s"
proof (induction s)
  case Nil
  then show ?case by simp
next
  case (Cons x s)
  obtain y ys where eq: "split_on c s = y # ys"
    by (cases "split_on c s") auto
  with Cons.IH show ?case
    by (cases ys) auto
qed

lemma split_on_part: "p \<in> set (split_on c s) \<Longrightarrow> c \<notin> set p"
proof (induction s arbitrary: p)
  case Nil
  then show ?case by simp
next
  case (Cons x s)
  obtain y ys where eq: "split_on c s = y # ys"
    by (cases "split_on c s") auto
  from Cons.prems have "p = [] \<or> p \<in> set (y # ys) \<or> (x \<noteq> c \<and> p = x # y)"
    by (auto simp: eq split: if_splits)
  moreover have "q \<in> set (y # ys) \<Longrightarrow> c \<notin> set q" for q
    using Cons.IH [of q] by (simp add: eq)
  ultimately show ?case by auto
qed

lemma split_on_none [simp]: "c \<notin> set s \<Longrightarrow> split_on c s = [s]"
  by (induction s) auto

lemma split_on_append: "c \<notin> set p \<Longrightarrow> split_on c (p @ c # s) = p # split_on c s"
  by (induction p) auto

lemma split_on_join:
  "ps \<noteq> [] \<Longrightarrow> (\<forall>p \<in> set ps. c \<notin> set p) \<Longrightarrow> split_on c (join [c] ps) = ps"
proof (induction ps rule: induct_list012)
  case 1
  then show ?case by simp
next
  case (2 x)
  then show ?case by simp
next
  case (3 x y zs)
  then show ?case by (simp add: split_on_append)
qed

section \<open>Cutting\<close>

text \<open>\<open>strings.Cut\<close> with a one-byte separator: what is before it, what is after it, whether it occurs.\<close>

fun cut :: "char \<Rightarrow> string \<Rightarrow> string \<times> string \<times> bool" where
  "cut c [] = ([], [], False)"
| "cut c (x # xs) =
     (if x = c then ([], xs, True)
      else (case cut c xs of (a, b, f) \<Rightarrow> (x # a, b, f)))"

lemma cut_append: "c \<notin> set a \<Longrightarrow> cut c (a @ c # b) = (a, b, True)"
  by (induction a) auto

lemma cut_none: "c \<notin> set a \<Longrightarrow> cut c a = (a, [], False)"
  by (induction a) auto

definition has_prefix :: "string \<Rightarrow> string \<Rightarrow> bool" where
  "has_prefix s p \<longleftrightarrow> take (length p) s = p"

definition has_suffix :: "string \<Rightarrow> string \<Rightarrow> bool" where
  "has_suffix s p \<longleftrightarrow> length p \<le> length s \<and> drop (length s - length p) s = p"

definition trim_prefix :: "string \<Rightarrow> string \<Rightarrow> string" where
  "trim_prefix s p = (if has_prefix s p then drop (length p) s else s)"

definition trim_suffix :: "string \<Rightarrow> string \<Rightarrow> string" where
  "trim_suffix s p = (if has_suffix s p then take (length s - length p) s else s)"

definition cut_prefix :: "string \<Rightarrow> string \<Rightarrow> string \<times> bool" where
  "cut_prefix s p = (if has_prefix s p then (drop (length p) s, True) else (s, False))"

lemma has_prefix_append [simp]: "has_prefix (p @ s) p"
  by (simp add: has_prefix_def)

lemma has_prefix_iff: "has_prefix s p \<longleftrightarrow> (\<exists>r. s = p @ r)"
  unfolding has_prefix_def by (metis append_eq_conv_conj append_take_drop_id)

lemma has_suffix_iff: "has_suffix s p \<longleftrightarrow> (\<exists>r. s = r @ p)"
proof
  assume "has_suffix s p"
  then have "s = take (length s - length p) s @ p"
    unfolding has_suffix_def by (metis append_take_drop_id)
  then show "\<exists>r. s = r @ p" by blast
next
  assume "\<exists>r. s = r @ p"
  then show "has_suffix s p"
    by (auto simp: has_suffix_def)
qed

lemma trim_prefix_append [simp]: "trim_prefix (p @ s) p = s"
  by (simp add: trim_prefix_def)

lemma trim_suffix_append [simp]: "trim_suffix (s @ p) p = s"
  by (simp add: trim_suffix_def has_suffix_iff)

lemma trim_suffix_other: "\<not> has_suffix s p \<Longrightarrow> trim_suffix s p = s"
  by (simp add: trim_suffix_def)

text \<open>\<open>strings.LastIndex\<close> of one byte: \<open>None\<close> is -1.\<close>

fun last_index :: "char \<Rightarrow> string \<Rightarrow> nat option" where
  "last_index c [] = None"
| "last_index c (x # xs) =
     (case last_index c xs of
        Some i \<Rightarrow> Some (Suc i)
      | None \<Rightarrow> if x = c then Some 0 else None)"

lemma last_index_none [simp]: "c \<notin> set s \<Longrightarrow> last_index c s = None"
  by (induction s) auto

lemma last_index_append: "c \<notin> set s \<Longrightarrow> last_index c (p @ c # s) = Some (length p)"
  by (induction p) auto

text \<open>\<open>strings.TrimRight\<close> and \<open>strings.Trim\<close> with a cutset of ASCII characters.\<close>

definition trim_right_set :: "string \<Rightarrow> char set \<Rightarrow> string" where
  "trim_right_set s cs = rev (dropWhile (\<lambda>c. c \<in> cs) (rev s))"

definition trim_set :: "string \<Rightarrow> char set \<Rightarrow> string" where
  "trim_set s cs = trim_right_set (dropWhile (\<lambda>c. c \<in> cs) s) cs"

section \<open>White space\<close>

text \<open>
  The white space of \<open>unicode.IsSpace\<close>, each rune in its UTF-8 encoding. \<open>TrimSpace\<close>
  decodes runes from the left end and from the right end; a suffix that is one of these byte
  sequences is decoded as that rune, since its first byte is the only one that starts a rune.
\<close>

definition space_runes :: "string list" where
  "space_runes =
     [[CHR 0x20], [CHR 0x09], [CHR 0x0A], [CHR 0x0B], [CHR 0x0C], [CHR 0x0D],
      [CHR 0xC2, CHR 0x85], [CHR 0xC2, CHR 0xA0], [CHR 0xE1, CHR 0x9A, CHR 0x80],
      [CHR 0xE2, CHR 0x80, CHR 0x80], [CHR 0xE2, CHR 0x80, CHR 0x81],
      [CHR 0xE2, CHR 0x80, CHR 0x82], [CHR 0xE2, CHR 0x80, CHR 0x83],
      [CHR 0xE2, CHR 0x80, CHR 0x84], [CHR 0xE2, CHR 0x80, CHR 0x85],
      [CHR 0xE2, CHR 0x80, CHR 0x86], [CHR 0xE2, CHR 0x80, CHR 0x87],
      [CHR 0xE2, CHR 0x80, CHR 0x88], [CHR 0xE2, CHR 0x80, CHR 0x89],
      [CHR 0xE2, CHR 0x80, CHR 0x8A], [CHR 0xE2, CHR 0x80, CHR 0xA8],
      [CHR 0xE2, CHR 0x80, CHR 0xA9], [CHR 0xE2, CHR 0x80, CHR 0xAF],
      [CHR 0xE2, CHR 0x81, CHR 0x9F], [CHR 0xE3, CHR 0x80, CHR 0x80]]"

function strip_runes :: "string list \<Rightarrow> string \<Rightarrow> string" where
  "strip_runes ps s =
     (case find (\<lambda>p. p \<noteq> [] \<and> has_prefix s p) ps of
        None \<Rightarrow> s
      | Some p \<Rightarrow> strip_runes ps (drop (length p) s))"
  by pat_completeness auto
termination
proof (relation "measure (\<lambda>(ps, s). length s)", goal_cases)
  case 1
  show ?case by simp
next
  case (2 ps s p)
  then have "p \<noteq> []" and "has_prefix s p"
    by (auto dest: find_SomeD)
  then show ?case
    by (auto simp: has_prefix_iff)
qed

declare strip_runes.simps [simp del]

definition trim_space :: "string \<Rightarrow> string" where
  "trim_space s =
     rev (strip_runes (map rev space_runes) (rev (strip_runes space_runes s)))"

lemma strip_runes_none:
  "\<forall>p \<in> set ps. p = [] \<or> \<not> has_prefix s p \<Longrightarrow> strip_runes ps s = s"
  by (subst strip_runes.simps) (auto simp: find_None_iff split: option.split dest: find_SomeD)

lemma strip_runes_done: "p \<in> set ps \<Longrightarrow> p \<noteq> [] \<Longrightarrow> \<not> has_prefix (strip_runes ps s) p"
proof (induction ps s rule: strip_runes.induct)
  case (1 ps s)
  show ?case
  proof (cases "find (\<lambda>p. p \<noteq> [] \<and> has_prefix s p) ps")
    case None
    then have "strip_runes ps s = s"
      by (subst strip_runes.simps) simp
    moreover have "\<not> has_prefix s p"
      using None "1.prems" by (auto simp: find_None_iff)
    ultimately show ?thesis by simp
  next
    case (Some q)
    then have "strip_runes ps s = strip_runes ps (drop (length q) s)"
      by (subst strip_runes.simps) simp
    with "1.IH" [OF Some] "1.prems" show ?thesis
      by simp
  qed
qed

lemma strip_runes_suffix: "\<exists>w. s = w @ strip_runes ps s"
proof (induction ps s rule: strip_runes.induct)
  case (1 ps s)
  show ?case
  proof (cases "find (\<lambda>p. p \<noteq> [] \<and> has_prefix s p) ps")
    case None
    then show ?thesis
      by (subst strip_runes.simps) simp
  next
    case (Some q)
    with "1.IH" obtain w where "drop (length q) s = w @ strip_runes ps (drop (length q) s)"
      by blast
    with Some have "s = (take (length q) s @ w) @ strip_runes ps s"
      by (subst strip_runes.simps) (metis append.assoc append_take_drop_id option.simps(5))
    then show ?thesis by blast
  qed
qed

lemma has_prefix_trans: "has_prefix s p \<Longrightarrow> has_prefix (s @ t) p"
  by (auto simp: has_prefix_iff)

text \<open>\<open>TrimSpace\<close> is idempotent: after the right end is trimmed, the left end still has no space.\<close>

lemma trim_space_left_clean:
  assumes p: "p \<in> set space_runes"
  shows "\<not> has_prefix (trim_space s) p"
proof
  assume pre: "has_prefix (trim_space s) p"
  have ne: "p \<noteq> []" using p by (auto simp: space_runes_def)
  let ?l = "strip_runes space_runes s"
  obtain w where "rev ?l = w @ strip_runes (map rev space_runes) (rev ?l)"
    using strip_runes_suffix by blast
  then have "?l = trim_space s @ rev w"
    unfolding trim_space_def by (metis rev_append rev_rev_ident)
  with pre have "has_prefix ?l p"
    by (metis has_prefix_trans)
  with strip_runes_done [OF p ne] show False by blast
qed

lemma trim_space_idem [simp]: "trim_space (trim_space s) = trim_space s"
proof -
  have left: "strip_runes space_runes (trim_space s) = trim_space s"
    by (rule strip_runes_none) (use trim_space_left_clean in blast)
  have "strip_runes (map rev space_runes) (rev (trim_space s)) = rev (trim_space s)"
  proof (rule strip_runes_none, intro ballI)
    fix p assume "p \<in> set (map rev space_runes)"
    then show "p = [] \<or> \<not> has_prefix (rev (trim_space s)) p"
      using strip_runes_done [of p "map rev space_runes"] by (auto simp: trim_space_def)
  qed
  with left show ?thesis
    by (simp add: trim_space_def [of "trim_space s"])
qed

lemma trim_space_Nil [simp]: "trim_space [] = []"
  by (simp add: trim_space_def strip_runes_none has_prefix_def space_runes_def)

section \<open>Letter case\<close>

definition lower_ch :: "char \<Rightarrow> char" where
  "lower_ch c = (let n = of_char c :: nat in if 65 \<le> n \<and> n \<le> 90 then char_of (n + 32) else c)"

definition upper_ch :: "char \<Rightarrow> char" where
  "upper_ch c = (let n = of_char c :: nat in if 97 \<le> n \<and> n \<le> 122 then char_of (n - 32) else c)"

definition ascii_lower :: "string \<Rightarrow> string" where
  "ascii_lower s = map lower_ch s"

definition ascii_upper :: "string \<Rightarrow> string" where
  "ascii_upper s = map upper_ch s"

text \<open>
  \<open>strings.EqualFold\<close> of any byte string against an ASCII one. Two runes beyond ASCII fold
  to an ASCII letter: U+017F (long s) and U+212A (Kelvin sign). Any other rune beyond ASCII, and
  an invalid encoding, equals no ASCII letter.
\<close>

definition fold_head :: "string \<Rightarrow> (char \<times> string) option" where
  "fold_head s =
     (case s of [] \<Rightarrow> None
      | c # r \<Rightarrow>
          if (of_char c :: nat) < 128 then Some (lower_ch c, r)
          else if has_prefix s [CHR 0xC5, CHR 0xBF] then Some (CHR ''s'', drop 2 s)
          else if has_prefix s [CHR 0xE2, CHR 0x84, CHR 0xAA] then Some (CHR ''k'', drop 3 s)
          else None)"

fun equal_fold :: "string \<Rightarrow> string \<Rightarrow> bool" where
  "equal_fold s [] = (s = [])"
| "equal_fold s (t # ts) =
     (case fold_head s of None \<Rightarrow> False | Some (c, r) \<Rightarrow> c = lower_ch t \<and> equal_fold r ts)"

lemma equal_fold_lower:
  "\<forall>c \<in> set s. (of_char c :: nat) < 128 \<Longrightarrow> equal_fold s t \<longleftrightarrow> ascii_lower s = ascii_lower t"
proof (induction t arbitrary: s)
  case Nil
  then show ?case by (auto simp: ascii_lower_def)
next
  case (Cons x t)
  then show ?case
    by (cases s) (auto simp: ascii_lower_def fold_head_def)
qed

section \<open>Decimal numbers\<close>

definition digit_val :: "char \<Rightarrow> nat option" where
  "digit_val c = (let n = of_char c :: nat in if 48 \<le> n \<and> n \<le> 57 then Some (n - 48) else None)"

fun dec_acc :: "nat \<Rightarrow> string \<Rightarrow> nat option" where
  "dec_acc a [] = Some a"
| "dec_acc a (c # cs) =
     (case digit_val c of None \<Rightarrow> None | Some d \<Rightarrow> dec_acc (10 * a + d) cs)"

text \<open>
  \<open>strconv.Atoi\<close>: an optional sign, at least one decimal digit and nothing else, and a
  value that fits an \<open>int\<close> of 64 bits. \<open>None\<close> is any error.
\<close>

definition atoi :: "string \<Rightarrow> int option" where
  "atoi s =
     (let (neg, ds) =
        (case s of [] \<Rightarrow> (False, [])
         | c # r \<Rightarrow> if c = CHR ''-'' then (True, r) else if c = CHR ''+'' then (False, r) else (False, s))
      in if ds = [] then None
         else case dec_acc 0 ds of
            None \<Rightarrow> None
          | Some n \<Rightarrow> (let v = (if neg then - int n else int n) in if is_i64 v then Some v else None))"

lemma atoi_range: "atoi s = Some v \<Longrightarrow> is_i64 v"
  by (auto simp: atoi_def Let_def split: prod.splits option.splits if_splits)

lemma atoi_Nil [simp]: "atoi [] = None"
  by (simp add: atoi_def)

fun nat_dec :: "nat \<Rightarrow> string" where
  "nat_dec n = (if n < 10 then [char_of (48 + n)] else nat_dec (n div 10) @ [char_of (48 + n mod 10)])"

declare nat_dec.simps [simp del]

text \<open>\<open>strconv.Itoa\<close> and the \<open>%d\<close> of \<open>fmt\<close>.\<close>

definition itoa :: "int \<Rightarrow> string" where
  "itoa i = (if i < 0 then CHR ''-'' # nat_dec (nat (- i)) else nat_dec (nat i))"

lemma dec_acc_append: "dec_acc a (s @ t) = (case dec_acc a s of None \<Rightarrow> None | Some b \<Rightarrow> dec_acc b t)"
  by (induction a s rule: dec_acc.induct) (auto split: option.splits)

lemma digit_val_char_of [simp]: "d < 10 \<Longrightarrow> digit_val (char_of (48 + d)) = Some d"
  by (simp add: digit_val_def Let_def)

lemma dec_acc_nat_dec: "dec_acc 0 (nat_dec n) = Some n"
proof (induction n rule: nat_dec.induct)
  case (1 n)
  show ?case
  proof (cases "n < 10")
    case True
    then show ?thesis by (subst nat_dec.simps) simp
  next
    case False
    with "1.IH" show ?thesis
      by (subst nat_dec.simps) (simp add: dec_acc_append)
  qed
qed

lemma nat_dec_not_Nil [simp]: "nat_dec n \<noteq> []"
  by (subst nat_dec.simps) simp

lemma nat_dec_hd: "\<exists>d < (10 :: nat). \<exists>r. nat_dec n = char_of (48 + d) # r"
proof (induction n rule: nat_dec.induct)
  case (1 n)
  show ?case
  proof (cases "n < 10")
    case True
    then show ?thesis by (subst nat_dec.simps) auto
  next
    case False
    with "1.IH" obtain d :: nat and r where "d < 10" "nat_dec (n div 10) = char_of (48 + d) # r" by blast
    with False show ?thesis by (subst nat_dec.simps) auto
  qed
qed

lemma of_char_digit: "d < 10 \<Longrightarrow> of_char (char_of (48 + d :: nat)) = 48 + d"
  by simp

lemma digit_not_sign:
  assumes "d < (10 :: nat)"
  shows "char_of (48 + d) \<noteq> CHR ''-'' \<and> char_of (48 + d) \<noteq> CHR ''+''"
proof (intro conjI notI)
  assume "char_of (48 + d) = CHR ''-''"
  then have "(of_char (char_of (48 + d) :: char) :: nat) = of_char CHR ''-''" by simp
  then show False using of_char_digit [OF assms] by simp
next
  assume "char_of (48 + d) = CHR ''+''"
  then have "(of_char (char_of (48 + d) :: char) :: nat) = of_char CHR ''+''" by simp
  then show False using of_char_digit [OF assms] by simp
qed

text \<open>Printing a number and parsing it back gives the number.\<close>

lemma atoi_itoa: "is_i64 i \<Longrightarrow> atoi (itoa i) = Some i"
proof -
  assume i: "is_i64 i"
  show ?thesis
  proof (cases "i < 0")
    case True
    with i show ?thesis
      by (simp add: atoi_def itoa_def dec_acc_nat_dec)
  next
    case False
    obtain d :: nat and r where d: "d < 10" and eq: "nat_dec (nat i) = char_of (48 + d) # r"
      using nat_dec_hd by blast
    have "dec_acc 0 (char_of (48 + d) # r) = Some (nat i)"
      using dec_acc_nat_dec [of "nat i"] by (simp add: eq)
    with False i digit_not_sign [OF d] show ?thesis
      by (simp add: atoi_def itoa_def eq)
  qed
qed

lemma nat_dec_digits: "ch \<in> set (nat_dec n) \<Longrightarrow> \<exists>d < (10 :: nat). ch = char_of (48 + d)"
proof (induction n rule: nat_dec.induct)
  case (1 n)
  show ?case
  proof (cases "n < 10")
    case True
    with "1.prems" have "ch = char_of (48 + n)"
      by (subst (asm) nat_dec.simps) simp
    with True show ?thesis by blast
  next
    case False
    with "1.prems" have "ch \<in> set (nat_dec (n div 10)) \<or> ch = char_of (48 + n mod 10)"
      by (subst (asm) nat_dec.simps) auto
    with "1.IH" [OF False] show ?thesis
      by (metis mod_less_divisor zero_less_numeral)
  qed
qed

lemma nat_dec_other: "of_char ch < (48 :: nat) \<or> (57 :: nat) < of_char ch \<Longrightarrow> ch \<notin> set (nat_dec n)"
  by (auto dest!: nat_dec_digits)

lemma nat_dec_hd_nonzero: "10 \<le> n \<Longrightarrow> \<exists>d r. 0 < d \<and> d < (10 :: nat) \<and> nat_dec n = char_of (48 + d) # r"
proof (induction n rule: nat_dec.induct)
  case (1 n)
  show ?case
  proof (cases "n div 10 < 10")
    case True
    with "1.prems" have "nat_dec n = char_of (48 + n div 10) # [char_of (48 + n mod 10)]"
      by (subst nat_dec.simps, subst nat_dec.simps) simp
    moreover have "0 < n div 10" using "1.prems" by (simp add: div_greater_zero_iff)
    ultimately show ?thesis using True by blast
  next
    case False
    with "1.IH" "1.prems" obtain d :: nat and r where
      "0 < d" "d < 10" "nat_dec (n div 10) = char_of (48 + d) # r" by auto
    with "1.prems" show ?thesis by (subst nat_dec.simps) auto
  qed
qed

section \<open>net.SplitHostPort\<close>

fun index_of :: "char \<Rightarrow> string \<Rightarrow> nat option" where
  "index_of c [] = None"
| "index_of c (x # xs) = (if x = c then Some 0 else map_option Suc (index_of c xs))"

text \<open>\<open>None\<close> is any of its address errors; the program never looks at which.\<close>

definition split_host_port :: "string \<Rightarrow> (string \<times> string) option" where
  "split_host_port hp =
     (case last_index CHR '':'' hp of
        None \<Rightarrow> None
      | Some i \<Rightarrow>
          if hp ! 0 = CHR ''['' then
            (case index_of CHR '']'' hp of
               None \<Rightarrow> None
             | Some e \<Rightarrow>
                 if e + 1 \<noteq> i then None
                 else if CHR ''['' \<in> set (drop 1 hp) \<or> CHR '']'' \<in> set (drop (e + 1) hp) then None
                 else Some (drop 1 (take e hp), drop (i + 1) hp))
          else if CHR '':'' \<in> set (take i hp) then None
          else if CHR ''['' \<in> set hp \<or> CHR '']'' \<in> set hp then None
          else Some (take i hp, drop (i + 1) hp))"

text \<open>A host without colons or brackets, and an address in brackets, come back from \<open>host:port\<close>.\<close>

lemma split_host_port_plain:
  assumes "CHR '':'' \<notin> set h" "CHR ''['' \<notin> set h" "CHR '']'' \<notin> set h"
    and "CHR '':'' \<notin> set p" "CHR ''['' \<notin> set p" "CHR '']'' \<notin> set p"
  shows "split_host_port (h @ CHR '':'' # p) = Some (h, p)"
proof -
  have "(h @ CHR '':'' # p) ! 0 \<noteq> CHR ''[''"
    using assms(2) by (cases h) auto
  with assms show ?thesis
    by (simp add: split_host_port_def last_index_append)
qed

lemma index_of_append: "c \<notin> set a \<Longrightarrow> index_of c (a @ c # b) = Some (length a)"
  by (induction a) auto

lemma split_host_port_bracket:
  assumes "CHR ''['' \<notin> set h" "CHR '']'' \<notin> set h"
    and "CHR '':'' \<notin> set p" "CHR ''['' \<notin> set p" "CHR '']'' \<notin> set p"
  shows "split_host_port (CHR ''['' # h @ CHR '']'' # CHR '':'' # p) = Some (h, p)"
proof -
  have li: "last_index CHR '':'' (CHR ''['' # h @ CHR '']'' # CHR '':'' # p) = Some (length h + 2)"
    using last_index_append [OF assms(3), of "CHR ''['' # h @ [CHR '']'']"] by simp
  have io: "index_of CHR '']'' (CHR ''['' # h @ CHR '']'' # CHR '':'' # p) = Some (length h + 1)"
    using index_of_append [of "CHR '']''" "CHR ''['' # h" "CHR '':'' # p"] assms(2) by simp
  show ?thesis
    unfolding split_host_port_def li io using assms by simp
qed

end
