(* ===== verification/GoNet.thy ===== *)
theory GoNet
  imports GoStrings "HOL-Library.Word"
begin

text \<open>
  IP addresses and prefixes of \<open>net/netip\<close>: parsing of IPv4 and IPv6 texts (with zones,
  the \<open>::\<close> abbreviation and embedded IPv4), parsing of CIDR prefixes, \<open>Addr.Unmap\<close> and
  \<open>Prefix.Contains\<close>. An address is a 32-bit or 128-bit word; the parsers return \<open>None\<close>
  where Go returns an error (the program never looks at which error).
\<close>

unbundle bit_operations_syntax

section \<open>Addresses\<close>

datatype ip_addr = V4 "32 word" | V6 "128 word" string

definition is_hex :: "char \<Rightarrow> bool" where
  "is_hex c \<longleftrightarrow>
     (let n = of_char c :: nat in (48 \<le> n \<and> n \<le> 57) \<or> (65 \<le> n \<and> n \<le> 70) \<or> (97 \<le> n \<and> n \<le> 102))"

definition hex_val :: "char \<Rightarrow> nat" where
  "hex_val c = (let n = of_char c :: nat in if n \<le> 57 then n - 48 else if n \<le> 70 then n - 55 else n - 87)"

text \<open>One field of a dotted quad: decimal digits, no leading zero, at most 255.\<close>

definition octet :: "string \<Rightarrow> nat option" where
  "octet p =
     (if p = [] \<or> (1 < length p \<and> hd p = CHR ''0'') then None
      else (case dec_acc 0 p of None \<Rightarrow> None | Some n \<Rightarrow> if n \<le> 255 then Some n else None))"

definition v4_fields :: "string \<Rightarrow> nat list option" where
  "v4_fields s =
     (case split_on CHR ''.'' s of
        [a, b, c, d] \<Rightarrow>
          (case (octet a, octet b, octet c, octet d) of
             (Some w, Some x, Some y, Some z) \<Rightarrow> Some [w, x, y, z]
           | _ \<Rightarrow> None)
      | _ \<Rightarrow> None)"

definition word_of_bytes :: "nat list \<Rightarrow> 'a::len word" where
  "word_of_bytes bs = foldl (\<lambda>a b. a * 256 + word_of_nat b) 0 bs"

text \<open>
  One turn of the loop of \<open>parseIPv6\<close>, on the bytes stored so far, the place of the
  \<open>::\<close> and the rest of the text: \<open>Fail\<close> is any of the loop's errors (or text left
  over after sixteen bytes), \<open>Stop\<close> leaves the loop, \<open>Turn\<close> goes round again.
\<close>

datatype v6_step = Fail | Stop "nat list" "nat option" | Turn "nat list" "nat option" string

definition v6_turn :: "nat list \<Rightarrow> nat option \<Rightarrow> string \<Rightarrow> v6_step" where
  "v6_turn acc ell s =
     (if 16 \<le> length acc then (if s = [] then Stop acc ell else Fail)
      else
        (let hs = takeWhile is_hex s; r = drop (length hs) s;
             v = foldl (\<lambda>a c. 16 * a + hex_val c) 0 hs; acc' = acc @ [v div 256, v mod 256] in
         if hs = [] \<or> 4 < length hs then Fail
         else if r \<noteq> [] \<and> hd r = CHR ''.'' then
           (if (ell = None \<and> length acc \<noteq> 12) \<or> 16 < length acc + 4 then Fail
            else (case v4_fields s of None \<Rightarrow> Fail | Some bs \<Rightarrow> Stop (acc @ bs) ell))
         else if r = [] then Stop acc' ell
         else if hd r \<noteq> CHR '':'' \<or> tl r = [] then Fail
         else if hd (tl r) = CHR '':'' then
           (if ell \<noteq> None then Fail
            else if tl (tl r) = [] then Stop acc' (Some (length acc'))
            else Turn acc' (Some (length acc')) (tl (tl r)))
         else Turn acc' ell (tl r)))"

lemma v6_turn_shorter: "v6_turn acc ell s = Turn acc' ell' s' \<Longrightarrow> length s' < length s"
  by (auto simp: v6_turn_def Let_def neq_Nil_conv drop_eq_Nil split: if_splits option.splits
      dest!: arg_cong [where f = length])

function v6_loop :: "nat list \<Rightarrow> nat option \<Rightarrow> string \<Rightarrow> (nat list \<times> nat option) option" where
  "v6_loop acc ell s =
     (case v6_turn acc ell s of
        Fail \<Rightarrow> None
      | Stop acc' ell' \<Rightarrow> Some (acc', ell')
      | Turn acc' ell' s' \<Rightarrow> v6_loop acc' ell' s')"
  by pat_completeness auto
termination
  by (relation "measure (\<lambda>(acc, ell, s). length s)") (auto dest: v6_turn_shorter)

declare v6_loop.simps [simp del]

definition v6_expand :: "nat list \<times> nat option \<Rightarrow> nat list option" where
  "v6_expand = (\<lambda>(acc, ell).
     if length acc < 16 then
       (case ell of None \<Rightarrow> None
        | Some e \<Rightarrow> Some (take e acc @ replicate (16 - length acc) 0 @ drop e acc))
     else if ell \<noteq> None then None
     else Some acc)"

definition parse_v6 :: "string \<Rightarrow> ip_addr option" where
  "parse_v6 inp =
     (case cut CHR ''%'' inp of (s, zone, found) \<Rightarrow>
        if found \<and> zone = [] then None
        else
          (let (start, ell) = (if has_prefix s ''::'' then (drop 2 s, Some 0) else (s, None)) in
           if ell \<noteq> None \<and> start = [] then Some (V6 0 zone)
           else (case v6_loop [] ell start of None \<Rightarrow> None
                 | Some r \<Rightarrow> map_option (\<lambda>bs. V6 (word_of_bytes bs) zone) (v6_expand r))))"

text \<open>\<open>netip.ParseAddr\<close>: the first dot, colon or percent sign decides.\<close>

definition parse_addr :: "string \<Rightarrow> ip_addr option" where
  "parse_addr s =
     (case find (\<lambda>c. c \<in> {CHR ''.'', CHR '':'', CHR ''%''}) s of
        None \<Rightarrow> None
      | Some c \<Rightarrow>
          if c = CHR ''.'' then map_option (\<lambda>bs. V4 (word_of_bytes bs)) (v4_fields s)
          else if c = CHR '':'' then parse_v6 s
          else None)"

definition bit_len :: "ip_addr \<Rightarrow> nat" where
  "bit_len a = (case a of V4 _ \<Rightarrow> 32 | V6 _ _ \<Rightarrow> 128)"

definition has_zone :: "ip_addr \<Rightarrow> bool" where
  "has_zone a = (case a of V4 _ \<Rightarrow> False | V6 _ z \<Rightarrow> z \<noteq> [])"

definition without_zone :: "ip_addr \<Rightarrow> ip_addr" where
  "without_zone a = (case a of V4 w \<Rightarrow> V4 w | V6 w _ \<Rightarrow> V6 w [])"

text \<open>\<open>Addr.Unmap\<close>: an IPv4-mapped IPv6 address becomes the IPv4 address (its zone goes).\<close>

definition unmap :: "ip_addr \<Rightarrow> ip_addr" where
  "unmap a =
     (case a of V4 w \<Rightarrow> V4 w
      | V6 w z \<Rightarrow> if drop_bit 32 w = 0xFFFF then V4 (ucast w) else V6 w z)"

section \<open>Prefixes\<close>

record prefix =
  p_ip :: ip_addr
  p_bits :: nat

definition prefix_from :: "ip_addr \<Rightarrow> nat \<Rightarrow> prefix" where
  "prefix_from a n = \<lparr>p_ip = without_zone a, p_bits = n\<rparr>"

definition parse_prefix :: "string \<Rightarrow> prefix option" where
  "parse_prefix s =
     (case last_index CHR ''/'' s of None \<Rightarrow> None
      | Some i \<Rightarrow>
        (case parse_addr (take i s) of None \<Rightarrow> None
         | Some a \<Rightarrow>
           if has_zone a then None
           else
             (let bs = drop (i + 1) s in
              if 1 < length bs \<and> hd bs \<notin> set ''123456789'' then None
              else (case atoi bs of None \<Rightarrow> None
                    | Some n \<Rightarrow> if n < 0 \<or> int (bit_len a) < n then None
                                else Some (prefix_from a (nat n))))))"

definition prefix_contains :: "prefix \<Rightarrow> ip_addr \<Rightarrow> bool" where
  "prefix_contains p a =
     (if has_zone a then False
      else (case (p_ip p, a) of
        (V4 w, V4 v) \<Rightarrow> drop_bit (32 - p_bits p) (v XOR w) = 0
      | (V6 w _, V6 v _) \<Rightarrow> (v XOR w) AND NOT (mask (128 - p_bits p)) = 0
      | _ \<Rightarrow> False))"

text \<open>A prefix contains the addresses of its family that agree with it on the leading bits.\<close>

lemma drop_bit_xor_eq_0:
  "drop_bit n (v XOR w) = (0 :: 'a::len word) \<longleftrightarrow> (\<forall>i. n \<le> i \<longrightarrow> i < LENGTH('a) \<longrightarrow> bit v i = bit w i)"
proof
  assume eq: "drop_bit n (v XOR w) = 0"
  show "\<forall>i. n \<le> i \<longrightarrow> i < LENGTH('a) \<longrightarrow> bit v i = bit w i"
  proof (intro allI impI)
    fix i assume "n \<le> i" "i < LENGTH('a)"
    moreover have "bit (drop_bit n (v XOR w)) (i - n) = False"
      using eq by simp
    ultimately show "bit v i = bit w i"
      by (simp add: bit_simps)
  qed
next
  assume agree: "\<forall>i. n \<le> i \<longrightarrow> i < LENGTH('a) \<longrightarrow> bit v i = bit w i"
  have "bit v (n + i) = bit w (n + i)" for i
    using agree by (cases "n + i < LENGTH('a)") (auto dest: bit_imp_le_length)
  then show "drop_bit n (v XOR w) = 0"
    by (intro bit_word_eqI) (simp add: bit_simps)
qed

lemma and_not_mask_eq_0:
  "(v XOR w) AND NOT (mask n) = (0 :: 'a::len word) \<longleftrightarrow>
     (\<forall>i. n \<le> i \<longrightarrow> i < LENGTH('a) \<longrightarrow> bit v i = bit w i)"
proof
  assume eq: "(v XOR w) AND NOT (mask n) = 0"
  show "\<forall>i. n \<le> i \<longrightarrow> i < LENGTH('a) \<longrightarrow> bit v i = bit w i"
  proof (intro allI impI)
    fix i assume "n \<le> i" "i < LENGTH('a)"
    moreover have "bit ((v XOR w) AND NOT (mask n)) i = False"
      using eq by simp
    ultimately show "bit v i = bit w i"
      by (simp add: bit_simps)
  qed
next
  assume agree: "\<forall>i. n \<le> i \<longrightarrow> i < LENGTH('a) \<longrightarrow> bit v i = bit w i"
  have "n \<le> i \<Longrightarrow> bit v i = bit w i" for i
    using agree by (cases "i < LENGTH('a)") (auto dest: bit_imp_le_length)
  then show "(v XOR w) AND NOT (mask n) = 0"
    by (intro bit_word_eqI) (auto simp: bit_simps)
qed

text \<open>The leading bits of an address, most significant bit at index 0.\<close>

definition addr_bit :: "ip_addr \<Rightarrow> nat \<Rightarrow> bool" where
  "addr_bit a i = (case a of V4 w \<Rightarrow> i < 32 \<and> bit w (31 - i) | V6 w _ \<Rightarrow> i < 128 \<and> bit w (127 - i))"

lemma prefix_contains_iff:
  assumes "p_bits p \<le> bit_len (p_ip p)"
  shows "prefix_contains p a \<longleftrightarrow>
     \<not> has_zone a \<and> bit_len a = bit_len (p_ip p) \<and> (\<forall>i < p_bits p. addr_bit a i = addr_bit (p_ip p) i)"
proof -
  have flip: "(\<forall>i. n - m \<le> i \<longrightarrow> i < n \<longrightarrow> P i) \<longleftrightarrow> (\<forall>i < m. P (n - 1 - i))"
    if "m \<le> n" for m n :: nat and P
  proof (intro iffI allI impI)
    fix i assume "\<forall>i. n - m \<le> i \<longrightarrow> i < n \<longrightarrow> P i" "i < m"
    with that show "P (n - 1 - i)" by auto
  next
    fix i assume all: "\<forall>i < m. P (n - 1 - i)" and i: "n - m \<le> i" "i < n"
    then have "n - 1 - i < m" using that by linarith
    with all have "P (n - 1 - (n - 1 - i))" by blast
    moreover have "n - 1 - (n - 1 - i) = i" using i by simp
    ultimately show "P i" by simp
  qed
  show ?thesis
  proof (cases "p_ip p")
    case (V4 w)
    show ?thesis
    proof (cases a)
      case a: (V4 v)
      have "prefix_contains p a \<longleftrightarrow> (\<forall>i. 32 - p_bits p \<le> i \<longrightarrow> i < 32 \<longrightarrow> bit v i = bit w i)"
        using drop_bit_xor_eq_0 [of "32 - p_bits p" v w]
        by (simp add: prefix_contains_def a V4 has_zone_def)
      also have "\<dots> \<longleftrightarrow> (\<forall>i < p_bits p. bit v (32 - 1 - i) = bit w (32 - 1 - i))"
        using assms by (subst flip) (auto simp: V4 bit_len_def)
      finally show ?thesis
        using assms by (auto simp: a V4 bit_len_def addr_bit_def has_zone_def)
    qed (simp add: prefix_contains_def V4 bit_len_def)
  next
    case (V6 w zw)
    show ?thesis
    proof (cases a)
      case a: (V6 v zv)
      have "prefix_contains p a \<longleftrightarrow>
          zv = [] \<and> (\<forall>i. 128 - p_bits p \<le> i \<longrightarrow> i < 128 \<longrightarrow> bit v i = bit w i)"
        using and_not_mask_eq_0 [of v w "128 - p_bits p"]
        by (simp add: prefix_contains_def a V6 has_zone_def)
      also have "\<dots> \<longleftrightarrow> zv = [] \<and> (\<forall>i < p_bits p. bit v (128 - 1 - i) = bit w (128 - 1 - i))"
        using assms by (subst flip) (auto simp: V6 bit_len_def)
      finally show ?thesis
        using assms by (auto simp: a V6 bit_len_def addr_bit_def has_zone_def)
    qed (simp add: prefix_contains_def V6 bit_len_def)
  qed
qed

lemma parse_prefix_bits: "parse_prefix s = Some p \<Longrightarrow> p_bits p \<le> bit_len (p_ip p)"
  by (auto simp: parse_prefix_def prefix_from_def Let_def without_zone_def bit_len_def
      split: option.splits if_splits ip_addr.splits)

text \<open>A dotted quad, printed and parsed.\<close>

definition dotted :: "nat \<Rightarrow> nat \<Rightarrow> nat \<Rightarrow> nat \<Rightarrow> string" where
  "dotted a b c d = join ''.'' [nat_dec a, nat_dec b, nat_dec c, nat_dec d]"

lemma octet_nat_dec: "n \<le> 255 \<Longrightarrow> octet (nat_dec n) = Some n"
proof (cases "n < 10")
  case True
  then show ?thesis
    using dec_acc_nat_dec [of n] by (subst octet_def) (simp add: nat_dec.simps)
next
  case False
  assume n: "n \<le> 255"
  obtain d :: nat and r where d: "0 < d" "d < 10" "nat_dec n = char_of (48 + d) # r"
    using nat_dec_hd_nonzero [of n] False by auto
  have "char_of (48 + d) \<noteq> CHR ''0''"
  proof
    assume "char_of (48 + d) = CHR ''0''"
    then have "(of_char (char_of (48 + d) :: char) :: nat) = of_char CHR ''0''" by simp
    with d(1,2) show False by simp
  qed
  with d n dec_acc_nat_dec [of n] show ?thesis
    by (simp add: octet_def)
qed

lemma parse_dotted:
  assumes "a \<le> 255" "b \<le> 255" "c \<le> 255" "d \<le> 255"
  shows "parse_addr (dotted a b c d) = Some (V4 (word_of_nat (((a * 256 + b) * 256 + c) * 256 + d)))"
proof -
  have dot: "CHR ''.'' \<notin> set (nat_dec n)" and colon: "CHR '':'' \<notin> set (nat_dec n)"
    and pct: "CHR ''%'' \<notin> set (nat_dec n)" for n
    by (rule nat_dec_other, simp)+
  have split: "split_on CHR ''.'' (dotted a b c d) = [nat_dec a, nat_dec b, nat_dec c, nat_dec d]"
    unfolding dotted_def by (rule split_on_join) (auto simp: dot)
  have find_app: "(\<forall>x \<in> set xs. \<not> P x) \<Longrightarrow> find P (xs @ ys) = find P ys" for P and xs ys :: "'a list"
    by (induction xs) auto
  have "dotted a b c d = nat_dec a @ CHR ''.'' # join ''.'' [nat_dec b, nat_dec c, nat_dec d]"
    by (simp add: dotted_def)
  moreover have "\<forall>x \<in> set (nat_dec a). \<not> x \<in> {CHR ''.'', CHR '':'', CHR ''%''}"
    using dot [of a] colon [of a] pct [of a] by auto
  ultimately have "find (\<lambda>x. x \<in> {CHR ''.'', CHR '':'', CHR ''%''}) (dotted a b c d) = Some CHR ''.''"
    by (simp add: find_app)
  then show ?thesis
    using assms by (simp add: parse_addr_def v4_fields_def split octet_nat_dec word_of_bytes_def)
qed

lemma xor_eq_0_iff_eq: "v XOR w = 0 \<longleftrightarrow> v = (w :: 'a::len word)"
  by (metis xor.assoc xor.right_neutral xor_self_eq)

lemma v4_prefix_match:
  assumes "x < 2 ^ 32" "n \<le> 32"
  shows "drop_bit (32 - n) ((word_of_nat x :: 32 word) XOR w) = 0 \<longleftrightarrow> x div 2 ^ (32 - n) = unat w div 2 ^ (32 - n)"
proof -
  have "drop_bit (32 - n) ((word_of_nat x :: 32 word) XOR w) = 0 \<longleftrightarrow>
      drop_bit (32 - n) (word_of_nat x :: 32 word) = drop_bit (32 - n) w"
    by (simp add: xor_eq_0_iff_eq)
  also have "\<dots> \<longleftrightarrow> unat (drop_bit (32 - n) (word_of_nat x :: 32 word)) = unat (drop_bit (32 - n) w)"
    by (simp add: word_unat_eq_iff)
  also have "\<dots> \<longleftrightarrow> x div 2 ^ (32 - n) = unat w div 2 ^ (32 - n)"
    unfolding unat_drop_bit_eq using assms(1) by (simp add: drop_bit_eq_div unat_of_nat)
  finally show ?thesis .
qed

end
