(* ===== verification/GoHttp.thy ===== *)
theory GoHttp
  imports GoNet
begin

text \<open>
  The parts of \<open>net/textproto\<close>, \<open>net/http\<close> and \<open>net/url\<close> that the program
  reads requests with and builds requests from: header maps keyed by the canonical name,
  percent-encoding, \<open>URL.EscapedPath\<close> and \<open>URL.String\<close>, query strings, the
  \<open>Cookie\<close> header, and the request itself.
  The locale \<open>header_map\<close> states what the header operations promise; it is interpreted
  on the model's own operations at the end of the section on headers.
\<close>

section \<open>Canonical header names\<close>

definition is_alnum :: "char \<Rightarrow> bool" where
  "is_alnum c \<longleftrightarrow>
     (let n = of_char c :: nat in (48 \<le> n \<and> n \<le> 57) \<or> (65 \<le> n \<and> n \<le> 90) \<or> (97 \<le> n \<and> n \<le> 122))"

definition token_byte :: "char \<Rightarrow> bool" where
  "token_byte c \<longleftrightarrow> is_alnum c \<or> c \<in> set ''!#$%&*+-.^_|~'' \<or> c = CHR 0x27 \<or> c = CHR 0x60"

fun canon_loop :: "bool \<Rightarrow> string \<Rightarrow> string" where
  "canon_loop up [] = []"
| "canon_loop up (c # cs) =
     (let c' = (if up then upper_ch c else lower_ch c) in c' # canon_loop (c' = CHR ''-'') cs)"

text \<open>\<open>textproto.CanonicalMIMEHeaderKey\<close>: a name with a byte outside the token set is left as it is.\<close>

definition canon :: "string \<Rightarrow> string" where
  "canon s = (if list_all token_byte s then canon_loop True s else s)"

lemma of_char_upper:
  "(of_char (upper_ch c) :: nat) =
     (if 97 \<le> (of_char c :: nat) \<and> (of_char c :: nat) \<le> 122 then of_char c - 32 else of_char c)"
  by (auto simp: upper_ch_def Let_def)

lemma of_char_lower:
  "(of_char (lower_ch c) :: nat) =
     (if 65 \<le> (of_char c :: nat) \<and> (of_char c :: nat) \<le> 90 then of_char c + 32 else of_char c)"
  by (auto simp: lower_ch_def Let_def)

lemma char_eqI: "(of_char c :: nat) = of_char d \<Longrightarrow> c = d"
  by (metis char_of_char)

lemma upper_upper [simp]: "upper_ch (upper_ch c) = upper_ch c"
  by (rule char_eqI) (auto simp: of_char_upper)

lemma lower_lower [simp]: "lower_ch (lower_ch c) = lower_ch c"
  by (rule char_eqI) (auto simp: of_char_lower)

lemma is_alnum_upper [simp]: "is_alnum (upper_ch c) = is_alnum c"
  unfolding is_alnum_def Let_def of_char_upper by auto

lemma is_alnum_lower [simp]: "is_alnum (lower_ch c) = is_alnum c"
  unfolding is_alnum_def Let_def of_char_lower by auto

lemma upper_not_alnum: "\<not> is_alnum c \<Longrightarrow> upper_ch c = c"
  by (auto simp: is_alnum_def upper_ch_def Let_def)

lemma lower_not_alnum: "\<not> is_alnum c \<Longrightarrow> lower_ch c = c"
  by (auto simp: is_alnum_def lower_ch_def Let_def)

lemma token_byte_upper [simp]: "token_byte (upper_ch c) \<longleftrightarrow> token_byte c"
  by (cases "is_alnum c") (simp_all add: token_byte_def upper_not_alnum)

lemma token_byte_lower [simp]: "token_byte (lower_ch c) \<longleftrightarrow> token_byte c"
  by (cases "is_alnum c") (simp_all add: token_byte_def lower_not_alnum)

lemma canon_loop_token [simp]: "list_all token_byte (canon_loop up s) \<longleftrightarrow> list_all token_byte s"
  by (induction up s rule: canon_loop.induct) (simp_all add: Let_def)

lemma canon_loop_idem [simp]: "canon_loop up (canon_loop up s) = canon_loop up s"
proof (induction up s rule: canon_loop.induct)
  case (1 up)
  then show ?case by simp
next
  case (2 up c cs)
  then show ?case
    using "2.IH" [OF refl] by (cases up) (simp_all add: Let_def)
qed

lemma canon_idem [simp]: "canon (canon s) = canon s"
  by (simp add: canon_def)

section \<open>Header maps\<close>

type_synonym header = "string list gomap"

definition h_values :: "header \<Rightarrow> string \<Rightarrow> string list" where
  "h_values h k = (case lookup h (canon k) of None \<Rightarrow> [] | Some vs \<Rightarrow> vs)"

definition h_get :: "header \<Rightarrow> string \<Rightarrow> string" where
  "h_get h k = (case h_values h k of [] \<Rightarrow> [] | v # _ \<Rightarrow> v)"

definition h_set :: "header \<Rightarrow> string \<Rightarrow> string \<Rightarrow> header" where
  "h_set h k v = AList.update (canon k) [v] h"

definition h_add :: "header \<Rightarrow> string \<Rightarrow> string \<Rightarrow> header" where
  "h_add h k v = AList.update (canon k) (h_values h k @ [v]) h"

definition h_del :: "header \<Rightarrow> string \<Rightarrow> header" where
  "h_del h k = AList.delete (canon k) h"

text \<open>
  What a header store promises: a name is looked up under its canonical form, a store replaces
  exactly that entry, a deletion removes exactly that entry.
\<close>

locale header_map =
  fixes look :: "'h \<Rightarrow> string \<Rightarrow> string list option"
    and put :: "'h \<Rightarrow> string \<Rightarrow> string \<Rightarrow> 'h"
    and del :: "'h \<Rightarrow> string \<Rightarrow> 'h"
    and cn :: "string \<Rightarrow> string"
  assumes look_put: "look (put h k v) k' = (if k' = cn k then Some [v] else look h k')"
    and look_del: "look (del h k) k' = (if k' = cn k then None else look h k')"
    and cn_cn: "cn (cn k) = cn k"
begin

lemma look_del_all: "look (fold (\<lambda>k h. del h k) ks h) k' = (if k' \<in> cn ` set ks then None else look h k')"
  by (induction ks arbitrary: h) (auto simp: look_del)

lemma put_put_same: "look (put (put h k v) k w) = look (put h k w)"
  by (rule ext) (simp add: look_put)

lemma put_twice_comm:
  "cn k \<noteq> cn l \<Longrightarrow> look (put (put h k v) l w) = look (put (put h l w) k v)"
  by (rule ext) (simp add: look_put)

lemma put_other: "cn k \<noteq> cn l \<Longrightarrow> look (put h k v) (cn l) = look h (cn l)"
  by (simp add: look_put)

lemma put_canonical: "look (put h (cn k) v) = look (put h k v)"
  by (rule ext) (simp add: look_put cn_cn)

end

interpretation hd_ops: header_map "\<lambda>h k. lookup h k" h_set h_del canon
  by unfold_locales (simp_all add: h_set_def h_del_def)

lemmas h_lookup [hdr] = hd_ops.look_put hd_ops.look_del hd_ops.look_del_all

lemma wf_map_h_set [simp]: "wf_map h \<Longrightarrow> wf_map (h_set h k v)"
  by (simp add: h_set_def)

lemma wf_map_h_del [simp]: "wf_map h \<Longrightarrow> wf_map (h_del h k)"
  by (simp add: h_del_def)

lemma wf_map_h_add [simp]: "wf_map h \<Longrightarrow> wf_map (h_add h k v)"
  by (simp add: h_add_def)

lemma lookup_h_add [hdr]:
  "lookup (h_add h k v) k' = (if k' = canon k then Some (h_values h k @ [v]) else lookup h k')"
  by (simp add: h_add_def)

lemma h_values_set [hdr]:
  "h_values (h_set h k v) k' = (if canon k' = canon k then [v] else h_values h k')"
  by (simp add: h_values_def hdr)

lemma h_values_del [hdr]:
  "h_values (h_del h k) k' = (if canon k' = canon k then [] else h_values h k')"
  by (simp add: h_values_def hdr)

lemma h_get_set [hdr]:
  "h_get (h_set h k v) k' = (if canon k' = canon k then v else h_get h k')"
  by (simp add: h_get_def hdr)

lemma h_get_add [hdr]:
  "h_get (h_add h k v) k' =
     (if canon k' = canon k then (case h_values h k of [] \<Rightarrow> v | w # _ \<Rightarrow> w) else h_get h k')"
  by (auto simp: h_get_def h_values_def hdr split: list.splits option.splits)

section \<open>Percent-encoding\<close>

datatype enc_mode = EncPath | EncQuery | EncHost

definition should_escape :: "enc_mode \<Rightarrow> char \<Rightarrow> bool" where
  "should_escape m c =
     (if is_alnum c then False
      else if m = EncHost \<and> (c \<in> set ''!$&()*+,;=:[]<>'' \<or> c = CHR 0x27 \<or> c = CHR 0x22) then False
      else if c \<in> set ''-_.~'' then False
      else if c \<in> set ''$&+,/:;=?@'' then (case m of EncPath \<Rightarrow> c = CHR ''?'' | EncQuery \<Rightarrow> True | EncHost \<Rightarrow> True)
      else True)"

definition hex_digit :: "nat \<Rightarrow> char" where
  "hex_digit n = char_of (if n < 10 then 48 + n else 55 + n)"

definition unhex :: "char \<Rightarrow> nat option" where
  "unhex c =
     (let n = of_char c :: nat in
      if 48 \<le> n \<and> n \<le> 57 then Some (n - 48)
      else if 97 \<le> n \<and> n \<le> 102 then Some (n - 87)
      else if 65 \<le> n \<and> n \<le> 70 then Some (n - 55)
      else None)"

fun escape :: "enc_mode \<Rightarrow> string \<Rightarrow> string" where
  "escape m [] = []"
| "escape m (c # cs) =
     (if c = CHR '' '' \<and> m = EncQuery then CHR ''+'' # escape m cs
      else if should_escape m c
      then CHR ''%'' # hex_digit (of_char c div 16) # hex_digit (of_char c mod 16) # escape m cs
      else c # escape m cs)"

fun unescape :: "enc_mode \<Rightarrow> string \<Rightarrow> string option" where
  "unescape m [] = Some []"
| "unescape m (c # cs) =
     (if c = CHR ''%'' then
        (case cs of
           a # b # r \<Rightarrow>
             (case (unhex a, unhex b) of
                (Some x, Some y) \<Rightarrow> map_option ((#) (char_of (16 * x + y))) (unescape m r)
              | _ \<Rightarrow> None)
         | _ \<Rightarrow> None)
      else if c = CHR ''+'' \<and> m = EncQuery then map_option ((#) CHR '' '') (unescape m cs)
      else map_option ((#) c) (unescape m cs))"

lemma unhex_hex_digit: "n < 16 \<Longrightarrow> unhex (hex_digit n) = Some n"
  by (auto simp: unhex_def hex_digit_def Let_def)

lemma of_char_256: "(of_char c :: nat) < 256"
  using of_char_mod_256 [of c, where ?'a = nat] by (metis mod_less_divisor zero_less_numeral)

lemma unescape_pct:
  "unescape m (CHR ''%'' # hex_digit (of_char c div 16) # hex_digit (of_char c mod 16) # r) =
     map_option ((#) c) (unescape m r)"
proof -
  have div: "(of_char c :: nat) div 16 < 16"
    using of_char_256 [of c] by (simp add: less_mult_imp_div_less)
  have eq: "16 * ((of_char c :: nat) div 16) + of_char c mod 16 = of_char c"
    by simp
  show ?thesis
    by (simp add: unhex_hex_digit div eq)
qed

text \<open>Decoding an encoded string gives it back.\<close>

lemma unescape_escape: "unescape m (escape m s) = Some s"
proof (induction s)
  case Nil
  then show ?case by simp
next
  case (Cons c s)
  have special: "\<not> should_escape m c \<Longrightarrow> c \<noteq> CHR ''%''" and plus: "m = EncQuery \<Longrightarrow> \<not> should_escape m c \<Longrightarrow> c \<noteq> CHR ''+''"
    by (auto simp: should_escape_def is_alnum_def)
  show ?case
  proof (cases "c = CHR '' '' \<and> m = EncQuery")
    case True
    with Cons.IH show ?thesis by simp
  next
    case False
    show ?thesis
    proof (cases "should_escape m c")
      case True
      with False Cons.IH show ?thesis
        by (auto simp: unescape_pct simp del: unescape.simps)
    next
      case nesc: False
      with False Cons.IH special plus show ?thesis
        by auto
    qed
  qed
qed

lemma escape_append: "escape m (s @ t) = escape m s @ escape m t"
  by (induction s) auto

section \<open>URLs\<close>

text \<open>
  The fields of \<open>url.URL\<close> the program depends on. \<open>u_user\<close> and \<open>u_fragment\<close> are the
  rendered user information and fragment (both come from the configured URL and are only printed).
  \<open>Opaque\<close> is empty for every URL used here: the requests' URLs have a path and the configured
  ones have a host.
\<close>

record url =
  u_scheme :: string
  u_user :: "string option"
  u_host :: string
  u_path :: string
  u_raw_path :: string
  u_force_query :: bool
  u_raw_query :: string
  u_fragment :: string

definition valid_encoded :: "string \<Rightarrow> bool" where
  "valid_encoded s \<longleftrightarrow>
     list_all (\<lambda>c. c \<in> set ''!$&()*+,;=:@[]%'' \<or> c = CHR 0x27 \<or> \<not> should_escape EncPath c) s"

definition escaped_path :: "url \<Rightarrow> string" where
  "escaped_path u =
     (if u_raw_path u \<noteq> [] \<and> valid_encoded (u_raw_path u)
         \<and> unescape EncPath (u_raw_path u) = Some (u_path u)
      then u_raw_path u
      else if u_path u = ''*'' then ''*''
      else escape EncPath (u_path u))"

definition url_string :: "url \<Rightarrow> string" where
  "url_string u =
     (let start = (if u_scheme u \<noteq> [] then u_scheme u @ '':'' else []);
          auth =
            (if u_scheme u \<noteq> [] \<or> u_host u \<noteq> [] \<or> u_user u \<noteq> None then
               (if u_host u \<noteq> [] \<or> u_path u \<noteq> [] \<or> u_user u \<noteq> None then ''//'' else [])
               @ (case u_user u of None \<Rightarrow> [] | Some ui \<Rightarrow> ui @ ''@'')
               @ (if u_host u \<noteq> [] then escape EncHost (u_host u) else [])
             else []);
          path = escaped_path u;
          slash = (if path \<noteq> [] \<and> hd path \<noteq> CHR ''/'' \<and> u_host u \<noteq> [] then ''/'' else []);
          dot = (if start @ auth @ slash = [] \<and> CHR '':'' \<in> set (fst (cut CHR ''/'' path)) then ''./'' else []);
          query = (if u_force_query u \<or> u_raw_query u \<noteq> [] then ''?'' @ u_raw_query u else []);
          frag = (if u_fragment u \<noteq> [] then ''#'' @ u_fragment u else [])
      in start @ auth @ slash @ dot @ path @ query @ frag)"

definition request_uri :: "url \<Rightarrow> string" where
  "request_uri u =
     (if escaped_path u = [] then ''/'' else escaped_path u)
     @ (if u_force_query u \<or> u_raw_query u \<noteq> [] then ''?'' @ u_raw_query u else [])"

text \<open>\<open>URL.Query\<close>: malformed pairs are dropped, the values of a repeated key keep their order.\<close>

definition query_pair :: "string \<Rightarrow> (string \<times> string) option" where
  "query_pair part =
     (if CHR '';'' \<in> set part \<or> part = [] then None
      else (case cut CHR ''='' part of (k, v, _) \<Rightarrow>
        (case (unescape EncQuery k, unescape EncQuery v) of
           (Some k', Some v') \<Rightarrow> Some (k', v')
         | _ \<Rightarrow> None)))"

definition values_add :: "string list gomap \<Rightarrow> string \<times> string \<Rightarrow> string list gomap" where
  "values_add m = (\<lambda>(k, v). AList.update k (case lookup m k of None \<Rightarrow> [v] | Some vs \<Rightarrow> vs @ [v]) m)"

definition parse_query :: "string \<Rightarrow> string list gomap" where
  "parse_query q = foldl values_add [] (List.map_filter query_pair (split_on CHR ''&'' q))"

definition q_get :: "string list gomap \<Rightarrow> string \<Rightarrow> string" where
  "q_get m k = (case lookup m k of Some (v # _) \<Rightarrow> v | _ \<Rightarrow> [])"

lemma wf_map_values_add [simp]: "wf_map m \<Longrightarrow> wf_map (values_add m p)"
  by (cases p) (simp add: values_add_def)

lemma wf_map_parse_query [simp]: "wf_map (parse_query q)"
proof -
  have "wf_map m \<Longrightarrow> wf_map (foldl values_add m ps)" for m ps
    by (induction ps arbitrary: m) auto
  then show ?thesis by (simp add: parse_query_def)
qed

lemma foldl_values_add_lookup:
  "lookup (foldl values_add m ps) k =
     (case (lookup m k, map snd (filter (\<lambda>p. fst p = k) ps)) of
        (None, []) \<Rightarrow> None
      | (None, vs) \<Rightarrow> Some vs
      | (Some ws, vs) \<Rightarrow> Some (ws @ vs))"
proof (induction ps arbitrary: m)
  case Nil
  then show ?case by (auto split: option.split)
next
  case (Cons p ps)
  obtain k' v where "p = (k', v)" by (cases p)
  with Cons.IH show ?case
    by (auto simp: values_add_def split: option.splits list.splits)
qed

text \<open>The values of a key are exactly the decoded values of the well-formed pairs with that key, in order.\<close>

lemma parse_query_lookup:
  "lookup (parse_query q) k =
     (case [v. (k', v) \<leftarrow> List.map_filter query_pair (split_on CHR ''&'' q), k' = k] of
        [] \<Rightarrow> None | vs \<Rightarrow> Some vs)"
proof -
  have "map snd (filter (\<lambda>p. fst p = k) ps) = concat (map (\<lambda>(k', v). if k' = k then [v] else []) ps)"
    for ps :: "(string \<times> string) list"
    by (induction ps) auto
  then show ?thesis
    unfolding parse_query_def foldl_values_add_lookup by (auto split: list.splits)
qed

section \<open>Cookies\<close>

record cookie =
  ck_name :: string
  ck_value :: string

text \<open>\<open>textproto.TrimString\<close>: ASCII white space at both ends.\<close>

definition trim_ascii :: "string \<Rightarrow> string" where
  "trim_ascii s = trim_set s {CHR '' '', CHR 0x09, CHR 0x0A, CHR 0x0D}"

definition cookie_value_byte :: "char \<Rightarrow> bool" where
  "cookie_value_byte c \<longleftrightarrow>
     32 \<le> (of_char c :: nat) \<and> (of_char c :: nat) < 127 \<and> c \<noteq> CHR 0x22 \<and> c \<noteq> CHR '';'' \<and> c \<noteq> CHR 0x5C"

definition parse_cookie_value :: "string \<Rightarrow> string option" where
  "parse_cookie_value v =
     (let u = (if 1 < length v \<and> hd v = CHR 0x22 \<and> last v = CHR 0x22 then butlast (tl v) else v)
      in if list_all cookie_value_byte u then Some u else None)"

definition cookie_part :: "string \<Rightarrow> cookie option" where
  "cookie_part part =
     (let p = trim_ascii part in
      if p = [] then None
      else (case cut CHR ''='' p of (n, v, _) \<Rightarrow>
        (let n' = trim_ascii n in
         if n' = [] \<or> \<not> list_all token_byte n' then None
         else map_option (\<lambda>u. \<lparr>ck_name = n', ck_value = u\<rparr>) (parse_cookie_value v))))"

text \<open>\<open>Request.Cookies\<close>: every well-formed \<open>name=value\<close> of every \<open>Cookie\<close> line, in order.\<close>

definition read_cookies :: "header \<Rightarrow> cookie list" where
  "read_cookies h =
     List.map_filter cookie_part
       (concat (map (\<lambda>line. split_on CHR '';'' (trim_ascii line))
          (case lookup h ''Cookie'' of None \<Rightarrow> [] | Some vs \<Rightarrow> vs)))"

section \<open>Status texts\<close>

definition status_texts :: "(int \<times> string) list" where
  "status_texts =
     [(100, ''Continue''),
      (101, ''Switching Protocols''),
      (102, ''Processing''),
      (103, ''Early Hints''),
      (200, ''OK''),
      (201, ''Created''),
      (202, ''Accepted''),
      (203, ''Non-Authoritative Information''),
      (204, ''No Content''),
      (205, ''Reset Content''),
      (206, ''Partial Content''),
      (207, ''Multi-Status''),
      (208, ''Already Reported''),
      (226, ''IM Used''),
      (300, ''Multiple Choices''),
      (301, ''Moved Permanently''),
      (302, ''Found''),
      (303, ''See Other''),
      (304, ''Not Modified''),
      (305, ''Use Proxy''),
      (307, ''Temporary Redirect''),
      (308, ''Permanent Redirect''),
      (400, ''Bad Request''),
      (401, ''Unauthorized''),
      (402, ''Payment Required''),
      (403, ''Forbidden''),
      (404, ''Not Found''),
      (405, ''Method Not Allowed''),
      (406, ''Not Acceptable''),
      (407, ''Proxy Authentication Required''),
      (408, ''Request Timeout''),
      (409, ''Conflict''),
      (410, ''Gone''),
      (411, ''Length Required''),
      (412, ''Precondition Failed''),
      (413, ''Request Entity Too Large''),
      (414, ''Request URI Too Long''),
      (415, ''Unsupported Media Type''),
      (416, ''Requested Range Not Satisfiable''),
      (417, ''Expectation Failed''),
      (418, ''I'' @ [CHR 0x27] @ ''m a teapot''),
      (421, ''Misdirected Request''),
      (422, ''Unprocessable Entity''),
      (423, ''Locked''),
      (424, ''Failed Dependency''),
      (425, ''Too Early''),
      (426, ''Upgrade Required''),
      (428, ''Precondition Required''),
      (429, ''Too Many Requests''),
      (431, ''Request Header Fields Too Large''),
      (451, ''Unavailable For Legal Reasons''),
      (500, ''Internal Server Error''),
      (501, ''Not Implemented''),
      (502, ''Bad Gateway''),
      (503, ''Service Unavailable''),
      (504, ''Gateway Timeout''),
      (505, ''HTTP Version Not Supported''),
      (506, ''Variant Also Negotiates''),
      (507, ''Insufficient Storage''),
      (508, ''Loop Detected''),
      (510, ''Not Extended''),
      (511, ''Network Authentication Required'')]"

definition status_text :: "int \<Rightarrow> string" where
  "status_text code = (case map_of status_texts code of None \<Rightarrow> [] | Some t \<Rightarrow> t)"

section \<open>Requests\<close>

text \<open>
  An X.509 certificate as the program reads it. The names are in the text form that
  \<open>pkix.Name.String\<close> gives them, the alternative names are DNS names and addresses; times are nanoseconds.
\<close>

record x509 =
  x_raw :: bytes
  x_subject :: string
  x_issuer :: string
  x_serial :: bytes
  x_not_before :: int
  x_not_after :: int
  x_dns_names :: "string list"
  x_ip_addresses :: "ip_addr list"
  x_is_ca :: bool

text \<open>A certificate with its key, as \<open>tls.Certificate\<close> carries it: the chain in DER, the key, the parsed leaf if any.\<close>

record tls_cert =
  tc_chain :: "bytes list"
  tc_key :: bytes
  tc_leaf :: "x509 option"

record tls_state =
  t_server_name :: string
  t_alpn :: string
  t_version :: nat
  t_cipher :: nat
  t_peer_certs :: "x509 list"

text \<open>
  A request as the handler receives it. The body is the bytes the reader delivers and the error,
  if any, it fails with after them.
\<close>

record request =
  r_method :: string
  r_url :: url
  r_proto :: string
  r_proto_major :: nat
  r_proto_minor :: nat
  r_host :: string
  r_header :: header
  r_remote_addr :: string
  r_tls :: "tls_state option"
  r_body :: bytes
  r_body_err :: "string option"

text \<open>A URL with a given path, for evaluations.\<close>

definition plain_url :: "string \<Rightarrow> string \<Rightarrow> url" where
  "plain_url path raw =
     \<lparr>u_scheme = ''http'', u_user = None, u_host = ''t'', u_path = path, u_raw_path = raw,
      u_force_query = False, u_raw_query = [], u_fragment = []\<rparr>"

text \<open>
  \<open>io.ReadAll(io.LimitReader(body, n))\<close>: a limit that is not positive reads nothing; a body
  longer than the limit is cut there and its error is never seen.
\<close>

definition read_limited :: "int \<Rightarrow> bytes \<Rightarrow> string option \<Rightarrow> string + bytes" where
  "read_limited n body err =
     (if n \<le> 0 then Inr []
      else if n \<le> int (length body) then Inr (take (nat n) body)
      else (case err of None \<Rightarrow> Inr body | Some e \<Rightarrow> Inl e))"

lemma read_limited_length: "read_limited n body err = Inr b \<Longrightarrow> int (length b) \<le> max 0 n"
  by (auto simp: read_limited_def split: if_splits option.splits)

end
