(* ===== verification/Proxies.thy ===== *)
theory Proxies
  imports GoHttp GoNet
begin

text \<open>
  \<open>internal/echo/proxies.go\<close>: the client address behind trusted proxies. A checker is its
  list of trusted prefixes. \<open>resolve\<close> is \<open>ProxyChecker.Resolve\<close>; \<open>xff_chain\<close>
  is the chain it collects from the \<open>X-Forwarded-For\<close> values.
\<close>

section \<open>Definitions\<close>

type_synonym checker = "prefix list"

definition default_trusted_texts :: "string list" where
  "default_trusted_texts =
     [''127.0.0.0/8'', ''::1/128'', ''10.0.0.0/8'', ''172.16.0.0/12'', ''192.168.0.0/16'',
      ''169.254.0.0/16'', ''fe80::/10'']"

text \<open>
  \<open>netip.MustParsePrefix\<close> on each text; it panics on a malformed one, which
  \<open>default_trusted_eq\<close> below rules out.
\<close>

definition default_trusted :: checker where
  "default_trusted = map (\<lambda>t. the (parse_prefix t)) default_trusted_texts"

definition new_proxy_checker :: "prefix list \<Rightarrow> checker" where
  "new_proxy_checker extra = default_trusted @ extra"

definition trusted :: "checker \<Rightarrow> string \<Rightarrow> bool" where
  "trusted c addr =
     (case parse_addr addr of
        None \<Rightarrow> False
      | Some ip \<Rightarrow> list_ex (\<lambda>p. prefix_contains p (unmap ip)) c)"

definition peer_ip :: "string \<Rightarrow> string" where
  "peer_ip remote_addr =
     (case split_host_port remote_addr of Some (host, _) \<Rightarrow> host | None \<Rightarrow> remote_addr)"

definition xff_chain :: "string list \<Rightarrow> string list" where
  "xff_chain xff =
     filter (\<lambda>e. e \<noteq> []) (map trim_space (concat (map (split_on CHR '','') xff)))"

text \<open>The loop from the right end of the chain: the first entry that is not trusted.\<close>

fun last_untrusted :: "checker \<Rightarrow> string list \<Rightarrow> string option" where
  "last_untrusted c [] = None"
| "last_untrusted c (e # es) = (if \<not> trusted c e then Some e else last_untrusted c es)"

definition resolve :: "checker \<Rightarrow> string \<Rightarrow> string list \<Rightarrow> string \<times> string list" where
  "resolve c remote_addr xff =
     (let peer = peer_ip remote_addr; chain = xff_chain xff in
      if chain = [] \<or> \<not> trusted c peer then (peer, [])
      else (case last_untrusted c (rev chain) of
              Some e \<Rightarrow> (e, chain)
            | None \<Rightarrow> (hd chain, chain)))"

section \<open>Evaluation\<close>

lemmas ip_eval [go_eval] =
  parse_addr_def parse_v6_def v6_loop.simps v6_turn_def v6_expand_def is_hex_def hex_val_def
  v4_fields_def octet_def digit_val_def has_prefix_def word_of_bytes_def parse_prefix_def
  atoi_def is_i64_def min_i64_def max_i64_def bit_len_def has_zone_def prefix_from_def
  without_zone_def mask_eq_exp_minus_1

lemma default_trusted_eq:
  "map parse_prefix default_trusted_texts = map Some default_trusted \<and>
   default_trusted =
     [\<lparr>p_ip = V4 0x7F000000, p_bits = 8\<rparr>, \<lparr>p_ip = V6 1 [], p_bits = 128\<rparr>,
      \<lparr>p_ip = V4 0x0A000000, p_bits = 8\<rparr>, \<lparr>p_ip = V4 0xAC100000, p_bits = 12\<rparr>,
      \<lparr>p_ip = V4 0xC0A80000, p_bits = 16\<rparr>, \<lparr>p_ip = V4 0xA9FE0000, p_bits = 16\<rparr>,
      \<lparr>p_ip = V6 0xFE800000000000000000000000000000 [], p_bits = 10\<rparr>]"
  by (simp add: default_trusted_def default_trusted_texts_def go_eval)

lemmas default_trusted_list = default_trusted_eq [THEN conjunct2]

section \<open>The chain\<close>

text \<open>A hop as a proxy writes it: not empty, no comma, no white space at its ends.\<close>

definition clean_hop :: "string \<Rightarrow> bool" where
  "clean_hop e \<longleftrightarrow> e \<noteq> [] \<and> CHR '','' \<notin> set e \<and> trim_space e = e"

lemma strip_space_head: "strip_runes space_runes (CHR '' '' # s) = strip_runes space_runes s"
  by (subst strip_runes.simps) (simp add: space_runes_def has_prefix_def)

lemma trim_space_head [simp]: "trim_space (CHR '' '' # s) = trim_space s"
  by (simp add: trim_space_def strip_space_head)

lemma xff_chain_append [simp]: "xff_chain (xs @ ys) = xff_chain xs @ xff_chain ys"
  by (simp add: xff_chain_def)

lemma split_joined_hops:
  assumes "\<forall>e \<in> set es. CHR '','' \<notin> set e" and "es \<noteq> []"
  shows "split_on CHR '','' (join '', '' es) = hd es # map (\<lambda>e. CHR '' '' # e) (tl es)"
  using assms
proof (induction es rule: induct_list012)
  case 1
  then show ?case by simp
next
  case (2 x)
  then show ?case by simp
next
  case (3 x y zs)
  then show ?case by (simp add: split_on_append)
qed

lemma filter_clean: "\<forall>e \<in> set es. clean_hop e \<Longrightarrow> filter (\<lambda>e. e \<noteq> []) (map trim_space es) = es"
  by (induction es) (auto simp: clean_hop_def)

lemma xff_chain_joined:
  assumes "\<forall>e \<in> set es. clean_hop e"
  shows "xff_chain [join '', '' es] = es"
proof (cases es)
  case Nil
  then show ?thesis by (simp add: xff_chain_def)
next
  case (Cons e es')
  have "\<forall>e \<in> set es. CHR '','' \<notin> set e"
    using assms by (simp add: clean_hop_def)
  with Cons have "map trim_space (split_on CHR '','' (join '', '' es)) = map trim_space es"
    by (simp add: split_joined_hops comp_def)
  with filter_clean [OF assms] show ?thesis
    by (simp add: xff_chain_def)
qed

text \<open>Every entry of a chain is clean except that it may hold no comma by construction of the split.\<close>

lemma xff_chain_entry: "e \<in> set (xff_chain xff) \<Longrightarrow> e \<noteq> [] \<and> trim_space e = e"
  by (auto simp: xff_chain_def)

lemma last_untrusted_SomeD:
  "last_untrusted c es = Some e \<Longrightarrow>
     \<exists>xs ys. es = xs @ e # ys \<and> \<not> trusted c e \<and> (\<forall>x \<in> set xs. trusted c x)"
proof (induction es)
  case Nil
  then show ?case by simp
next
  case (Cons a es)
  show ?case
  proof (cases "trusted c a")
    case True
    with Cons obtain xs ys where "es = xs @ e # ys" "\<not> trusted c e" "\<forall>x \<in> set xs. trusted c x"
      by auto
    with True have "a # es = (a # xs) @ e # ys \<and> \<not> trusted c e \<and> (\<forall>x \<in> set (a # xs). trusted c x)"
      by simp
    then show ?thesis by blast
  next
    case False
    with Cons.prems have "a # es = [] @ e # es \<and> \<not> trusted c e"
      by simp
    then show ?thesis by fastforce
  qed
qed

lemma last_untrusted_append:
  "\<forall>x \<in> set xs. trusted c x \<Longrightarrow> last_untrusted c (xs @ ys) = last_untrusted c ys"
  by (induction xs) auto

lemma last_untrusted_None: "last_untrusted c es = None \<longleftrightarrow> (\<forall>e \<in> set es. trusted c e)"
  by (induction es) auto

section \<open>Which addresses are trusted\<close>

lemma trusted_iff:
  "trusted c s \<longleftrightarrow>
     (\<exists>a p. parse_addr s = Some a \<and> p \<in> set c \<and> prefix_contains p (unmap a))"
  by (auto simp: trusted_def list_ex_iff split: option.splits)

lemma prefix_contains_no_zone: "prefix_contains p a \<Longrightarrow> \<not> has_zone a"
  by (simp add: prefix_contains_def split: if_splits)

lemma unmap_not_mapped: "unmap a = V6 w z \<Longrightarrow> drop_bit 32 w \<noteq> 0xFFFF"
  by (auto simp: unmap_def split: ip_addr.splits if_splits)

lemma two_bytes_eq:
  fixes a a' b b' :: nat
  assumes "b \<le> 255" "b' \<le> 255"
  shows "a * 256 + b = a' * 256 + b' \<longleftrightarrow> a = a' \<and> b = b'"
proof
  assume eq: "a * 256 + b = a' * 256 + b'"
  with assms have "a = a'" by linarith
  with eq show "a = a' \<and> b = b'" by simp
qed simp

section \<open>Properties\<close>

text \<open>
  C4: The resolved address. Without a chain, or when the peer is not trusted, it is the peer and no
  chain is reported. Otherwise the whole chain is reported, and the address is the entry that is not
  trusted while every entry to its right is, or the leftmost entry when every entry is trusted.
\<close>
theorem resolve_spec:
  assumes "resolve c remote xff = (ip, ips)"
  shows "(if xff_chain xff = [] \<or> \<not> trusted c (peer_ip remote) then ip = peer_ip remote \<and> ips = []
          else ips = xff_chain xff \<and>
            ((\<exists>pre post. ips = pre @ ip # post \<and> \<not> trusted c ip \<and> (\<forall>e \<in> set post. trusted c e))
             \<or> ((\<forall>e \<in> set ips. trusted c e) \<and> ip = hd ips)))"
proof (cases "xff_chain xff = [] \<or> \<not> trusted c (peer_ip remote)")
  case True
  with assms show ?thesis by (auto simp: resolve_def)
next
  case False
  show ?thesis
  proof (cases "last_untrusted c (rev (xff_chain xff))")
    case None
    with False assms show ?thesis
      by (auto simp: resolve_def Let_def last_untrusted_None)
  next
    case (Some e)
    with False assms have ip: "ip = e" "ips = xff_chain xff"
      by (auto simp: resolve_def Let_def)
    from last_untrusted_SomeD [OF Some] obtain xs ys where
      split: "rev (xff_chain xff) = xs @ e # ys" and "\<not> trusted c e" "\<forall>x \<in> set xs. trusted c x"
      by blast
    moreover from split have "xff_chain xff = rev ys @ e # rev xs"
      by (simp add: rev_swap)
    ultimately show ?thesis
      using False ip by (metis set_rev)
  qed
qed

theorem resolve_spec_witness:
  "resolve (new_proxy_checker []) ''10.0.0.3:1234'' [''203.0.113.7, 10.0.0.2''] =
     (''203.0.113.7'', [''203.0.113.7'', ''10.0.0.2'']) \<and>
   \<not> trusted (new_proxy_checker []) ''203.0.113.7''"
proof -
  let ?c = "new_proxy_checker []"
  have chain: "xff_chain [''203.0.113.7, 10.0.0.2''] = [''203.0.113.7'', ''10.0.0.2'']"
    by code_simp
  have peer: "peer_ip ''10.0.0.3:1234'' = ''10.0.0.3''"
    by code_simp
  have t: "trusted ?c ''10.0.0.3''" "trusted ?c ''10.0.0.2''" "\<not> trusted ?c ''203.0.113.7''"
    by (simp_all add: trusted_def new_proxy_checker_def default_trusted_list prefix_contains_def
        unmap_def go_eval)
  have run: "resolve ?c ''10.0.0.3:1234'' [''203.0.113.7, 10.0.0.2''] =
      (''203.0.113.7'', [''203.0.113.7'', ''10.0.0.2''])"
    unfolding resolve_def chain peer using t by simp
  from resolve_spec [OF run] run t show ?thesis by simp
qed

text \<open>
  C31: What a client writes into \<open>X-Forwarded-For\<close> cannot move the resolved address: when the
  trusted proxies append an untrusted hop and trusted ones after it, that hop is the address, for any
  values the client sent before.
\<close>
theorem resolve_ignores_forged_values:
  assumes "trusted c (peer_ip remote)"
    and "\<not> trusted c client" and "\<forall>h \<in> set hops. trusted c h"
    and "\<forall>h \<in> set (client # hops). clean_hop h"
  shows "fst (resolve c remote (forged @ [join '', '' (client # hops)])) = client"
proof -
  have "xff_chain (forged @ [join '', '' (client # hops)]) = xff_chain forged @ client # hops"
    using xff_chain_joined [OF assms(4)] by simp
  moreover have "last_untrusted c (rev hops @ client # rev (xff_chain forged)) = Some client"
    using assms(2,3) by (simp add: last_untrusted_append)
  ultimately show ?thesis
    using assms(1) by (simp add: resolve_def Let_def)
qed

theorem resolve_ignores_forged_values_witness:
  "fst (resolve (new_proxy_checker []) ''127.0.0.1:9'' ([''1.2.3.4, 8.8.8.8''] @ [join '', '' [''198.51.100.9'', ''10.1.1.1'']]))
     = ''198.51.100.9''"
proof (rule resolve_ignores_forged_values)
  have peer: "peer_ip ''127.0.0.1:9'' = ''127.0.0.1''"
    by code_simp
  show "trusted (new_proxy_checker []) (peer_ip ''127.0.0.1:9'')"
    by (simp add: peer trusted_def new_proxy_checker_def default_trusted_list prefix_contains_def
        unmap_def go_eval)
  show "\<not> trusted (new_proxy_checker []) ''198.51.100.9''"
    by (simp add: trusted_def new_proxy_checker_def default_trusted_list prefix_contains_def
        unmap_def go_eval)
  show "\<forall>h \<in> set [''10.1.1.1'']. trusted (new_proxy_checker []) h"
    by (simp add: trusted_def new_proxy_checker_def default_trusted_list prefix_contains_def
        unmap_def go_eval)
  have "trim_space ''198.51.100.9'' = ''198.51.100.9''" "trim_space ''10.1.1.1'' = ''10.1.1.1''"
    by code_simp+
  then show "\<forall>h \<in> set [''198.51.100.9'', ''10.1.1.1'']. clean_hop h"
    by (simp add: clean_hop_def)
qed

text \<open>
  The default checker trusts exactly the loopback, private and link-local IPv4 ranges: every
  dotted quad is decided as those ranges say.
\<close>
theorem default_trusted_v4:
  assumes "a \<le> 255" "b \<le> 255" "c \<le> 255" "d \<le> 255"
  shows "trusted (new_proxy_checker []) (dotted a b c d) \<longleftrightarrow>
     a = 127 \<or> a = 10 \<or> (a = 172 \<and> 16 \<le> b \<and> b \<le> 31) \<or> (a = 192 \<and> b = 168) \<or> (a = 169 \<and> b = 254)"
proof -
  define x where "x = ((a * 256 + b) * 256 + c) * 256 + d"
  have x: "x < 2 ^ 32" using assms by (simp add: x_def)
  have d24: "x div 16777216 = a"
    unfolding x_def using assms by (intro div_nat_eqI) simp_all
  have d16: "x div 65536 = a * 256 + b"
    unfolding x_def using assms by (intro div_nat_eqI) simp_all
  obtain q r where b: "b = 16 * q + r" "r < 16"
    using that [of "b div 16" "b mod 16"] by simp
  have "x div 1048576 = a * 16 + q"
    unfolding x_def
  proof (rule div_nat_eqI)
    show "1048576 * (a * 16 + q) \<le> ((a * 256 + b) * 256 + c) * 256 + d" unfolding b(1) by simp
    show "((a * 256 + b) * 256 + c) * 256 + d < 1048576 * Suc (a * 16 + q)"
      using assms(3,4) b(2) unfolding b(1) by simp
  qed
  moreover have "a * 16 + q = 2753 \<longleftrightarrow> a = 172 \<and> q = 1"
  proof
    assume eq: "a * 16 + q = 2753"
    have "q \<le> 15" using assms(2) b(1) by linarith
    with eq have "a = 172" by linarith
    with eq show "a = 172 \<and> q = 1" by simp
  qed simp
  moreover have "q = 1 \<longleftrightarrow> 16 \<le> b \<and> b \<le> 31"
    using b(1,2) by (auto simp: le_less_Suc_eq)
  ultimately have d20: "x div 1048576 = 2753 \<longleftrightarrow> a = 172 \<and> 16 \<le> b \<and> b \<le> 31"
    by simp
  have m8: "drop_bit 24 (word_of_nat x XOR w) = 0 \<longleftrightarrow> a = unat w div 16777216" for w :: "32 word"
    using v4_prefix_match [OF x, of 8 w] by (simp add: d24 del: drop_bit_xor)
  have m16: "drop_bit 16 (word_of_nat x XOR w) = 0 \<longleftrightarrow> a * 256 + b = unat w div 65536" for w :: "32 word"
    using v4_prefix_match [OF x, of 16 w] by (simp add: d16 del: drop_bit_xor)
  have m12: "drop_bit 20 (word_of_nat x XOR w) = 0 \<longleftrightarrow> x div 1048576 = unat w div 1048576" for w :: "32 word"
    using v4_prefix_match [OF x, of 12 w] by (simp del: drop_bit_xor)
  have "trusted (new_proxy_checker []) (dotted a b c d) \<longleftrightarrow>
      a = 127 \<or> a = 10 \<or> x div 1048576 = 2753 \<or> a * 256 + b = 49320 \<or> a * 256 + b = 43518"
    unfolding trusted_def parse_dotted [OF assms] new_proxy_checker_def default_trusted_list x_def [symmetric]
    by (simp add: prefix_contains_def has_zone_def unmap_def m8 m16 m12 del: drop_bit_xor)
  moreover have "a * 256 + b = 49320 \<longleftrightarrow> a = 192 \<and> b = 168"
    using two_bytes_eq [OF assms(2), of 168 a 192] by simp
  moreover have "a * 256 + b = 43518 \<longleftrightarrow> a = 169 \<and> b = 254"
    using two_bytes_eq [OF assms(2), of 254 a 169] by simp
  ultimately show ?thesis
    by (simp add: d20)
qed

theorem default_trusted_v4_witness:
  "\<not> trusted (new_proxy_checker []) (dotted 172 32 0 1) \<and> trusted (new_proxy_checker []) (dotted 172 31 0 1)"
  using default_trusted_v4 [of 172 32 0 1] default_trusted_v4 [of 172 31 0 1] by simp

text \<open>
  An address with an IPv6 zone is never trusted, whatever the prefixes, unless it is an
  IPv4-mapped one: \<open>Prefix.Contains\<close> is false for every zoned address, and a link-local peer's
  socket address carries its zone.
\<close>
theorem zoned_never_trusted:
  assumes "parse_addr s = Some (V6 w z)" and "z \<noteq> []" and "drop_bit 32 w \<noteq> 0xFFFF"
  shows "\<not> trusted c s"
  using assms by (auto simp: trusted_iff unmap_def has_zone_def dest: prefix_contains_no_zone)

theorem zoned_never_trusted_witness:
  "peer_ip ''[fe80::1%eth0]:40000'' = ''fe80::1%eth0'' \<and>
   trusted (new_proxy_checker []) ''fe80::1'' \<and>
   \<not> trusted (new_proxy_checker []) ''fe80::1%eth0''"
proof (intro conjI)
  show "peer_ip ''[fe80::1%eth0]:40000'' = ''fe80::1%eth0''" by code_simp
  show "trusted (new_proxy_checker []) ''fe80::1''"
    by (simp add: trusted_def new_proxy_checker_def default_trusted_list prefix_contains_def
        unmap_def go_eval)
  have "parse_addr ''fe80::1%eth0'' = Some (V6 0xFE800000000000000000000000000001 ''eth0'')"
    by (simp add: go_eval)
  then show "\<not> trusted (new_proxy_checker []) ''fe80::1%eth0''"
    by (rule zoned_never_trusted) simp_all
qed

text \<open>
  A prefix inside the IPv4-mapped IPv6 range contains no address the checker asks about, since the
  checker unmaps first.
\<close>
lemma mapped_prefix_never_matches:
  assumes "p_ip p = V6 w z" "drop_bit 32 w = 0xFFFF" "96 \<le> p_bits p" "p_bits p \<le> 128"
  shows "\<not> prefix_contains p (unmap a)"
proof
  assume contains: "prefix_contains p (unmap a)"
  then obtain v zv where u: "unmap a = V6 v zv"
    using assms(1) by (cases "unmap a") (auto simp: prefix_contains_def split: if_splits)
  with contains assms(1) have "(v XOR w) AND NOT (mask (128 - p_bits p)) = 0"
    by (simp add: prefix_contains_def split: if_splits)
  then have agree: "\<forall>i. 128 - p_bits p \<le> i \<longrightarrow> i < 128 \<longrightarrow> bit v i = bit w i"
    using and_not_mask_eq_0 [of v w "128 - p_bits p"] by simp
  have "drop_bit 32 v = drop_bit 32 w"
  proof (rule bit_word_eqI)
    fix n assume "n < LENGTH(128)"
    have "bit v (32 + n) = bit w (32 + n)"
      using agree assms(3) by (cases "32 + n < 128") (auto dest: bit_imp_le_length)
    then show "bit (drop_bit 32 v) n = bit (drop_bit 32 w) n"
      by (simp add: bit_simps)
  qed
  with assms(2) unmap_not_mapped [OF u] show False by simp
qed

end
