(* ===== verification/Recorder.thy ===== *)
theory Recorder
  imports GoHttp
begin

text \<open>
  \<open>internal/server/recorder.go\<close>: the wrapper around the response writer that remembers the
  status and, for the verbose dump, a bounded copy of the body. \<open>wire\<close> is what Go's HTTP/1
  server does with the same calls: informational codes are sent at once and leave the response
  open, a first \<open>Write\<close> implies status 200, some statuses allow no body, a declared
  \<open>Content-Length\<close> bounds the body, a code outside 100 to 999 panics.
  The locale \<open>response_writer\<close> is the interface the handlers use; the wire and the recorder
  both provide it.
\<close>

section \<open>The server's response writer\<close>

text \<open>
  \<open>w_header\<close> is the header map the handler edits, \<open>w_sent\<close> the copy sent with the final status.
  \<open>w_body\<close> is the body handed to the server (which it drops again for a \<open>HEAD\<close> request).
\<close>

record wire =
  w_header :: header
  w_info :: "(int \<times> header) list"
  w_wrote :: bool
  w_status :: int
  w_sent :: header
  w_written :: int
  w_body :: bytes
  w_panic :: bool
  w_hijackable :: bool
  w_hijacked :: bool

definition fresh_wire :: wire where
  "fresh_wire = \<lparr>w_header = [], w_info = [], w_wrote = False, w_status = 0, w_sent = [],
     w_written = 0, w_body = [], w_panic = False, w_hijackable = True, w_hijacked = False\<rparr>"

definition informational :: "int \<Rightarrow> bool" where
  "informational code \<longleftrightarrow> 100 \<le> code \<and> code \<le> 199 \<and> code \<noteq> 101"

definition valid_code :: "int \<Rightarrow> bool" where
  "valid_code code \<longleftrightarrow> 100 \<le> code \<and> code \<le> 999"

definition body_allowed :: "int \<Rightarrow> bool" where
  "body_allowed code \<longleftrightarrow> \<not> (100 \<le> code \<and> code \<le> 199) \<and> code \<noteq> 204 \<and> code \<noteq> 304"

text \<open>The declared length: a \<open>Content-Length\<close> that is no length is dropped from the response.\<close>

definition declared_length :: "header \<Rightarrow> int option" where
  "declared_length h =
     (case atoi (h_get h ''Content-Length'') of Some n \<Rightarrow> if 0 \<le> n then Some n else None | None \<Rightarrow> None)"

definition wire_write_header :: "int \<Rightarrow> wire \<Rightarrow> wire" where
  "wire_write_header code w =
     (if w_hijacked w \<or> w_wrote w then w
      else if \<not> valid_code code then w\<lparr>w_panic := True\<rparr>
      else if informational code then w\<lparr>w_info := w_info w @ [(code, w_header w)]\<rparr>
      else (let h = (if h_get (w_header w) ''Content-Length'' \<noteq> [] \<and> declared_length (w_header w) = None
                     then h_del (w_header w) ''Content-Length'' else w_header w)
            in w\<lparr>w_wrote := True, w_status := code, w_header := h, w_sent := h\<rparr>))"

definition wire_write :: "bytes \<Rightarrow> wire \<Rightarrow> wire" where
  "wire_write b w =
     (if w_hijacked w then w
      else
        (let w1 = (if \<not> w_wrote w then wire_write_header 200 w else w) in
         if b = [] \<or> \<not> body_allowed (w_status w1) then w1
         else
           (let n = w_written w1 + int (length b); w2 = w1\<lparr>w_written := n\<rparr> in
            case declared_length (w_sent w1) of
              Some m \<Rightarrow> if m < n then w2 else w2\<lparr>w_body := w_body w2 @ b\<rparr>
            | None \<Rightarrow> w2\<lparr>w_body := w_body w2 @ b\<rparr>)))"

definition wire_flush :: "wire \<Rightarrow> wire" where
  "wire_flush w = (if \<not> w_wrote w then wire_write_header 200 w else w)"

section \<open>The recorder\<close>

record recorder =
  rec_wire :: wire
  rec_status :: int
  rec_wrote :: bool
  rec_body :: bytes
  rec_cap :: int

definition status_client_closed_request :: int where
  "status_client_closed_request = 499"

definition new_recorder :: "wire \<Rightarrow> int \<Rightarrow> recorder" where
  "new_recorder w cap = \<lparr>rec_wire = w, rec_status = 0, rec_wrote = False, rec_body = [], rec_cap = cap\<rparr>"

definition rec_header :: "recorder \<Rightarrow> header" where
  "rec_header r = w_header (rec_wire r)"

text \<open>The handlers edit the header map in place; \<open>f\<close> is the edit.\<close>

definition rec_edit :: "(header \<Rightarrow> header) \<Rightarrow> recorder \<Rightarrow> recorder" where
  "rec_edit f r = r\<lparr>rec_wire := (rec_wire r)\<lparr>w_header := f (rec_header r)\<rparr>\<rparr>"

definition rec_write_header :: "int \<Rightarrow> recorder \<Rightarrow> recorder" where
  "rec_write_header code r =
     (if rec_wrote r then r
      else r\<lparr>rec_wrote := True, rec_status := code, rec_wire := wire_write_header code (rec_wire r)\<rparr>)"

definition rec_write :: "bytes \<Rightarrow> recorder \<Rightarrow> recorder" where
  "rec_write b r =
     (let r1 = (if \<not> rec_wrote r then rec_write_header 200 r else r);
          remaining = i64 (rec_cap r1 - int (length (rec_body r1)));
          r2 = (if 0 < remaining
                then r1\<lparr>rec_body := rec_body r1 @
                       (if remaining < int (length b) then take (nat remaining) b else b)\<rparr>
                else r1)
      in r2\<lparr>rec_wire := wire_write b (rec_wire r2)\<rparr>)"

definition rec_abort :: "int \<Rightarrow> recorder \<Rightarrow> recorder" where
  "rec_abort code r = (if \<not> rec_wrote r then r\<lparr>rec_wrote := True, rec_status := code\<rparr> else r)"

definition rec_get_status :: "recorder \<Rightarrow> int" where
  "rec_get_status r = (if rec_wrote r then rec_status r else 200)"

definition rec_body_bytes :: "recorder \<Rightarrow> bytes" where
  "rec_body_bytes r = rec_body r"

definition rec_flush :: "recorder \<Rightarrow> recorder" where
  "rec_flush r = r\<lparr>rec_wire := wire_flush (rec_wire r)\<rparr>"

definition rec_hijack :: "recorder \<Rightarrow> string + recorder" where
  "rec_hijack r =
     (if w_hijackable (rec_wire r)
      then Inr (r\<lparr>rec_wire := (rec_wire r)\<lparr>w_hijacked := True\<rparr>\<rparr>)
      else Inl ''http.Hijacker not supported by underlying ResponseWriter'')"

definition rec_unwrap :: "recorder \<Rightarrow> wire" where
  "rec_unwrap r = rec_wire r"

section \<open>The interface\<close>

text \<open>
  A response writer over a wire: editing the headers, announcing a final status and writing act on
  the wire as the server's own writer does. \<open>ready\<close> says that its own bookkeeping agrees with the wire.
\<close>

locale response_writer =
  fixes wire_of :: "'w \<Rightarrow> wire"
    and edit :: "(header \<Rightarrow> header) \<Rightarrow> 'w \<Rightarrow> 'w"
    and announce :: "int \<Rightarrow> 'w \<Rightarrow> 'w"
    and put_body :: "bytes \<Rightarrow> 'w \<Rightarrow> 'w"
    and ready :: "'w \<Rightarrow> bool"
  assumes wire_edit: "wire_of (edit f w) = (wire_of w)\<lparr>w_header := f (w_header (wire_of w))\<rparr>"
    and wire_announce:
      "ready w \<Longrightarrow> valid_code c \<Longrightarrow> \<not> informational c \<Longrightarrow> wire_of (announce c w) = wire_write_header c (wire_of w)"
    and wire_put_body: "ready w \<Longrightarrow> wire_of (put_body b w) = wire_write b (wire_of w)"
    and ready_edit: "ready w \<Longrightarrow> ready (edit f w)"
    and ready_announce: "ready w \<Longrightarrow> valid_code c \<Longrightarrow> \<not> informational c \<Longrightarrow> ready (announce c w)"
    and ready_put_body: "ready w \<Longrightarrow> ready (put_body b w)"
begin

text \<open>A response given in one go: edit the headers, announce the status, write the body.\<close>

lemma respond_wire:
  assumes "ready w" "\<not> w_wrote (wire_of w)" "\<not> w_hijacked (wire_of w)"
    and "valid_code c" "\<not> informational c"
    and len: "h_get (f (w_header (wire_of w))) ''Content-Length'' = [] \<or>
      (\<exists>n. declared_length (f (w_header (wire_of w))) = Some n \<and> w_written (wire_of w) + int (length b) \<le> n)"
  shows "w_wrote (wire_of (put_body b (announce c (edit f w)))) \<and>
    w_status (wire_of (put_body b (announce c (edit f w)))) = c \<and>
    w_sent (wire_of (put_body b (announce c (edit f w)))) = f (w_header (wire_of w)) \<and>
    w_body (wire_of (put_body b (announce c (edit f w)))) =
      w_body (wire_of w) @ (if body_allowed c then b else []) \<and>
    w_panic (wire_of (put_body b (announce c (edit f w)))) = w_panic (wire_of w)"
  using assms(1-5) len
  by (auto simp: wire_put_body wire_announce wire_edit ready_edit ready_announce wire_write_def
      wire_write_header_def declared_length_def Let_def split: option.splits)

end

text \<open>A handler's calls on a writer, as a list: header edits, announced statuses, writes.\<close>

datatype writer_op = OpEdit "header \<Rightarrow> header" | OpHeader int | OpWrite bytes

fun apply_op ::
  "((header \<Rightarrow> header) \<Rightarrow> 'w \<Rightarrow> 'w) \<Rightarrow> (int \<Rightarrow> 'w \<Rightarrow> 'w) \<Rightarrow> (bytes \<Rightarrow> 'w \<Rightarrow> 'w) \<Rightarrow> writer_op \<Rightarrow> 'w \<Rightarrow> 'w" where
  "apply_op e a p (OpEdit f) w = e f w"
| "apply_op e a p (OpHeader c) w = a c w"
| "apply_op e a p (OpWrite b) w = p b w"

fun op_final :: "writer_op \<Rightarrow> bool" where
  "op_final (OpHeader c) \<longleftrightarrow> valid_code c \<and> \<not> informational c"
| "op_final _ \<longleftrightarrow> True"

abbreviation run_wire :: "writer_op list \<Rightarrow> wire \<Rightarrow> wire" where
  "run_wire \<equiv> fold (apply_op (\<lambda>f w. w\<lparr>w_header := f (w_header w)\<rparr>) wire_write_header wire_write)"

abbreviation run_rec :: "writer_op list \<Rightarrow> recorder \<Rightarrow> recorder" where
  "run_rec \<equiv> fold (apply_op rec_edit rec_write_header rec_write)"

context response_writer begin

lemma run_ops_wire:
  "list_all op_final ops \<Longrightarrow> ready w \<Longrightarrow>
     wire_of (fold (apply_op edit announce put_body) ops w) = run_wire ops (wire_of w) \<and>
     ready (fold (apply_op edit announce put_body) ops w)"
proof (induction ops arbitrary: w)
  case Nil
  then show ?case by simp
next
  case (Cons op ops)
  then have "ready (apply_op edit announce put_body op w)"
    by (cases op) (auto intro: ready_edit ready_announce ready_put_body)
  with Cons show ?case
    by (cases op) (auto simp: wire_edit wire_announce wire_put_body)
qed

end

text \<open>The server's own writer provides the interface.\<close>

interpretation wire_rw: response_writer
  "\<lambda>w. w" "\<lambda>f w. w\<lparr>w_header := f (w_header w)\<rparr>" wire_write_header wire_write "\<lambda>_. True"
  by unfold_locales simp_all

text \<open>
  The recorder provides it while its record of a sent status agrees with the wire's, which holds
  until an informational code is announced or \<open>abort\<close> is called.
\<close>

definition rec_ready :: "recorder \<Rightarrow> bool" where
  "rec_ready r \<longleftrightarrow>
     \<not> w_hijacked (rec_wire r) \<and>
     (rec_wrote r \<longleftrightarrow> w_wrote (rec_wire r)) \<and>
     (rec_wrote r \<longrightarrow> rec_status r = w_status (rec_wire r))"

lemma wire_write_header_final [wire]:
  "\<not> w_hijacked w \<Longrightarrow> \<not> w_wrote w \<Longrightarrow> valid_code c \<Longrightarrow> \<not> informational c \<Longrightarrow>
     w_wrote (wire_write_header c w) \<and> w_status (wire_write_header c w) = c \<and>
     \<not> w_hijacked (wire_write_header c w)"
  by (simp add: wire_write_header_def Let_def)

lemma wire_write_header_done [simp]: "w_wrote w \<Longrightarrow> wire_write_header c w = w"
  by (simp add: wire_write_header_def)

lemma wire_write_keeps [wire]:
  "w_wrote w \<Longrightarrow> w_wrote (wire_write b w) \<and> w_status (wire_write b w) = w_status w \<and>
     (w_hijacked (wire_write b w) \<longleftrightarrow> w_hijacked w)"
  by (auto simp: wire_write_def Let_def split: option.splits)

lemma rec_edit_wire [wire]:
  "rec_wire (rec_edit f r) = (rec_wire r)\<lparr>w_header := f (w_header (rec_wire r))\<rparr>"
  by (simp add: rec_edit_def rec_header_def)

lemma rec_ready_edit: "rec_ready r \<Longrightarrow> rec_ready (rec_edit f r)"
  by (simp add: rec_ready_def rec_edit_def)

lemma code_200 [simp]: "valid_code 200" "\<not> informational 200"
  by (simp_all add: valid_code_def informational_def)

lemma rec_ready_write_header:
  "rec_ready r \<Longrightarrow> valid_code c \<Longrightarrow> \<not> informational c \<Longrightarrow> rec_ready (rec_write_header c r)"
  using wire_write_header_final [of "rec_wire r" c]
  by (auto simp: rec_ready_def rec_write_header_def)

lemma wire_write_announced:
  "\<not> w_hijacked w \<Longrightarrow> \<not> w_wrote w \<Longrightarrow> wire_write b w = wire_write b (wire_write_header 200 w)"
  using wire_write_header_final [of w 200] by (simp add: wire_write_def Let_def)

lemma rec_write_wire: "rec_ready r \<Longrightarrow> rec_wire (rec_write b r) = wire_write b (rec_wire r)"
  by (auto simp: rec_write_def rec_write_header_def rec_ready_def Let_def
      wire_write_announced [of "rec_wire r"])

lemma rec_ready_write: "rec_ready r \<Longrightarrow> rec_ready (rec_write b r)"
  using wire_write_header_final [of "rec_wire r" 200]
    wire_write_keeps [of "rec_wire r" b] wire_write_keeps [of "wire_write_header 200 (rec_wire r)" b]
  by (auto simp: rec_write_def rec_write_header_def rec_ready_def Let_def)

interpretation rec_rw: response_writer rec_wire rec_edit rec_write_header rec_write rec_ready
proof unfold_locales
  fix w c assume "rec_ready w" "valid_code c" "\<not> informational c"
  then show "rec_wire (rec_write_header c w) = wire_write_header c (rec_wire w)"
    by (auto simp: rec_write_header_def rec_ready_def)
qed (simp_all add: rec_edit_wire rec_write_wire rec_ready_edit rec_ready_write_header rec_ready_write)

lemma rec_ready_new [simp]: "\<not> w_wrote w \<Longrightarrow> \<not> w_hijacked w \<Longrightarrow> rec_ready (new_recorder w cap)"
  by (simp add: rec_ready_def new_recorder_def)

section \<open>Properties\<close>

text \<open>
  C13: The recorder is transparent: over any calls whose announced statuses are valid and final, the
  wire behind it is in the state the same calls give the server's own writer, and the status it
  reports for logs and metrics is the one on the wire (200 before any).
\<close>
theorem recorder_transparent:
  assumes "list_all op_final ops" and "\<not> w_wrote w" and "\<not> w_hijacked w"
  shows "rec_wire (run_rec ops (new_recorder w cap)) = run_wire ops w \<and>
    rec_get_status (run_rec ops (new_recorder w cap)) =
      (if w_wrote (run_wire ops w) then w_status (run_wire ops w) else 200)"
proof -
  have "rec_wire (new_recorder w cap) = w"
    by (simp add: new_recorder_def)
  with rec_rw.run_ops_wire [OF assms(1) rec_ready_new [OF assms(2,3)], of cap]
  have "rec_wire (run_rec ops (new_recorder w cap)) = run_wire ops w \<and>
      rec_ready (run_rec ops (new_recorder w cap))"
    by simp
  then show ?thesis
    by (auto simp: rec_ready_def rec_get_status_def)
qed

theorem recorder_transparent_witness:
  "rec_get_status (run_rec [OpHeader 404, OpWrite ''gone''] (new_recorder fresh_wire 2)) = 404"
  using recorder_transparent [of "[OpHeader 404, OpWrite ''gone'']" fresh_wire 2]
  by (simp add: fresh_wire_def valid_code_def informational_def wire_write_header_def wire_write_def
      Let_def h_get_def h_values_def declared_length_def body_allowed_def)

fun op_bytes :: "writer_op \<Rightarrow> bytes" where
  "op_bytes (OpWrite b) = b"
| "op_bytes _ = []"

lemma rec_cap_keeps [simp]:
  "rec_cap (rec_edit f r) = rec_cap r" "rec_cap (rec_write_header c r) = rec_cap r"
  "rec_cap (rec_write b r) = rec_cap r"
  by (simp_all add: rec_edit_def rec_write_header_def rec_write_def Let_def)

lemma rec_body_keeps [simp]:
  "rec_body (rec_edit f r) = rec_body r" "rec_body (rec_write_header c r) = rec_body r"
  by (simp_all add: rec_edit_def rec_write_header_def)

lemma rec_body_write:
  assumes "is_i64 (rec_cap r)" "length (rec_body r) \<le> nat (rec_cap r)"
  shows "rec_body (rec_write b r) = take (nat (rec_cap r)) (rec_body r @ b)"
proof -
  have "is_i64 (rec_cap r - int (length (rec_body r)))"
    using assms by (auto simp: is_i64_def min_i64_def max_i64_def)
  then have rem: "i64 (rec_cap r - int (length (rec_body r))) = rec_cap r - int (length (rec_body r))"
    by (rule i64_id)
  show ?thesis
    using assms(2)
    by (auto simp: rec_write_def Let_def rem nat_diff_distrib' min_def)
qed

lemma run_rec_body:
  assumes "is_i64 (rec_cap r)" "length (rec_body r) \<le> nat (rec_cap r)"
  shows "rec_body (run_rec ops r) = take (nat (rec_cap r)) (rec_body r @ concat (map op_bytes ops))"
  using assms
proof (induction ops arbitrary: r)
  case Nil
  then show ?case by simp
next
  case (Cons op ops)
  show ?case
  proof (cases op)
    case (OpWrite b)
    have "length (rec_body (rec_write b r)) \<le> nat (rec_cap (rec_write b r))"
      using rec_body_write [OF Cons.prems, of b] by simp
    with Cons.IH [of "rec_write b r"] Cons.prems show ?thesis
      by (auto simp: OpWrite rec_body_write min_def)
  qed (use Cons in simp_all)
qed

text \<open>
  Bounded capture: after any calls, the captured body is the first \<open>cap\<close> bytes of everything
  that was written, and empty when the bound is zero or negative.
\<close>
theorem recorder_capture:
  assumes "is_i64 cap"
  shows "rec_body_bytes (run_rec ops (new_recorder w cap)) = take (nat cap) (concat (map op_bytes ops))"
  using run_rec_body [of "new_recorder w cap" ops] assms
  by (simp add: new_recorder_def rec_body_bytes_def)

theorem recorder_capture_witness:
  "rec_body_bytes (run_rec [OpWrite ''abc'', OpHeader 500, OpWrite ''def''] (new_recorder fresh_wire 4)) = ''abcd''"
  using recorder_capture [of 4 "[OpWrite ''abc'', OpHeader 500, OpWrite ''def'']" fresh_wire]
  by (simp add: is_i64_def min_i64_def max_i64_def)

text \<open>
  An informational code is not what the client gets: after \<open>WriteHeader\<close> with a 1xx code
  other than 101 and a write, the recorder reports that code while the response on the wire has
  status 200.
\<close>
theorem informational_status_diverges:
  assumes "informational code" and "\<not> w_wrote w" and "\<not> w_hijacked w"
  shows "rec_get_status (rec_write b (rec_write_header code (new_recorder w cap))) = code \<and>
    w_status (rec_wire (rec_write b (rec_write_header code (new_recorder w cap)))) = 200"
proof -
  have valid: "valid_code code" using assms(1) by (simp add: informational_def valid_code_def)
  have info: "wire_write_header code w = w\<lparr>w_info := w_info w @ [(code, w_header w)]\<rparr>"
    using assms valid by (simp add: wire_write_header_def)
  have "w_status (wire_write b (wire_write_header code w)) = 200"
    using wire_write_keeps [of "wire_write_header 200 (wire_write_header code w)" b]
      wire_write_header_final [of "wire_write_header code w" 200]
      wire_write_announced [of "wire_write_header code w" b] assms
    by (simp add: info)
  then show ?thesis
    by (simp add: rec_write_def rec_write_header_def new_recorder_def rec_get_status_def Let_def)
qed

theorem informational_status_diverges_witness:
  "rec_get_status (rec_write ''x'' (rec_write_header 103 (new_recorder fresh_wire 0))) = 103 \<and>
   w_status (rec_wire (rec_write ''x'' (rec_write_header 103 (new_recorder fresh_wire 0)))) = 200"
  by (rule informational_status_diverges) (simp_all add: informational_def fresh_wire_def)

end
