(* ===== verification/Verbose.thy ===== *)
theory Verbose
  imports GoHttp "HOL-Library.List_Lexorder" "HOL-Library.Char_ord"
begin

text \<open>
  \<open>internal/verbose/verbose.go\<close>: the curl-style trace of an exchange. An exchange collects its
  own text and the printer writes it out under a mutex; \<open>verbose_sys\<close> runs the calls
  of concurrent handlers in any order, with the acquisition of the mutex, each piece of the write and the
  release as steps of their own. The properties: the output is a sequence of whole blocks,
  no byte of a request or response can forge a line of the trace, and the bounded copy of a
  response body that the recorder keeps gives the same trace as the whole body.
\<close>

section \<open>Printer and exchanges\<close>

record printer =
  pr_mu :: bool
  pr_out :: bytes
  pr_max_body :: int
  pr_seq :: "64 word"

text \<open>\<open>pr_mu\<close> is whether the mutex is held; \<open>ex_max_body\<close> is the printer's \<open>maxBody\<close>, which no operation changes.\<close>

record exchange =
  ex_max_body :: int
  ex_id :: "64 word"
  ex_buf :: bytes
  ex_start :: int

record request_info =
  ri_remote_addr :: string
  ri_scheme :: string
  ri_proto :: string
  ri_tls_version :: string
  ri_sni :: string
  ri_method :: string
  ri_request_uri :: string
  ri_host :: string
  ri_header :: header
  ri_body :: bytes

definition new_printer :: "int \<Rightarrow> printer" where
  "new_printer max_body = \<lparr>pr_mu = False, pr_out = [], pr_max_body = max_body, pr_seq = 0\<rparr>"

definition start_exchange :: "int \<Rightarrow> printer \<Rightarrow> exchange \<times> printer" where
  "start_exchange now p =
     (let p' = p\<lparr>pr_seq := pr_seq p + 1\<rparr>
      in (\<lparr>ex_max_body = pr_max_body p, ex_id = pr_seq p', ex_buf = [], ex_start = now\<rparr>, p'))"

definition line :: "string \<Rightarrow> bytes" where
  "line s = s @ [CHR 0x0A]"

definition put :: "bytes \<Rightarrow> exchange \<Rightarrow> exchange" where
  "put b e = e\<lparr>ex_buf := ex_buf e @ b\<rparr>"

definition truncated_mark :: string where
  "truncated_mark = ''* [body truncated]''"

text \<open>Indexing the header map, as opposed to \<open>Values\<close>, which takes the canonical name.\<close>

definition h_raw :: "header \<Rightarrow> string \<Rightarrow> string list" where
  "h_raw h name = (case lookup h name of None \<Rightarrow> [] | Some vs \<Rightarrow> vs)"

definition header_lines :: "string \<Rightarrow> header \<Rightarrow> bytes" where
  "header_lines pfx h =
     concat (map (\<lambda>name.
         concat (map (\<lambda>v. line (pfx @ '' '' @ name @ '': '' @ v))
           (h_raw h name)))
       (sort (map fst h)))"

definition body_lines :: "int \<Rightarrow> string \<Rightarrow> bytes \<Rightarrow> bytes" where
  "body_lines max_body pfx body =
     (let truncated = (0 < max_body \<and> max_body < int (length body));
          body' = (if truncated then take (nat max_body) body else body)
      in (if 0 < length body'
          then concat (map (\<lambda>l. line (pfx @ '' '' @ trim_suffix l [CHR 0x0D])) (split_on (CHR 0x0A) body'))
          else [])
         @ (if truncated then line truncated_mark else []))"

definition section_text :: "int \<Rightarrow> string \<Rightarrow> string \<Rightarrow> string \<Rightarrow> header \<Rightarrow> bytes \<Rightarrow> bytes" where
  "section_text max_body pfx first host h body =
     line (pfx @ '' '' @ first)
     @ (if host \<noteq> [] then line (pfx @ '' Host: '' @ host) else [])
     @ header_lines pfx h
     @ line pfx
     @ body_lines max_body pfx body"

definition ex_section :: "string \<Rightarrow> string \<Rightarrow> string \<Rightarrow> header \<Rightarrow> bytes \<Rightarrow> exchange \<Rightarrow> exchange" where
  "ex_section pfx first host h body e = put (section_text (ex_max_body e) pfx first host h body) e"

definition ex_request :: "request_info \<Rightarrow> exchange \<Rightarrow> exchange" where
  "ex_request info e =
     (let conn = ri_scheme info @ '' ('' @ ri_proto info;
          conn = (if ri_tls_version info \<noteq> [] then conn @ '', '' @ ri_tls_version info else conn);
          conn = (if ri_sni info \<noteq> [] then conn @ '', SNI '' @ ri_sni info else conn);
          conn = conn @ '')'';
          e1 = put (line (''* Request #'' @ nat_dec (unat (ex_id e)) @ '': '' @ ri_remote_addr info
                 @ '' '' @ [CHR 0xE2, CHR 0x86, CHR 0x92] @ '' '' @ conn)) e
      in ex_section ''>'' (ri_method info @ '' '' @ ri_request_uri info @ '' '' @ ri_proto info)
           (ri_host info) (ri_header info) (ri_body info) e1)"

definition ex_forward :: "string \<Rightarrow> string \<Rightarrow> string \<Rightarrow> header \<Rightarrow> bytes \<Rightarrow> exchange \<Rightarrow> exchange" where
  "ex_forward target meth host h body e =
     ex_section ''>>'' (meth @ '' '' @ target) host h body (put (line (''* Forwarding to '' @ target)) e)"

definition ex_forward_response :: "string \<Rightarrow> string \<Rightarrow> header \<Rightarrow> bytes \<Rightarrow> exchange \<Rightarrow> exchange" where
  "ex_forward_response proto status h body e =
     ex_section ''<<'' (proto @ '' '' @ status) [] h body e"

definition ex_forward_error :: "string \<Rightarrow> exchange \<Rightarrow> exchange" where
  "ex_forward_error err e = put (line (''* Forward error: '' @ err)) e"

definition ex_web_socket_upgrade :: "exchange \<Rightarrow> exchange" where
  "ex_web_socket_upgrade e = put (line ''* WebSocket upgrade'') e"

definition ex_response :: "string \<Rightarrow> int \<Rightarrow> header \<Rightarrow> bytes \<Rightarrow> int \<Rightarrow> exchange \<Rightarrow> exchange" where
  "ex_response proto code h body now e =
     (let e1 = put (line (''* Response #'' @ nat_dec (unat (ex_id e)) @ '': '' @ itoa code
                 @ '' ('' @ itoa (millis (time_sub now (ex_start e))) @ ''ms)'')) e;
          status = trim_space (itoa code @ '' '' @ status_text code)
      in ex_section ''<'' (proto @ '' '' @ status) [] h body e1)"

text \<open>
  \<open>Flush\<close>: lock, write, unlock. On its own a request goes through them without waiting (\<open>flush_exchange\<close>); among
  concurrent ones they are separate steps (below).
\<close>

definition pr_lock :: "printer \<Rightarrow> printer" where
  "pr_lock p = p\<lparr>pr_mu := True\<rparr>"

definition pr_write :: "bytes \<Rightarrow> printer \<Rightarrow> printer" where
  "pr_write b p = p\<lparr>pr_out := pr_out p @ b\<rparr>"

definition pr_unlock :: "printer \<Rightarrow> printer" where
  "pr_unlock p = p\<lparr>pr_mu := False\<rparr>"

definition flush_exchange :: "exchange \<Rightarrow> printer \<Rightarrow> printer" where
  "flush_exchange e p = pr_unlock (pr_write (ex_buf e) (pr_lock p))"

lemma printer_simps [simp]:
  "pr_mu (pr_lock p)" "pr_out (pr_lock p) = pr_out p" "pr_seq (pr_lock p) = pr_seq p" "pr_max_body (pr_lock p) = pr_max_body p"
  "pr_mu (pr_write b p) = pr_mu p" "pr_out (pr_write b p) = pr_out p @ b" "pr_seq (pr_write b p) = pr_seq p"
  "pr_max_body (pr_write b p) = pr_max_body p"
  "\<not> pr_mu (pr_unlock p)" "pr_out (pr_unlock p) = pr_out p" "pr_seq (pr_unlock p) = pr_seq p" "pr_max_body (pr_unlock p) = pr_max_body p"
  by (simp_all add: pr_lock_def pr_write_def pr_unlock_def)

lemma pr_out_flush: "pr_out (flush_exchange e p) = pr_out p @ ex_buf e"
  by (simp add: flush_exchange_def)

section \<open>Concurrent handlers\<close>

datatype ex_op =
    ExRequest request_info
  | ExForward string string string header bytes
  | ExForwardResponse string string header bytes
  | ExForwardError string
  | ExWebSocketUpgrade
  | ExResponse string int header bytes int

fun apply_ex_op :: "ex_op \<Rightarrow> exchange \<Rightarrow> exchange" where
  "apply_ex_op (ExRequest i) e = ex_request i e"
| "apply_ex_op (ExForward t m ho h b) e = ex_forward t m ho h b e"
| "apply_ex_op (ExForwardResponse p s h b) e = ex_forward_response p s h b e"
| "apply_ex_op (ExForwardError err) e = ex_forward_error err e"
| "apply_ex_op ExWebSocketUpgrade e = ex_web_socket_upgrade e"
| "apply_ex_op (ExResponse p c h b now) e = ex_response p c h b now e"

text \<open>
  A step of one of the handlers (numbered): it starts its exchange, makes a call on it, or is in \<open>Flush\<close>: it gets the
  mutex if nobody has it (and else waits, which is no step), has the writer put out the next \<open>n\<close> bytes, and
  releases the mutex when everything is written. The sequence number is an atomic counter. \<open>vs_writing\<close> is what a handler
  inside \<open>Flush\<close> has yet to write.
\<close>

datatype v_event = VStart nat int | VCall nat ex_op | VLock nat | VWrite nat nat | VUnlock nat

record verbose_sys =
  vs_printer :: printer
  vs_live :: "nat \<Rightarrow> exchange option"
  vs_writing :: "nat \<Rightarrow> bytes option"

definition init_sys :: "int \<Rightarrow> verbose_sys" where
  "init_sys max_body = \<lparr>vs_printer = new_printer max_body, vs_live = (\<lambda>_. None), vs_writing = (\<lambda>_. None)\<rparr>"

fun v_step :: "v_event \<Rightarrow> verbose_sys \<Rightarrow> verbose_sys" where
  "v_step (VStart h now) s =
     (if vs_writing s h \<noteq> None then s
      else case start_exchange now (vs_printer s) of
        (e, p) \<Rightarrow> s\<lparr>vs_printer := p, vs_live := (vs_live s)(h := Some e)\<rparr>)"
| "v_step (VCall h op) s =
     (case vs_live s h of
        None \<Rightarrow> s
      | Some e \<Rightarrow> if vs_writing s h \<noteq> None then s else s\<lparr>vs_live := (vs_live s)(h := Some (apply_ex_op op e))\<rparr>)"
| "v_step (VLock h) s =
     (case vs_live s h of
        None \<Rightarrow> s
      | Some e \<Rightarrow>
          if pr_mu (vs_printer s) then s
          else s\<lparr>vs_printer := pr_lock (vs_printer s), vs_writing := (vs_writing s)(h := Some (ex_buf e))\<rparr>)"
| "v_step (VWrite h n) s =
     (case vs_writing s h of
        None \<Rightarrow> s
      | Some rest \<Rightarrow>
          s\<lparr>vs_printer := pr_write (take n rest) (vs_printer s), vs_writing := (vs_writing s)(h := Some (drop n rest))\<rparr>)"
| "v_step (VUnlock h) s =
     (case vs_writing s h of
        Some [] \<Rightarrow> s\<lparr>vs_printer := pr_unlock (vs_printer s), vs_writing := (vs_writing s)(h := None)\<rparr>
      | _ \<Rightarrow> s)"

definition v_run :: "v_event list \<Rightarrow> verbose_sys \<Rightarrow> verbose_sys" where
  "v_run evs s = fold v_step evs s"

text \<open>A flush that is not waited for nor interrupted is \<open>flush_exchange\<close>.\<close>

lemma flush_steps:
  assumes "vs_live s h = Some e" "\<not> pr_mu (vs_printer s)" "length (ex_buf e) \<le> n"
  shows "vs_printer (v_run [VLock h, VWrite h n, VUnlock h] s) = flush_exchange e (vs_printer s)"
  using assms by (simp add: v_run_def flush_exchange_def)

section \<open>The contract of the output\<close>

text \<open>The lines of a section, and of each call on exchange \<open>i\<close>, started at \<open>t\<close>.\<close>

definition section_lines :: "int \<Rightarrow> string \<Rightarrow> string \<Rightarrow> string \<Rightarrow> header \<Rightarrow> bytes \<Rightarrow> string list" where
  "section_lines max_body pfx first host h body =
     (let truncated = (0 < max_body \<and> max_body < int (length body));
          body' = (if truncated then take (nat max_body) body else body)
      in [pfx @ '' '' @ first]
       @ (if host \<noteq> [] then [pfx @ '' Host: '' @ host] else [])
       @ concat (map (\<lambda>name. map (\<lambda>v. pfx @ '' '' @ name @ '': '' @ v)
           (h_raw h name)) (sort (map fst h)))
       @ [pfx]
       @ (if 0 < length body'
          then map (\<lambda>l. pfx @ '' '' @ trim_suffix l [CHR 0x0D]) (split_on (CHR 0x0A) body') else [])
       @ (if truncated then [truncated_mark] else []))"

definition arrow :: string where
  "arrow = [CHR 0xE2, CHR 0x86, CHR 0x92]"

fun op_lines :: "int \<Rightarrow> nat \<Rightarrow> int \<Rightarrow> ex_op \<Rightarrow> string list" where
  "op_lines m i t (ExRequest info) =
     (''* Request #'' @ nat_dec (i mod 2 ^ 64) @ '': '' @ ri_remote_addr info @ '' '' @ arrow @ '' '' @ ri_scheme info @ '' (''
        @ join '', '' (ri_proto info # filter (\<lambda>s. s \<noteq> []) [ri_tls_version info, if ri_sni info = [] then [] else ''SNI '' @ ri_sni info])
        @ '')'')
     # section_lines m ''>'' (ri_method info @ '' '' @ ri_request_uri info @ '' '' @ ri_proto info)
         (ri_host info) (ri_header info) (ri_body info)"
| "op_lines m i t (ExForward target meth host h body) =
     (''* Forwarding to '' @ target) # section_lines m ''>>'' (meth @ '' '' @ target) host h body"
| "op_lines m i t (ExForwardResponse proto status h body) = section_lines m ''<<'' (proto @ '' '' @ status) [] h body"
| "op_lines m i t (ExForwardError err) = [''* Forward error: '' @ err]"
| "op_lines m i t ExWebSocketUpgrade = [''* WebSocket upgrade'']"
| "op_lines m i t (ExResponse proto code h body now) =
     (''* Response #'' @ nat_dec (i mod 2 ^ 64) @ '': '' @ itoa code @ '' ('' @ itoa (millis (time_sub now t)) @ ''ms)'')
     # section_lines m ''<'' (proto @ '' '' @ trim_space (itoa code @ '' '' @ status_text code)) [] h body"

text \<open>A block: the lines of the calls made on the exchange, in their order.\<close>

definition block :: "int \<Rightarrow> nat \<times> int \<times> ex_op list \<Rightarrow> bytes" where
  "block m c = (case c of (i, t, ops) \<Rightarrow> concat (map line (concat (map (op_lines m i t) ops))))"

text \<open>
  The log of the calls, which has no buffers, no mutex and no printer: the exchanges whose blocks are complete, and the one
  that is being written with the number of bytes that are out.
\<close>

record call_log =
  cl_count :: nat
  cl_live :: "nat \<Rightarrow> (nat \<times> int \<times> ex_op list) option"
  cl_done :: "(nat \<times> int \<times> ex_op list) list"
  cl_current :: "(nat \<times> (nat \<times> int \<times> ex_op list) \<times> nat) option"

definition empty_log :: call_log where
  "empty_log = \<lparr>cl_count = 0, cl_live = (\<lambda>_. None), cl_done = [], cl_current = None\<rparr>"

definition cl_busy :: "call_log \<Rightarrow> nat \<Rightarrow> bool" where
  "cl_busy l h \<longleftrightarrow> (case cl_current l of Some (g, _, _) \<Rightarrow> g = h | None \<Rightarrow> False)"

fun log_step :: "int \<Rightarrow> v_event \<Rightarrow> call_log \<Rightarrow> call_log" where
  "log_step m (VStart h now) l =
     (if cl_busy l h then l
      else l\<lparr>cl_count := Suc (cl_count l), cl_live := (cl_live l)(h := Some (Suc (cl_count l), now, []))\<rparr>)"
| "log_step m (VCall h op) l =
     (case cl_live l h of
        None \<Rightarrow> l
      | Some (i, t, ops) \<Rightarrow> if cl_busy l h then l else l\<lparr>cl_live := (cl_live l)(h := Some (i, t, ops @ [op]))\<rparr>)"
| "log_step m (VLock h) l =
     (case (cl_current l, cl_live l h) of (None, Some c) \<Rightarrow> l\<lparr>cl_current := Some (h, c, 0)\<rparr> | _ \<Rightarrow> l)"
| "log_step m (VWrite h n) l =
     (case cl_current l of
        Some (g, c, k) \<Rightarrow> if g = h then l\<lparr>cl_current := Some (g, c, k + n)\<rparr> else l
      | None \<Rightarrow> l)"
| "log_step m (VUnlock h) l =
     (case cl_current l of
        Some (g, c, k) \<Rightarrow>
          if g = h \<and> length (block m c) \<le> k then l\<lparr>cl_done := cl_done l @ [c], cl_current := None\<rparr> else l
      | None \<Rightarrow> l)"

lemma concat_map_line: "concat (map (\<lambda>x. concat (map (\<lambda>v. line (f x v)) (g x))) xs) =
    concat (map line (concat (map (\<lambda>x. map (f x) (g x)) xs)))"
  by (induction xs) (simp_all add: comp_def)

lemma section_text_lines:
  "section_text max_body pfx first host h body
     = concat (map line (section_lines max_body pfx first host h body))"
  unfolding section_text_def section_lines_def header_lines_def body_lines_def concat_map_line Let_def
  by (cases "host = []"; cases "0 < max_body"; cases "max_body < int (length body)") (auto simp: comp_def)

definition render :: "int \<Rightarrow> nat \<times> int \<times> ex_op list \<Rightarrow> exchange" where
  "render max_body c =
     (case c of (i, t, ops) \<Rightarrow>
        fold apply_ex_op ops \<lparr>ex_max_body = max_body, ex_id = of_nat i, ex_buf = [], ex_start = t\<rparr>)"

lemma apply_ex_op_lines:
  assumes "ex_id e = of_nat i"
  shows "apply_ex_op op e = put (concat (map line (op_lines (ex_max_body e) i (ex_start e) op))) e"
proof -
  have "unat (of_nat i :: 64 word) = i mod 2 ^ 64"
    by (simp add: unat_of_nat)
  with assms show ?thesis
    by (cases op) (simp_all add: ex_request_def ex_forward_def ex_forward_response_def ex_forward_error_def
        ex_web_socket_upgrade_def ex_response_def ex_section_def section_text_lines put_def line_def arrow_def Let_def)
qed

lemma fold_ops_lines:
  "ex_id e = of_nat i \<Longrightarrow>
     fold apply_ex_op ops e = put (concat (map line (concat (map (op_lines (ex_max_body e) i (ex_start e)) ops)))) e"
  by (induction ops arbitrary: e) (simp_all add: apply_ex_op_lines, simp_all add: put_def)

lemma render_block: "ex_buf (render m c) = block m c"
  by (cases c) (simp add: render_def block_def fold_ops_lines, simp add: put_def)

definition log_inv :: "int \<Rightarrow> verbose_sys \<Rightarrow> call_log \<Rightarrow> bool" where
  "log_inv m s l \<longleftrightarrow>
     pr_max_body (vs_printer s) = m \<and>
     pr_seq (vs_printer s) = of_nat (cl_count l) \<and>
     (\<forall>h. vs_live s h = map_option (render m) (cl_live l h)) \<and>
     (case cl_current l of
        None \<Rightarrow> \<not> pr_mu (vs_printer s) \<and> vs_writing s = (\<lambda>_. None) \<and>
          pr_out (vs_printer s) = concat (map (block m) (cl_done l))
      | Some (g, c, k) \<Rightarrow> pr_mu (vs_printer s) \<and> vs_writing s = (\<lambda>_. None)(g := Some (drop k (block m c))) \<and>
          pr_out (vs_printer s) = concat (map (block m) (cl_done l)) @ take k (block m c))"

lemma log_inv_busy: "log_inv m s l \<Longrightarrow> vs_writing s h \<noteq> None \<longleftrightarrow> cl_busy l h"
  by (auto simp: log_inv_def cl_busy_def split: option.splits if_splits)

lemma log_inv_step:
  assumes inv: "log_inv m s l"
  shows "log_inv m (v_step ev s) (log_step m ev l)"
proof (cases ev)
  case (VStart h now)
  with inv log_inv_busy [OF inv, of h] show ?thesis
    by (auto simp: log_inv_def start_exchange_def Let_def render_def add.commute split: option.splits)
next
  case (VCall h op)
  with inv log_inv_busy [OF inv, of h] show ?thesis
    by (cases "cl_live l h") (auto simp: log_inv_def render_def split: option.splits)
next
  case (VLock h)
  with inv show ?thesis
    by (cases "cl_live l h") (auto simp: log_inv_def render_block split: option.splits)
next
  case (VWrite h n)
  with inv show ?thesis
    by (auto simp: log_inv_def take_add drop_drop add.commute split: option.splits)
next
  case (VUnlock h)
  with inv show ?thesis
    by (auto simp: log_inv_def split: option.splits list.splits if_splits)
qed

lemma log_inv_run: "log_inv m s l \<Longrightarrow> log_inv m (v_run evs s) (fold (log_step m) evs l)"
  unfolding v_run_def
  by (induction evs arbitrary: s l) (auto intro: log_inv_step)

text \<open>
  C14: Atomic blocks: whatever the interleaving of the handlers, of their waits for the mutex and of the pieces in which
  the writer puts out a block, the output is at every moment the blocks of the exchanges flushed so far, whole and one
  after the other in the order in which they got the mutex, followed by a beginning of the one block that is being written, if
  the mutex is held; a block has the lines of that exchange's own calls, in their order, under its own number.
\<close>
theorem verbose_blocks_atomic:
  "let s = v_run evs (init_sys max_body); l = fold (log_step max_body) evs empty_log in
    pr_out (vs_printer s) = concat (map (block max_body) (cl_done l)) @
      (case cl_current l of None \<Rightarrow> [] | Some (_, c, k) \<Rightarrow> take k (block max_body c)) \<and>
    pr_mu (vs_printer s) = (cl_current l \<noteq> None)"
proof -
  have "log_inv max_body (init_sys max_body) empty_log"
    by (simp add: log_inv_def init_sys_def new_printer_def empty_log_def)
  from log_inv_run [OF this, of evs] show ?thesis
    unfolding Let_def by (auto simp: log_inv_def split: option.splits)
qed

text \<open>Two exchanges, the second of which flushes first while the first waits for the mutex.\<close>

definition contention :: "v_event list" where
  "contention =
     [VStart 0 5, VStart 1 6, VCall 0 (ExForwardError ''a''), VCall 1 ExWebSocketUpgrade, VLock 1, VWrite 1 7, VLock 0, VWrite 0 3,
      VUnlock 1, VWrite 1 100, VUnlock 1, VLock 0, VWrite 0 100, VUnlock 0]"

theorem verbose_blocks_atomic_witness:
  "pr_out (vs_printer (v_run contention (init_sys 9))) = ''* WebSocket upgrade'' @ [CHR 0x0A] @ ''* Forward error: a'' @ [CHR 0x0A]"
  using verbose_blocks_atomic [of contention 9]
  by (simp add: contention_def empty_log_def cl_busy_def block_def line_def Let_def)

section \<open>What a section of the trace can look like\<close>

lemma lines_split:
  "\<forall>l \<in> set ls. CHR 0x0A \<notin> set l \<Longrightarrow> split_on (CHR 0x0A) (concat (map line ls)) = ls @ [[]]"
  by (induction ls) (simp_all add: line_def split_on_append)

lemma set_trim_suffix: "set (trim_suffix s p) \<subseteq> set s"
  by (auto simp: trim_suffix_def dest: in_set_takeD)

text \<open>
  C30: No forged lines: when the first line, the host and the header names and values contain no
  line feed (Go's parsers reject one there), every line of a section starts with the section's
  prefix or is the truncation note, whatever bytes the body has.
\<close>
theorem section_lines_framed:
  assumes "CHR 0x0A \<notin> set pfx" "CHR 0x0A \<notin> set first" "CHR 0x0A \<notin> set host"
    and "\<forall>(name, vs) \<in> set h. CHR 0x0A \<notin> set name \<and> (\<forall>v \<in> set vs. CHR 0x0A \<notin> set v)"
    and "l \<in> set (butlast (split_on (CHR 0x0A) (section_text max_body pfx first host h body)))"
  shows "has_prefix l pfx \<or> l = truncated_mark"
proof -
  let ?ls = "section_lines max_body pfx first host h body"
  have vals: "CHR 0x0A \<notin> set v"
    if "v \<in> set (h_raw h name)" for name v
    using that assms(4) by (fastforce simp: h_raw_def split: option.splits dest: map_of_SomeD)
  have names: "CHR 0x0A \<notin> set name" if "(name, vs) \<in> set h" for name vs
    using that assms(4) by fastforce
  have body: "CHR 0x0A \<notin> set (trim_suffix p [CHR 0x0D])" if "p \<in> set (split_on (CHR 0x0A) b)" for p b
    using split_on_part [OF that] set_trim_suffix [of p "[CHR 0x0D]"] by auto
  have "\<forall>x \<in> set ?ls. CHR 0x0A \<notin> set x"
    using assms(1,2,3) names vals body
    by (auto simp: section_lines_def Let_def truncated_mark_def split: if_splits)
  then have "l \<in> set ?ls"
    using assms(5) by (simp add: section_text_lines lines_split)
  then show ?thesis
    by (auto simp: section_lines_def Let_def has_prefix_iff split: if_splits)
qed

theorem section_lines_framed_witness:
  "has_prefix ''< * Request #1'' ''<'' \<or> ''< * Request #1'' = truncated_mark"
  by (rule section_lines_framed [of "''<''" "''HTTP/1.1 200 OK''" "[]"
        "[(''X-A'', [''1''])]" "''< * Request #1''" 0 "CHR 0x0A # ''* Request #1''"])
    (simp_all add: section_text_def header_lines_def h_raw_def body_lines_def line_def trim_suffix_def has_suffix_def)

section \<open>The bounded copy of a body\<close>

lemma section_capture:
  assumes "0 < max_body"
  shows "section_text max_body pfx first host h (take (nat (max_body + 1)) body)
       = section_text max_body pfx first host h body"
proof -
  have "body_lines max_body pfx (take (nat (max_body + 1)) body) = body_lines max_body pfx body"
  proof (cases "max_body < int (length body)")
    case True
    with assms have "min (nat (max_body + 1)) (length body) = nat (max_body + 1)"
      and "min (nat max_body) (nat (max_body + 1)) = nat max_body"
      by auto
    with True assms show ?thesis
      by (simp add: body_lines_def Let_def)
  next
    case False
    then have "take (nat (max_body + 1)) body = body"
      by auto
    then show ?thesis by simp
  qed
  then show ?thesis
    by (simp add: section_text_def)
qed

text \<open>
  The bounded copy loses nothing: a dump of the first \<open>maxBody + 1\<close> bytes of a body, which is
  what the handler captures, is the dump of the whole body, the truncation note included.
\<close>
theorem capture_dump_same:
  assumes "0 < max_body"
  shows "section_text max_body pfx first host h (take (nat (max_body + 1)) body)
       = section_text max_body pfx first host h body"
  using assms by (rule section_capture)

theorem capture_dump_same_witness:
  "section_text 2 ''<'' ''a'' [] [] ''xyz'' = section_text 2 ''<'' ''a'' [] [] ''xyzuvw''"
  using capture_dump_same [of 2 "''<''" "''a''" "[]" "[]" "''xyzuvw''"] by simp

end
