(* ===== verification/Metrics.thy ===== *)
theory Metrics
  imports GoStrings
begin

text \<open>
  \<open>internal/metrics/metrics.go\<close>: which collectors are registered, under which label names, and
  the calls \<open>Observe\<close> makes on them. The Prometheus client is not part of the program; its
  documented condition is that \<open>With\<close> takes exactly the label names the vector was made with
  (and panics otherwise), and that registering two collectors of one name panics.
\<close>

record metrics_options =
  mo_with_method :: bool
  mo_with_status :: bool
  mo_with_path :: bool
  mo_metric_type :: string

text \<open>A summary's objectives are pairs of a quantile and its error, in thousandths.\<close>

datatype collector =
    GoCollector
  | ProcessCollector
  | CounterVec string "string list"
  | HistogramVec string "string list"
  | SummaryVec string "string list" "(nat \<times> nat) list"

record metrics =
  m_registry :: "collector list"
  m_requests :: collector
  m_summary :: "collector option"
  m_histo :: "collector option"
  m_opts :: metrics_options

type_synonym labels = "string gomap"

text \<open>The calls on the collectors; a duration is in nanoseconds.\<close>

datatype metric_call =
    CounterInc collector labels
  | Observation collector labels int

definition namespace :: string where
  "namespace = ''http_echo''"

definition metric_name :: "string \<Rightarrow> string" where
  "metric_name s = namespace @ ''_'' @ s"

definition label_names :: "metrics_options \<Rightarrow> string list" where
  "label_names opts =
     (if mo_with_method opts then [''method''] else [])
     @ (if mo_with_status opts then [''status''] else [])
     @ (if mo_with_path opts then [''path''] else [])"

definition new_metrics :: "metrics_options \<Rightarrow> metrics" where
  "new_metrics opts =
     (let names = label_names opts;
          base = [GoCollector, ProcessCollector];
          requests = CounterVec (metric_name ''requests_total'') names
      in if mo_metric_type opts = ''histogram'' then
           (let histo = HistogramVec (metric_name ''request_duration_seconds'') names
            in \<lparr>m_registry = base @ [requests, histo], m_requests = requests,
                m_summary = None, m_histo = Some histo, m_opts = opts\<rparr>)
         else
           (let summary = SummaryVec (metric_name ''request_duration_seconds'') names
                            [(500, 50), (900, 10), (990, 1)]
            in \<lparr>m_registry = base @ [requests, summary], m_requests = requests,
                m_summary = Some summary, m_histo = None, m_opts = opts\<rparr>))"

text \<open>\<open>Handler\<close>: the Prometheus client's page over the registry.\<close>

definition metrics_page :: "(collector list \<Rightarrow> 'a) \<Rightarrow> metrics \<Rightarrow> 'a" where
  "metrics_page page m = page (m_registry m)"

definition observe_labels :: "metrics_options \<Rightarrow> string \<Rightarrow> string \<Rightarrow> int \<Rightarrow> labels" where
  "observe_labels opts meth path status =
     (let l0 = [];
          l1 = (if mo_with_method opts then AList.update ''method'' meth l0 else l0);
          l2 = (if mo_with_status opts then AList.update ''status'' (itoa status) l1 else l1)
      in (if mo_with_path opts then AList.update ''path'' path l2 else l2))"

text \<open>\<open>Observe\<close>; \<open>None\<close> is the nil dereference when neither duration collector is set.\<close>

definition observe :: "metrics \<Rightarrow> string \<Rightarrow> string \<Rightarrow> int \<Rightarrow> int \<Rightarrow> metric_call list option" where
  "observe m meth path status duration =
     (let l = observe_labels (m_opts m) meth path status in
      case m_histo m of
        Some h \<Rightarrow> Some [CounterInc (m_requests m) l, Observation h l duration]
      | None \<Rightarrow>
          (case m_summary m of
             Some s \<Rightarrow> Some [CounterInc (m_requests m) l, Observation s l duration]
           | None \<Rightarrow> None))"

fun collector_labels :: "collector \<Rightarrow> string list" where
  "collector_labels (CounterVec _ ls) = ls"
| "collector_labels (HistogramVec _ ls) = ls"
| "collector_labels (SummaryVec _ ls _) = ls"
| "collector_labels _ = []"

fun call_ok :: "metrics \<Rightarrow> metric_call \<Rightarrow> bool" where
  "call_ok m (CounterInc c l) \<longleftrightarrow>
     c \<in> set (m_registry m) \<and> distinct (map fst l) \<and> set (map fst l) = set (collector_labels c)"
| "call_ok m (Observation c l d) \<longleftrightarrow>
     c \<in> set (m_registry m) \<and> distinct (map fst l) \<and> set (map fst l) = set (collector_labels c)"

text \<open>
  \<open>Observe\<close> never panics, whatever the options and the arguments: one of the two duration
  collectors is set, every collector it uses is registered, and the labels it passes are exactly
  the label names that collector was created with. It counts the request once and observes the
  duration once.
\<close>
theorem observe_consistent:
  "\<exists>c d l. observe (new_metrics opts) meth path status dur = Some [CounterInc c l, Observation d l dur]
      \<and> call_ok (new_metrics opts) (CounterInc c l) \<and> call_ok (new_metrics opts) (Observation d l dur)
      \<and> d = (if mo_metric_type opts = ''histogram''
             then HistogramVec ''http_echo_request_duration_seconds'' (label_names opts)
             else SummaryVec ''http_echo_request_duration_seconds'' (label_names opts)
                    [(500, 50), (900, 10), (990, 1)])"
  by (simp add: observe_def new_metrics_def observe_labels_def label_names_def Let_def
      metric_name_def namespace_def)

end
