(* ===== verification/Forward.thy ===== *)
theory Forward
  imports Proxies
begin

text \<open>
  \<open>internal/forward/forward.go\<close>: relaying a request to the configured target. The HTTP client
  and the URL parser behind \<open>http.NewRequest\<close> are arguments (\<open>fwd_env\<close>); everything
  the program does before and after their call is defined here.
  The properties: which headers cross the proxy, the forwarded address chain, the percent-encoding
  of the target path, and what the result of an exchange is.
\<close>

section \<open>The forwarder\<close>

definition hop_by_hop_headers :: "string list" where
  "hop_by_hop_headers =
     [''Connection'', ''Keep-Alive'', ''Proxy-Authenticate'', ''Proxy-Authorization'',
      ''Proxy-Connection'', ''Te'', ''Trailer'', ''Transfer-Encoding'', ''Upgrade'']"

record client_config =
  cl_disable_compression :: bool
  cl_insecure_skip_verify :: bool
  cl_timeout :: int
  cl_follow_redirects :: bool

record forwarder =
  f_target :: url
  f_client :: client_config
  f_preserve_host :: bool

record fwd_options =
  fo_target :: url
  fo_timeout :: int
  fo_skip_verify :: bool
  fo_preserve_host :: bool

definition new_forwarder :: "fwd_options \<Rightarrow> forwarder" where
  "new_forwarder opts =
     \<lparr>f_target = fo_target opts,
      f_client = \<lparr>cl_disable_compression = True, cl_insecure_skip_verify = fo_skip_verify opts,
                  cl_timeout = fo_timeout opts, cl_follow_redirects = False\<rparr>,
      f_preserve_host = fo_preserve_host opts\<rparr>"

record fwd_result =
  fr_url :: string
  fr_sent_header :: header
  fr_sent_host :: string
  fr_proto :: string
  fr_status :: string
  fr_code :: int
  fr_header :: header
  fr_body :: bytes
  fr_err :: "string option"

definition empty_result :: "string \<Rightarrow> fwd_result" where
  "empty_result u =
     \<lparr>fr_url = u, fr_sent_header = [], fr_sent_host = [], fr_proto = [], fr_status = [],
      fr_code = 0, fr_header = [], fr_body = [], fr_err = None\<rparr>"

text \<open>The request handed to the client, and the client's response with what reading its body gives.\<close>

record out_request =
  o_method :: string
  o_url :: url
  o_host :: string
  o_header :: header
  o_body :: bytes

record upstream =
  up_proto :: string
  up_status :: string
  up_code :: int
  up_header :: header
  up_body :: "string + bytes"

text \<open>
  \<open>fe_new_request\<close> is \<open>http.NewRequest\<close> as far as it may fail: the parsed URL of the
  text or an error. \<open>fe_do\<close> is the client's \<open>Do\<close>.
\<close>

record fwd_env =
  fe_new_request :: "string \<Rightarrow> string \<Rightarrow> string + url"
  fe_do :: "client_config \<Rightarrow> out_request \<Rightarrow> string + upstream"

definition join_path :: "string \<Rightarrow> string \<Rightarrow> string" where
  "join_path base path =
     (if base = [] \<or> base = ''/'' then path
      else if path = [] then base
      else trim_suffix base ''/'' @ ''/'' @ trim_prefix path ''/'')"

definition join_url_path :: "url \<Rightarrow> url \<Rightarrow> string \<times> string" where
  "join_url_path base req =
     (let path = join_path (u_path base) (u_path req) in
      if u_raw_path base = [] \<and> u_raw_path req = [] then (path, [])
      else (path, join_path (escaped_path base) (escaped_path req)))"

text \<open>The header names listed in the \<open>Connection\<close> lines.\<close>

definition connection_names :: "header \<Rightarrow> string list" where
  "connection_names h =
     filter (\<lambda>n. n \<noteq> []) (map trim_space (concat (map (split_on CHR '','') (h_values h ''Connection''))))"

definition relay_header :: "header \<Rightarrow> header" where
  "relay_header h =
     fold (\<lambda>n h. h_del h n) hop_by_hop_headers (fold (\<lambda>n h. h_del h n) (connection_names h) h)"

definition target_url :: "forwarder \<Rightarrow> url \<Rightarrow> url" where
  "target_url f req =
     (case join_url_path (f_target f) req of (path, raw) \<Rightarrow>
        (f_target f)\<lparr>u_path := path, u_raw_path := raw, u_raw_query := u_raw_query req\<rparr>)"

text \<open>The headers sent upstream: the relayed ones, then the three forwarding headers.\<close>

definition sent_header :: "request \<Rightarrow> string \<Rightarrow> string \<Rightarrow> header" where
  "sent_header r peer scheme =
     (let h0 = relay_header (r_header r);
          h1 = (if peer \<noteq> [] then h_set h0 ''X-Forwarded-For''
                  (join '', '' (h_values (r_header r) ''X-Forwarded-For'' @ [peer])) else h0);
          h2 = (if h_get h1 ''X-Forwarded-Proto'' = [] then h_set h1 ''X-Forwarded-Proto'' scheme else h1)
      in (if h_get h2 ''X-Forwarded-Host'' = [] then h_set h2 ''X-Forwarded-Host'' (r_host r) else h2))"

definition forward_do :: "fwd_env \<Rightarrow> forwarder \<Rightarrow> request \<Rightarrow> bytes \<Rightarrow> string \<Rightarrow> string \<Rightarrow> fwd_result" where
  "forward_do env f r body peer scheme =
     (let target = target_url f (r_url r); res = empty_result (url_string target) in
      case fe_new_request env (r_method r) (url_string target) of
        Inl e \<Rightarrow> res\<lparr>fr_err := Some e\<rparr>
      | Inr u \<Rightarrow>
          (let h = sent_header r peer scheme;
               host = (if f_preserve_host f then r_host r else u_host u);
               res1 = res\<lparr>fr_sent_header := h,
                          fr_sent_host := (if host = [] then u_host target else host)\<rparr>;
               out = \<lparr>o_method = (if r_method r = [] then ''GET'' else r_method r), o_url = u,
                      o_host = host, o_header = h, o_body = body\<rparr>
           in case fe_do env (f_client f) out of
                Inl e \<Rightarrow> res1\<lparr>fr_err := Some e\<rparr>
              | Inr resp \<Rightarrow>
                  (case up_body resp of
                     Inl e \<Rightarrow> res1\<lparr>fr_err := Some e\<rparr>
                   | Inr b \<Rightarrow>
                       res1\<lparr>fr_proto := up_proto resp, fr_status := up_status resp,
                            fr_code := up_code resp, fr_header := relay_header (up_header resp),
                            fr_body := b\<rparr>)))"

section \<open>Which headers cross the proxy\<close>

lemma canon_hop: "canon ` set hop_by_hop_headers = set hop_by_hop_headers"
  by (simp add: hop_by_hop_headers_def, code_simp)

lemma relay_header_lookup [hdr]:
  "lookup (relay_header h) k =
     (if k \<in> set hop_by_hop_headers \<union> canon ` set (connection_names h) then None else lookup h k)"
  unfolding relay_header_def hd_ops.look_del_all canon_hop by auto

lemma wf_map_relay: "wf_map h \<Longrightarrow> wf_map (relay_header h)"
proof -
  have "wf_map (fold (\<lambda>n h. h_del h n) ns h')" if "wf_map h'" for ns and h' :: header
    using that by (induction ns arbitrary: h') simp_all
  then show "wf_map h \<Longrightarrow> wf_map (relay_header h)"
    by (simp add: relay_header_def)
qed

text \<open>
  What the relay lets through of a header map, written out: the names of the specification (and \<open>Proxy-Connection\<close>), and the
  names in the \<open>Connection\<close> lines, are dropped.
\<close>

definition crossing :: "header \<Rightarrow> string \<Rightarrow> string list option" where
  "crossing h k =
     (if k = ''Connection'' \<or> k = ''Keep-Alive'' \<or> k = ''Proxy-Authenticate'' \<or> k = ''Proxy-Authorization'' \<or>
         k = ''Proxy-Connection'' \<or> k = ''Te'' \<or> k = ''Trailer'' \<or> k = ''Transfer-Encoding'' \<or> k = ''Upgrade'' \<or>
         (\<exists>v \<in> set (h_values h ''Connection''). \<exists>n \<in> set (split_on CHR '','' v).
            trim_space n \<noteq> [] \<and> k = canon (trim_space n))
      then None else lookup h k)"

definition first_value :: "string list option \<Rightarrow> string" where
  "first_value vs = (case vs of Some (v # _) \<Rightarrow> v | _ \<Rightarrow> [])"

lemma relay_crossing: "lookup (relay_header h) = crossing h"
proof
  fix k
  have "k \<in> canon ` set (connection_names h) \<longleftrightarrow>
     (\<exists>v \<in> set (h_values h ''Connection''). \<exists>n \<in> set (split_on CHR '','' v).
            trim_space n \<noteq> [] \<and> k = canon (trim_space n))"
    by (fastforce simp: connection_names_def)
  then show "lookup (relay_header h) k = crossing h k"
    by (simp add: relay_header_lookup crossing_def hop_by_hop_headers_def)
qed

lemma h_get_lookup: "h_get h k = first_value (lookup h (canon k))"
  by (simp add: h_get_def h_values_def first_value_def split: option.split list.split)

lemma canon_fwd [simp]:
  "canon ''X-Forwarded-For'' = ''X-Forwarded-For''"
  "canon ''X-Forwarded-Proto'' = ''X-Forwarded-Proto''"
  "canon ''X-Forwarded-Host'' = ''X-Forwarded-Host''"
  by code_simp+

lemma names_order:
  fixes k :: string
  shows "b \<noteq> a \<Longrightarrow> c \<noteq> a \<Longrightarrow> c \<noteq> b \<Longrightarrow>
     (if k = c \<and> p then x else if k = b \<and> q then y else if k = a \<and> r then z else w) =
     (if k = a \<and> r then z else if k = b \<and> q then y else if k = c \<and> p then x else w)"
  by auto

text \<open>
  C15: Which headers cross the proxy: a relayed response has exactly the headers that are neither one of the nine hop-by-hop names
  nor named by a \<open>Connection\<close> line, with their values in their order; a relayed request has these and, whatever its
  \<open>Connection\<close> lines name, one \<open>X-Forwarded-For\<close> line of all values received and the peer, and the listener's scheme
  and the request's host where the values that cross are missing or empty.
\<close>
theorem relay_header_exact:
  "lookup (relay_header h) = crossing h \<and>
   lookup (sent_header r peer scheme) k =
     (if k = ''X-Forwarded-For'' \<and> peer \<noteq> [] then Some [join '', '' (h_values (r_header r) ''X-Forwarded-For'' @ [peer])]
      else if k = ''X-Forwarded-Proto'' \<and> first_value (crossing (r_header r) k) = [] then Some [scheme]
      else if k = ''X-Forwarded-Host'' \<and> first_value (crossing (r_header r) k) = [] then Some [r_host r]
      else crossing (r_header r) k)"
proof
  show "lookup (relay_header h) = crossing h"
    by (rule relay_crossing)
  let ?c = "crossing (r_header r)"
  let ?h0 = "relay_header (r_header r)"
  define h1 where "h1 = (if peer \<noteq> []
    then h_set ?h0 ''X-Forwarded-For'' (join '', '' (h_values (r_header r) ''X-Forwarded-For'' @ [peer])) else ?h0)"
  define h2 where "h2 = (if h_get h1 ''X-Forwarded-Proto'' = [] then h_set h1 ''X-Forwarded-Proto'' scheme else h1)"
  have ne: "''X-Forwarded-Proto'' \<noteq> ''X-Forwarded-For''" "''X-Forwarded-Host'' \<noteq> ''X-Forwarded-For''"
    "''X-Forwarded-Host'' \<noteq> ''X-Forwarded-Proto''" by simp_all
  have 1: "lookup h1 n = (if n = ''X-Forwarded-For'' \<and> peer \<noteq> []
      then Some [join '', '' (h_values (r_header r) ''X-Forwarded-For'' @ [peer])] else ?c n)" for n
    unfolding h1_def by (cases "peer = []") (simp_all only: hd_ops.look_put canon_fwd relay_crossing if_True if_False simp_thms)
  have get1: "h_get h1 ''X-Forwarded-Proto'' = first_value (?c ''X-Forwarded-Proto'')"
    by (simp only: h_get_lookup canon_fwd 1 ne simp_thms if_False)
  have 2: "lookup h2 n = (if n = ''X-Forwarded-Proto'' \<and> first_value (?c n) = [] then Some [scheme] else lookup h1 n)" for n
    unfolding h2_def get1 by (cases "first_value (?c ''X-Forwarded-Proto'') = []") (auto simp: hd_ops.look_put)
  have get2: "h_get h2 ''X-Forwarded-Host'' = first_value (?c ''X-Forwarded-Host'')"
    by (simp only: h_get_lookup canon_fwd 1 2 ne simp_thms if_False)
  have "lookup (sent_header r peer scheme) k =
      (if k = ''X-Forwarded-Host'' \<and> first_value (?c k) = [] then Some [r_host r] else lookup h2 k)"
    unfolding sent_header_def Let_def h1_def [symmetric] h2_def [symmetric] get2
    by (cases "first_value (?c ''X-Forwarded-Host'') = []") (auto simp: hd_ops.look_put)
  then show "lookup (sent_header r peer scheme) k =
     (if k = ''X-Forwarded-For'' \<and> peer \<noteq> [] then Some [join '', '' (h_values (r_header r) ''X-Forwarded-For'' @ [peer])]
      else if k = ''X-Forwarded-Proto'' \<and> first_value (crossing (r_header r) k) = [] then Some [scheme]
      else if k = ''X-Forwarded-Host'' \<and> first_value (crossing (r_header r) k) = [] then Some [r_host r]
      else crossing (r_header r) k)"
    unfolding 2 1 by (simp only: names_order [OF ne])
qed

section \<open>The forwarded chain\<close>

lemma split_on_append_any: "split_on c (a @ c # s) = split_on c a @ split_on c s"
proof (induction a)
  case Nil
  then show ?case by simp
next
  case (Cons x a)
  obtain y ys where "split_on c a = y # ys"
    by (cases "split_on c a") simp_all
  with Cons show ?case by simp
qed

lemma trim_split_space:
  "map trim_space (split_on CHR '','' (CHR '' '' # s)) = map trim_space (split_on CHR '','' s)"
proof -
  obtain y ys where "split_on CHR '','' s = y # ys"
    by (cases "split_on CHR '','' s") simp_all
  then show ?thesis by simp
qed

lemma xff_chain_join: "vs \<noteq> [] \<Longrightarrow> xff_chain [join '', '' vs] = xff_chain vs"
proof (induction "'', '' :: string" vs rule: join.induct)
  case (3 x y ys)
  have "join '', '' (x # y # ys) = x @ CHR '','' # CHR '' '' # join '', '' (y # ys)"
    by simp
  then have "xff_chain [join '', '' (x # y # ys)] = xff_chain [x] @ xff_chain [join '', '' (y # ys)]"
    by (simp add: xff_chain_def split_on_append_any trim_split_space del: join.simps split_on.simps)
  also have "\<dots> = xff_chain ([x] @ (y # ys))"
    using 3 by (simp only: xff_chain_append) simp
  finally show ?case by simp
qed simp_all

lemma sent_header_xff:
  "peer \<noteq> [] \<Longrightarrow> h_values (sent_header r peer scheme) ''X-Forwarded-For''
      = [join '', '' (h_values (r_header r) ''X-Forwarded-For'' @ [peer])]"
  by (simp add: sent_header_def Let_def hdr)

text \<open>
  C16: The chain upstream: what a server that reads the forwarded \<open>X-Forwarded-For\<close> as this one
  does sees is the chain this server received with the direct peer appended, whatever
  the number of header lines and the \<open>Connection\<close> header.
\<close>
theorem forward_extends_chain:
  assumes "clean_hop peer"
  shows "xff_chain (h_values (sent_header r peer scheme) ''X-Forwarded-For'')
       = xff_chain (h_values (r_header r) ''X-Forwarded-For'') @ [peer]"
proof -
  have ne: "peer \<noteq> []" using assms by (auto simp: clean_hop_def)
  have "xff_chain [peer] = [peer]"
    using xff_chain_joined [of "[peer]"] assms by simp
  then show ?thesis
    using xff_chain_join by (simp add: sent_header_xff [OF ne])
qed

text \<open>
  The forwarding headers never carry less than the listener knows: the scheme and the host seen
  upstream are the client's own values when they cross the proxy and are not empty, and the
  listener's scheme and the request's host otherwise.
\<close>
theorem forward_origin_headers:
  "h_get (sent_header r peer scheme) ''X-Forwarded-Proto'' =
     (if h_get (relay_header (r_header r)) ''X-Forwarded-Proto'' = [] then scheme
      else h_get (relay_header (r_header r)) ''X-Forwarded-Proto'') \<and>
   h_get (sent_header r peer scheme) ''X-Forwarded-Host'' =
     (if h_get (relay_header (r_header r)) ''X-Forwarded-Host'' = [] then r_host r
      else h_get (relay_header (r_header r)) ''X-Forwarded-Host'')"
  by (simp add: sent_header_def Let_def hdr)

theorem forward_extends_chain_witness:
  "xff_chain (h_values (sent_header
      \<lparr>r_method = ''GET'', r_url = \<lparr>u_scheme = [], u_user = None, u_host = [], u_path = ''/'', u_raw_path = [],
         u_force_query = False, u_raw_query = [], u_fragment = []\<rparr>, r_proto = ''HTTP/1.1'',
       r_proto_major = 1, r_proto_minor = 1, r_host = ''h'',
       r_header = [(''X-Forwarded-For'', [''1.1.1.1, 2.2.2.2'', ''3.3.3.3'']), (''Connection'', [''x-forwarded-for''])],
       r_remote_addr = [], r_tls = None, r_body = [], r_body_err = None\<rparr> ''4.4.4.4'' ''http'')
     ''X-Forwarded-For'')
   = [''1.1.1.1'', ''2.2.2.2'', ''3.3.3.3'', ''4.4.4.4'']"
proof -
  have "xff_chain [''1.1.1.1, 2.2.2.2'', ''3.3.3.3''] = [''1.1.1.1'', ''2.2.2.2'', ''3.3.3.3'']"
    by code_simp
  moreover have "clean_hop ''4.4.4.4''"
    by code_simp
  ultimately show ?thesis
    by (subst forward_extends_chain) (simp_all add: h_values_def)
qed

section \<open>The target path\<close>

text \<open>
  What \<open>url.Parse\<close> leaves in the path fields: an encoded path only where it is a valid encoding of the path.
\<close>

definition parsed_path :: "url \<Rightarrow> bool" where
  "parsed_path u \<longleftrightarrow>
     u_path u \<noteq> ''*'' \<and>
     (u_raw_path u \<noteq> [] \<longrightarrow> valid_encoded (u_raw_path u) \<and> unescape EncPath (u_raw_path u) = Some (u_path u))"

lemma escaped_path_parsed:
  "parsed_path u \<Longrightarrow>
     escaped_path u = (if u_raw_path u = [] then escape EncPath (u_path u) else u_raw_path u)"
  by (auto simp: parsed_path_def escaped_path_def)

lemma valid_encoded_append [simp]: "valid_encoded (s @ t) \<longleftrightarrow> valid_encoded s \<and> valid_encoded t"
  by (simp add: valid_encoded_def)

lemma valid_encoded_escape: "valid_encoded (escape EncPath s)"
proof (induction s)
  case Nil
  then show ?case by (simp add: valid_encoded_def)
next
  case (Cons c s)
  have "\<not> should_escape EncPath (hex_digit n)" if "n < 16" for n
    using that by (auto simp: should_escape_def is_alnum_def hex_digit_def Let_def)
  moreover have "(of_char c :: nat) div 16 < 16"
    using of_char_256 [of c] by (simp add: less_mult_imp_div_less)
  ultimately show ?case
    using Cons by (simp add: valid_encoded_def)
qed

lemma escaped_path_ok:
  assumes "parsed_path u"
  shows "valid_encoded (escaped_path u) \<and> unescape EncPath (escaped_path u) = Some (u_path u)"
  using assms by (auto simp: escaped_path_parsed valid_encoded_escape unescape_escape parsed_path_def)

lemma unescape_append:
  "unescape m s = Some p \<Longrightarrow> unescape m t = Some q \<Longrightarrow> unescape m (s @ t) = Some (p @ q)"
proof (induction m s arbitrary: p rule: unescape.induct)
  case (1 m)
  then show ?case by simp
next
  case (2 m c cs)
  show ?case
  proof (cases "c = CHR ''%''")
    case True
    with "2.prems" obtain a b r x y p' where
      "cs = a # b # r" "unhex a = Some x" "unhex b = Some y" "unescape m r = Some p'" "p = char_of (16 * x + y) # p'"
      by (auto split: list.splits option.splits)
    with True "2.IH"(1) [OF True, of a "b # r" b r] "2.prems"(2) show ?thesis
      by simp
  next
    case False
    with 2 show ?thesis
      by (auto split: if_splits)
  qed
qed

lemma unescape_last_slash:
  "unescape m (s @ ''/'') = Some p \<Longrightarrow> \<exists>p'. unescape m s = Some p' \<and> p = p' @ ''/''"
proof (induction m s arbitrary: p rule: unescape.induct)
  case (1 m)
  then show ?case by simp
next
  case (2 m c cs)
  show ?case
  proof (cases "c = CHR ''%''")
    case True
    have slash: "unhex CHR ''/'' = None" by (simp add: unhex_def)
    show ?thesis
    proof (cases cs)
      case Nil
      with True "2.prems" show ?thesis by simp
    next
      case cs: (Cons a r)
      show ?thesis
      proof (cases r)
        case Nil
        with cs True "2.prems" slash show ?thesis
          by (auto split: option.splits)
      next
        case r: (Cons b r')
        with cs True "2.prems" obtain x y p1 where
          *: "unhex a = Some x" "unhex b = Some y" "unescape m (r' @ ''/'') = Some p1"
            "p = char_of (16 * x + y) # p1"
          by (auto split: option.splits)
        with "2.IH"(1) [OF True cs r refl *(1) *(2) *(3)] show ?thesis
          using True cs r by auto
      qed
    qed
  next
    case False
    with 2 show ?thesis
      by (fastforce split: if_splits)
  qed
qed

lemma has_suffix_snoc: "has_suffix s ''/'' \<Longrightarrow> \<exists>s'. s = s' @ ''/''"
  by (simp add: has_suffix_iff)

lemma escape_slash [simp]: "escape EncPath (s @ ''/'') = escape EncPath s @ ''/''"
  by (simp add: escape_append should_escape_def is_alnum_def)

text \<open>Joining two encoded paths encodes the joined path.\<close>

lemma join_path_encoded:
  assumes eb: "valid_encoded eb" "unescape EncPath eb = Some pb"
    and er: "valid_encoded (CHR ''/'' # er)" "unescape EncPath er = Some pr"
    and slash: "has_suffix pb ''/'' \<Longrightarrow> has_suffix eb ''/''"
  shows "valid_encoded (join_path eb (CHR ''/'' # er)) \<and>
    unescape EncPath (join_path eb (CHR ''/'' # er)) = Some (join_path pb (CHR ''/'' # pr))"
proof -
  have er': "unescape EncPath (CHR ''/'' # er) = Some (CHR ''/'' # pr)"
    using er(2) by simp
  have pre: "trim_prefix (CHR ''/'' # s) ''/'' = s" for s :: string
    using trim_prefix_append [of "''/''" s] by simp
  have vr: "valid_encoded er" using er(1) by (simp add: valid_encoded_def)
  have vs: "valid_encoded ''/''" by (simp add: valid_encoded_def should_escape_def is_alnum_def)
  show ?thesis
  proof (cases "has_suffix eb ''/''")
    case True
    then obtain e where e: "eb = e @ ''/''" using has_suffix_snoc by blast
    from unescape_last_slash [of EncPath e pb] eb(2) obtain p where
      p: "unescape EncPath e = Some p" "pb = p @ ''/''" by (auto simp: e)
    have ve: "valid_encoded e" using eb(1) by (simp add: e)
    show ?thesis
    proof (cases "e = []")
      case True
      with p er(1) er' e show ?thesis by (simp add: join_path_def)
    next
      case False
      with p(1) have ne: "p \<noteq> []"
        by (cases e) (auto split: if_splits list.splits option.splits)
      have "unescape EncPath (e @ CHR ''/'' # er) = Some (p @ CHR ''/'' # pr)"
        by (rule unescape_append [OF p(1) er'])
      then show ?thesis
        using False ne ve vr vs trim_suffix_append [of e "''/''"] trim_suffix_append [of p "''/''"]
          valid_encoded_append [of e "''/'' @ er"] valid_encoded_append [of "''/''" er]
        by (simp add: join_path_def e p(2) pre)
    qed
  next
    case False
    with slash have nb: "\<not> has_suffix pb ''/''" by blast
    have triv: "eb \<noteq> ''/''" "pb \<noteq> ''/''"
      using False nb by (auto simp: has_suffix_def)
    have nil: "eb = [] \<longleftrightarrow> pb = []"
      using eb(2) by (cases eb) (auto split: if_splits list.splits option.splits)
    show ?thesis
    proof (cases "eb = []")
      case True
      with er(1) er' nil show ?thesis by (simp add: join_path_def)
    next
      case ne: False
      have "unescape EncPath (eb @ CHR ''/'' # er) = Some (pb @ CHR ''/'' # pr)"
        by (rule unescape_append [OF eb(2) er'])
      then show ?thesis
        using ne nil triv eb(1) vr vs valid_encoded_append [of eb "''/'' @ er"] valid_encoded_append [of "''/''" er]
        by (simp add: join_path_def pre trim_suffix_other [OF False] trim_suffix_other [OF nb])
    qed
  qed
qed

lemma escape_join_path:
  "escape EncPath (join_path pb (CHR ''/'' # pr)) = join_path (escape EncPath pb) (escape EncPath (CHR ''/'' # pr))"
proof -
  have sl: "escape EncPath (CHR ''/'' # s) = CHR ''/'' # escape EncPath s" for s
    by (simp add: should_escape_def is_alnum_def)
  have pre: "trim_prefix (CHR ''/'' # s) ''/'' = s" for s :: string
    using trim_prefix_append [of "''/''" s] by simp
  have nil: "escape EncPath s = [] \<longleftrightarrow> s = []" for s
    by (cases s) auto
  have ns: "\<not> should_escape EncPath CHR ''/''"
    by (simp add: should_escape_def is_alnum_def)
  show ?thesis
  proof (cases "has_suffix pb ''/''")
    case True
    then obtain p where p: "pb = p @ ''/''" using has_suffix_snoc by blast
    show ?thesis
      using trim_suffix_append [of p "''/''"] trim_suffix_append [of "escape EncPath p" "''/''"]
      by (simp add: join_path_def p sl pre nil ns escape_append)
  next
    case False
    then have "\<not> has_suffix (escape EncPath pb) ''/''"
      using has_suffix_snoc [of "escape EncPath pb"] unescape_last_slash [of EncPath _ pb]
        unescape_escape [of EncPath pb] by (metis has_suffix_iff)
    moreover from this False have "pb \<noteq> ''/''" "escape EncPath pb \<noteq> ''/''"
      by (auto simp: has_suffix_def)
    ultimately show ?thesis
      using False by (simp add: join_path_def sl pre nil ns escape_append trim_suffix_other)
  qed
qed

lemma join_path_not_star: "join_path pb (CHR ''/'' # pr) \<noteq> ''*''"
proof
  assume "join_path pb (CHR ''/'' # pr) = ''*''"
  then have "CHR ''/'' \<in> set ''*''"
    by (auto simp: join_path_def split: if_splits
        dest: arg_cong [of _ _ set])
  then show False by simp
qed

text \<open>
  Percent-encoding survives the join: the encoded path of the effective URL is the join of the
  encoded base path and the encoded request path, byte for byte, so an escaped slash in a request
  reaches the target escaped. It needs a base path that does not end in an escaped slash.
\<close>
theorem target_keeps_encoding:
  assumes "parsed_path (f_target f)" and "parsed_path req"
    and "escaped_path req = CHR ''/'' # rest"
    and "has_suffix (u_path (f_target f)) ''/'' \<Longrightarrow> has_suffix (escaped_path (f_target f)) ''/''"
  shows "escaped_path (target_url f req) = join_path (escaped_path (f_target f)) (escaped_path req)"
proof -
  let ?b = "f_target f"
  have eb: "valid_encoded (escaped_path ?b)" "unescape EncPath (escaped_path ?b) = Some (u_path ?b)"
    using escaped_path_ok [OF assms(1)] by auto
  have er: "valid_encoded (CHR ''/'' # rest)" "unescape EncPath (CHR ''/'' # rest) = Some (u_path req)"
    using escaped_path_ok [OF assms(2)] assms(3) by auto
  then obtain pr where pr: "unescape EncPath rest = Some pr" "u_path req = CHR ''/'' # pr"
    by auto
  show ?thesis
  proof (cases "u_raw_path ?b = [] \<and> u_raw_path req = []")
    case True
    have "escaped_path (target_url f req) = escape EncPath (join_path (u_path ?b) (u_path req))"
      using True join_path_not_star [of "u_path ?b" pr] pr(2)
      by (simp add: target_url_def join_url_path_def Let_def escaped_path_def)
    with True show ?thesis
      using escaped_path_parsed [OF assms(1)] escaped_path_parsed [OF assms(2)] pr(2)
        escape_join_path [of "u_path ?b" pr] by simp
  next
    case False
    let ?j = "join_path (escaped_path ?b) (CHR ''/'' # rest)"
    from join_path_encoded [OF eb er(1) pr(1) assms(4)]
    have ok: "valid_encoded ?j" "unescape EncPath ?j = Some (join_path (u_path ?b) (u_path req))"
      by (simp_all add: pr(2))
    then have "?j \<noteq> []"
      using join_path_not_star [of "u_path ?b" pr] by (auto simp: join_path_def)
    with ok False show ?thesis
      by (auto simp: target_url_def join_url_path_def Let_def escaped_path_def [of "_\<lparr>u_path := _, u_raw_path := _, u_raw_query := _\<rparr>"] assms(3))
  qed
qed

definition plain_forwarder :: "string \<Rightarrow> string \<Rightarrow> forwarder" where
  "plain_forwarder path raw =
     new_forwarder \<lparr>fo_target = plain_url path raw, fo_timeout = 0, fo_skip_verify = False,
       fo_preserve_host = False\<rparr>"

theorem target_keeps_encoding_witness:
  "escaped_path (target_url (plain_forwarder ''/api/'' []) (plain_url ''/x/y'' ''/x%2Fy'')) = ''/api/x%2Fy''"
proof -
  have "parsed_path (f_target (plain_forwarder ''/api/'' []))"
    by code_simp
  moreover have "parsed_path (plain_url ''/x/y'' ''/x%2Fy'')"
    by code_simp
  moreover have "escaped_path (plain_url ''/x/y'' ''/x%2Fy'') = CHR ''/'' # ''x%2Fy''"
    by code_simp
  moreover have "has_suffix (escaped_path (f_target (plain_forwarder ''/api/'' []))) ''/''"
    by code_simp
  ultimately have "escaped_path (target_url (plain_forwarder ''/api/'' []) (plain_url ''/x/y'' ''/x%2Fy''))
      = join_path (escaped_path (f_target (plain_forwarder ''/api/'' []))) (escaped_path (plain_url ''/x/y'' ''/x%2Fy''))"
    by (intro target_keeps_encoding)
  also have "\<dots> = ''/api/x%2Fy''"
    by code_simp
  finally show ?thesis .
qed

text \<open>
  Without that condition the encoding is lost: with a base path ending in an escaped slash, the
  escaped slashes of the base and of the request both reach the target unescaped.
\<close>
theorem target_loses_encoding:
  "escaped_path (target_url (plain_forwarder ''/a/'' ''/a%2F'') (plain_url ''/x/y'' ''/x%2Fy'')) = ''/a/x/y''"
  by code_simp

section \<open>The result of an exchange\<close>

text \<open>
  The response relayed: without an error the result has the upstream's status, code and whole
  body and its headers that may cross the proxy; an error of the request, the exchange or the
  reading of the body is reported and then no status, header or body is.
\<close>
theorem forward_result:
  "let res = forward_do env f r body peer scheme in
    (case fr_err res of
      None \<Rightarrow> (\<exists>u out resp. fe_new_request env (r_method r) (fr_url res) = Inr u
          \<and> fe_do env (f_client f) out = Inr resp \<and> up_body resp = Inr (fr_body res)
          \<and> o_url out = u \<and> o_body out = body \<and> o_header out = sent_header r peer scheme
          \<and> fr_code res = up_code resp \<and> fr_status res = up_status resp \<and> fr_proto res = up_proto resp
          \<and> fr_header res = relay_header (up_header resp) \<and> fr_sent_header res = sent_header r peer scheme)
    | Some e \<Rightarrow> fr_code res = 0 \<and> fr_status res = [] \<and> fr_header res = [] \<and> fr_body res = [])"
proof -
  define t where "t = url_string (target_url f (r_url r))"
  define out where "out u = \<lparr>o_method = (if r_method r = [] then ''GET'' else r_method r), o_url = u,
     o_host = (if f_preserve_host f then r_host r else u_host u),
     o_header = sent_header r peer scheme, o_body = body\<rparr>" for u
  note unf = forward_do_def Let_def t_def [symmetric] out_def [symmetric] empty_result_def
  show ?thesis
  proof (cases "fe_new_request env (r_method r) t")
    case (Inl e)
    then show ?thesis by (simp add: unf)
  next
    case u: (Inr u)
    show ?thesis
    proof (cases "fe_do env (f_client f) (out u)")
      case (Inl e)
      with u show ?thesis by (simp add: unf)
    next
      case resp: (Inr resp)
      show ?thesis
      proof (cases "up_body resp")
        case (Inl e)
        with u resp show ?thesis by (simp add: unf)
      next
        case (Inr b)
        have "o_url (out u) = u \<and> o_body (out u) = body \<and> o_header (out u) = sent_header r peer scheme"
          by (simp add: out_def)
        with u resp Inr show ?thesis
          by (simp add: unf) (intro exI [of _ "out u"] exI [of _ resp]; simp)
      qed
    qed
  qed
qed

end
