(* ===== verification/Jwt.thy ===== *)
theory Jwt
  imports GoHttp
begin

text \<open>
  \<open>internal/echo/jwt.go\<close>: decoding a token without verifying it, with the base64 of
  \<open>encoding/base64\<close> it uses (both alphabets, the cookies use the other one).
  A decoded JSON value is the datatype \<open>json\<close>; the JSON parser is an argument. The property:
  every token, with or without the Bearer scheme and whatever its signature, is decoded to its
  header and payload.
\<close>

section \<open>JSON values\<close>

text \<open>A number is kept as the text Go prints for its \<open>float64\<close>. An object's members are in the order they are printed in.\<close>

datatype json =
    JNull
  | JBool bool
  | JNum string
  | JStr string
  | JArr "json list"
  | JObj "(string \<times> json) list"

type_synonym unmarshal = "bytes \<Rightarrow> json option"

section \<open>Base64\<close>

datatype b64_alphabet = B64Std | B64Url

definition b64_char :: "b64_alphabet \<Rightarrow> nat \<Rightarrow> char" where
  "b64_char a n =
     (if n < 26 then char_of (65 + n)
      else if n < 52 then char_of (71 + n)
      else if n < 62 then char_of (n - 4)
      else if n = 62 then (case a of B64Std \<Rightarrow> CHR ''+'' | B64Url \<Rightarrow> CHR ''-'')
      else (case a of B64Std \<Rightarrow> CHR ''/'' | B64Url \<Rightarrow> CHR ''_''))"

definition b64_val :: "b64_alphabet \<Rightarrow> char \<Rightarrow> nat option" where
  "b64_val a c =
     (let n = of_char c :: nat in
      if 65 \<le> n \<and> n \<le> 90 then Some (n - 65)
      else if 97 \<le> n \<and> n \<le> 122 then Some (n - 71)
      else if 48 \<le> n \<and> n \<le> 57 then Some (n + 4)
      else if c = (case a of B64Std \<Rightarrow> CHR ''+'' | B64Url \<Rightarrow> CHR ''-'') then Some 62
      else if c = (case a of B64Std \<Rightarrow> CHR ''/'' | B64Url \<Rightarrow> CHR ''_'') then Some 63
      else None)"

text \<open>Encoding without padding, and the padded form.\<close>

fun b64_encode :: "b64_alphabet \<Rightarrow> bytes \<Rightarrow> string" where
  "b64_encode al [] = []"
| "b64_encode al [a] =
     [b64_char al (of_char a div 4), b64_char al (of_char a mod 4 * 16)]"
| "b64_encode al [a, b] =
     [b64_char al (of_char a div 4), b64_char al (of_char a mod 4 * 16 + of_char b div 16),
      b64_char al (of_char b mod 16 * 4)]"
| "b64_encode al (a # b # c # r) =
     b64_char al (of_char a div 4) # b64_char al (of_char a mod 4 * 16 + of_char b div 16)
     # b64_char al (of_char b mod 16 * 4 + of_char c div 64) # b64_char al (of_char c mod 64)
     # b64_encode al r"

definition b64_encode_padded :: "b64_alphabet \<Rightarrow> bytes \<Rightarrow> string" where
  "b64_encode_padded al bs =
     b64_encode al bs @ (if length bs mod 3 = 1 then ''=='' else if length bs mod 3 = 2 then ''='' else [])"

text \<open>Decoding without padding: a lone last digit is an error, unused low bits are ignored, line breaks are skipped.\<close>

fun b64_quads :: "nat list \<Rightarrow> bytes option" where
  "b64_quads [] = Some []"
| "b64_quads [x] = None"
| "b64_quads [x, y] = Some [char_of (x * 4 + y div 16)]"
| "b64_quads [x, y, z] = Some [char_of (x * 4 + y div 16), char_of (y mod 16 * 16 + z div 4)]"
| "b64_quads (x # y # z # w # r) =
     map_option (\<lambda>bs. char_of (x * 4 + y div 16) # char_of (y mod 16 * 16 + z div 4)
        # char_of (z mod 4 * 64 + w) # bs) (b64_quads r)"

definition b64_decode :: "b64_alphabet \<Rightarrow> string \<Rightarrow> bytes option" where
  "b64_decode al s =
     (let cs = filter (\<lambda>c. c \<noteq> CHR 0x0A \<and> c \<noteq> CHR 0x0D) s in
      if list_all (\<lambda>c. b64_val al c \<noteq> None) cs then b64_quads (map (\<lambda>c. the (b64_val al c)) cs) else None)"

section \<open>Tokens\<close>

record jwt =
  j_header :: json
  j_payload :: json

definition cut_prefix_fold :: "string \<Rightarrow> string \<Rightarrow> string \<times> bool" where
  "cut_prefix_fold s p =
     (if length p \<le> length s \<and> equal_fold (take (length p) s) p then (drop (length p) s, True)
      else (s, False))"

text \<open>Go's nil, which a JSON \<open>null\<close> is also decoded to, is \<open>JNull\<close>.\<close>

definition decode_segment :: "unmarshal \<Rightarrow> string \<Rightarrow> json" where
  "decode_segment unm seg =
     (case b64_decode B64Url (trim_right_set seg {CHR ''=''}) of
        None \<Rightarrow> JNull
      | Some raw \<Rightarrow> (case unm raw of None \<Rightarrow> JNull | Some v \<Rightarrow> v))"

definition decode_jwt :: "unmarshal \<Rightarrow> string \<Rightarrow> jwt option" where
  "decode_jwt unm value0 =
     (let v1 = trim_space value0;
          v2 = (case cut_prefix_fold v1 ''bearer '' of (rest, ok) \<Rightarrow> if ok then trim_space rest else v1)
      in if v2 = [] then None
         else
           (let parts = split_on CHR ''.'' v2 in
            if length parts < 2 then None
            else
              (let h = decode_segment unm (parts ! 0); p = decode_segment unm (parts ! 1)
               in if h = JNull \<or> p = JNull then None else Some \<lparr>j_header = h, j_payload = p\<rparr>)))"

section \<open>Base64 round trip\<close>

lemma b64_val_char: "n < 64 \<Longrightarrow> b64_val al (b64_char al n) = Some n"
  by (cases al) (auto simp: b64_val_def b64_char_def Let_def)

definition b64_byte :: "char \<Rightarrow> bool" where
  "b64_byte c \<longleftrightarrow> is_alnum c \<or> c \<in> set ''-_+/''"

lemma b64_char_byte: "n < 64 \<Longrightarrow> b64_byte (b64_char al n)"
  by (cases al) (auto simp: b64_byte_def b64_char_def is_alnum_def Let_def)

lemma b64_digits:
  "(of_char a :: nat) div 4 < 64" "(of_char a :: nat) mod 4 * 16 < 64"
  "(of_char a :: nat) mod 4 * 16 + of_char b div 16 < 64" "(of_char b :: nat) mod 16 * 4 < 64"
  "(of_char b :: nat) mod 16 * 4 + of_char c div 64 < 64" "(of_char c :: nat) mod 64 < 64"
  using of_char_256 [of a] of_char_256 [of b] of_char_256 [of c] by linarith+

lemma b64_encode_bytes: "c \<in> set (b64_encode al bs) \<Longrightarrow> b64_byte c"
  by (induction al bs rule: b64_encode.induct) (auto intro: b64_char_byte b64_digits)

lemma b64_encode_not_Nil: "bs \<noteq> [] \<Longrightarrow> b64_encode al bs \<noteq> []"
  by (cases "(al, bs)" rule: b64_encode.cases) auto

lemma byte_high:
  "(of_char b :: nat) div 16 div 16 = 0" "(of_char b :: nat) div 16 mod 16 = of_char b div 16"
  "(of_char b :: nat) div 64 div 4 = 0" "(of_char b :: nat) div 64 mod 4 = of_char b div 64"
  using of_char_256 [of b] by (simp_all add: div_mult2_eq [symmetric] less_mult_imp_div_less)

lemma b64_quads_encode:
  "b64_quads (map (\<lambda>c. the (b64_val al c)) (b64_encode al bs)) = Some bs"
  by (induction al bs rule: b64_encode.induct)
    (simp_all add: b64_val_char b64_digits byte_high)

lemma b64_decode_encode: "b64_decode al (b64_encode al bs) = Some bs"
proof -
  have "filter (\<lambda>c. c \<noteq> CHR 0x0A \<and> c \<noteq> CHR 0x0D) (b64_encode al bs) = b64_encode al bs"
    by (rule filter_True) (auto dest!: b64_encode_bytes simp: b64_byte_def is_alnum_def)
  moreover have "list_all (\<lambda>c. b64_val al c \<noteq> None) (b64_encode al bs)"
    by (induction al bs rule: b64_encode.induct) (simp_all add: b64_val_char b64_digits)
  ultimately show ?thesis
    by (simp add: b64_decode_def b64_quads_encode)
qed

section \<open>Properties\<close>

definition graphic :: "char \<Rightarrow> bool" where
  "graphic c \<longleftrightarrow> 33 \<le> (of_char c :: nat) \<and> (of_char c :: nat) < 127"

lemma strip_runes_graphic:
  assumes "s \<noteq> []" "graphic (hd s)" "\<forall>p \<in> set ps. p \<noteq> [] \<and> \<not> graphic (hd p)"
  shows "strip_runes ps s = s"
proof (rule strip_runes_none, rule ballI)
  fix p assume "p \<in> set ps"
  with assms show "p = [] \<or> \<not> has_prefix s p"
    by (cases s; cases p) (auto simp: has_prefix_def)
qed

lemma space_runes_ends:
  "\<forall>p \<in> set space_runes. p \<noteq> [] \<and> \<not> graphic (hd p)"
  "\<forall>p \<in> set (map rev space_runes). p \<noteq> [] \<and> \<not> graphic (hd p)"
  by (simp_all add: space_runes_def graphic_def)

lemma trim_space_ends:
  "s \<noteq> [] \<Longrightarrow> graphic (hd s) \<Longrightarrow> graphic (last s) \<Longrightarrow> trim_space s = s"
  by (simp add: trim_space_def strip_runes_graphic [OF _ _ space_runes_ends(1)]
      strip_runes_graphic [OF _ _ space_runes_ends(2)] hd_rev)

text \<open>A token in compact form: the two encoded segments and whatever follows them.\<close>

definition jwt_text :: "bytes \<Rightarrow> bytes \<Rightarrow> string \<Rightarrow> string" where
  "jwt_text h p sig = b64_encode B64Url h @ ''.'' @ b64_encode B64Url p @ (if sig = [] then [] else ''.'' @ sig)"

lemma b64_graphic: "b64_byte c \<Longrightarrow> graphic c"
  by (auto simp: b64_byte_def graphic_def is_alnum_def Let_def)

lemma b64_no_dot: "CHR ''.'' \<notin> set (b64_encode al bs)"
  by (auto dest!: b64_encode_bytes simp: b64_byte_def is_alnum_def)

lemma trim_right_b64: "trim_right_set (b64_encode al bs) {CHR ''=''} = b64_encode al bs"
proof (cases "b64_encode al bs" rule: rev_cases)
  case Nil
  then show ?thesis by (simp add: trim_right_set_def)
next
  case (snoc ys y)
  then have "b64_byte y" using b64_encode_bytes [of y al bs] by simp
  then have "y \<noteq> CHR ''=''" by (auto simp: b64_byte_def is_alnum_def)
  with snoc show ?thesis by (simp add: trim_right_set_def)
qed

lemma decode_segment_encode:
  "unm bs = Some v \<Longrightarrow> decode_segment unm (b64_encode B64Url bs) = v"
  by (simp add: decode_segment_def trim_right_b64 b64_decode_encode)

lemma jwt_text_parts:
  "\<exists>more. split_on CHR ''.'' (jwt_text h p sig) = b64_encode B64Url h # b64_encode B64Url p # more"
  by (simp add: jwt_text_def split_on_append [OF b64_no_dot] split_on_none [OF b64_no_dot])

lemma jwt_text_graphic:
  "\<forall>c \<in> set sig. graphic c \<Longrightarrow> c \<in> set (jwt_text h p sig) \<Longrightarrow> graphic c"
  by (auto simp: jwt_text_def b64_graphic graphic_def [of "CHR ''.''"] dest: b64_encode_bytes split: if_splits)

lemma jwt_text_not_Nil [simp]: "jwt_text h p sig \<noteq> []"
  by (simp add: jwt_text_def)

lemma trim_space_graphic: "\<forall>c \<in> set s. graphic c \<Longrightarrow> trim_space s = s"
  by (cases "s = []") (simp_all add: trim_space_ends)

lemma lower_space: "lower_ch c = CHR '' '' \<longleftrightarrow> c = CHR '' ''"
proof
  assume "lower_ch c = CHR '' ''"
  then have "(of_char (lower_ch c) :: nat) = 32" by simp
  then have "(of_char c :: nat) = of_char (CHR '' '')"
    by (simp add: of_char_lower split: if_splits)
  then show "c = CHR '' ''" by (rule char_eqI)
qed (simp add: lower_ch_def)

lemma cut_no_scheme:
  assumes "\<forall>c \<in> set s. graphic c"
  shows "cut_prefix_fold s ''bearer '' = (s, False)"
proof -
  have "\<not> equal_fold (take 7 s) ''bearer ''"
  proof
    assume fold: "equal_fold (take 7 s) ''bearer ''"
    have "\<forall>c \<in> set (take 7 s). (of_char c :: nat) < 128"
      using assms by (fastforce simp: graphic_def dest: in_set_takeD)
    from equal_fold_lower [OF this, of "''bearer ''"] fold
    have "ascii_lower (take 7 s) = ascii_lower ''bearer ''"
      by blast
    then have "CHR '' '' \<in> set (ascii_lower (take 7 s))"
      by (simp add: ascii_lower_def lower_ch_def)
    then obtain c where c: "c \<in> set (take 7 s)" "lower_ch c = CHR '' ''"
      by (force simp: ascii_lower_def)
    then have "CHR '' '' \<in> set s"
      using in_set_takeD [OF c(1)] by (simp add: lower_space)
    with assms have "graphic CHR '' ''" by blast
    then show False by (simp add: graphic_def)
  qed
  moreover have "length ''bearer '' = 7" by simp
  ultimately show ?thesis
    by (simp only: cut_prefix_fold_def if_False simp_thms)
qed

lemma decode_bare:
  assumes "\<forall>c \<in> set sig. graphic c" "unm h = Some hv" "unm p = Some pv" "hv \<noteq> JNull" "pv \<noteq> JNull"
    and "v2 = jwt_text h p sig"
  shows "(let parts = split_on CHR ''.'' v2 in
            if length parts < 2 then None
            else
              (let h = decode_segment unm (parts ! 0); p = decode_segment unm (parts ! 1)
               in if h = JNull \<or> p = JNull then None else Some \<lparr>j_header = h, j_payload = p\<rparr>))
         = Some \<lparr>j_header = hv, j_payload = pv\<rparr>"
proof -
  obtain more where "split_on CHR ''.'' v2 = b64_encode B64Url h # b64_encode B64Url p # more"
    using jwt_text_parts assms(6) by blast
  with assms show ?thesis
    by (simp add: decode_segment_encode)
qed

text \<open>
  C37: Every token decodes: a compact token whose segments are JSON values other than null is decoded to
  those two values, bare or after the Bearer scheme in any letter case, whatever its signature,
  and whether it has one at all.
\<close>
theorem decode_jwt_token:
  assumes "\<forall>c \<in> set sig. graphic c"
    and "unm h = Some hv" "unm p = Some pv" "hv \<noteq> JNull" "pv \<noteq> JNull"
    and "scheme = [] \<or> (length scheme = 7 \<and> ascii_lower scheme = ''bearer '')"
  shows "decode_jwt unm (scheme @ jwt_text h p sig) = Some \<lparr>j_header = hv, j_payload = pv\<rparr>"
proof -
  let ?t = "jwt_text h p sig"
  have g: "\<forall>c \<in> set ?t. graphic c"
    using jwt_text_graphic [OF assms(1)] by blast
  have bare: "trim_space ?t = ?t" "cut_prefix_fold ?t ''bearer '' = (?t, False)"
    using trim_space_graphic [OF g] cut_no_scheme [OF g] by auto
  show ?thesis
  proof (cases "scheme = []")
    case True
    then show ?thesis
      unfolding decode_jwt_def True append_Nil Let_def [where s = "trim_space _"]
      using bare decode_bare [OF assms(1-5) refl] by simp
  next
    case False
    with assms(6) have s: "length scheme = 7" "ascii_lower scheme = ''bearer ''" by auto
    have low: "\<forall>c \<in> set scheme. (of_char c :: nat) < 128"
    proof
      fix c assume "c \<in> set scheme"
      then have "lower_ch c \<in> set ''bearer ''"
        using s(2) by (metis ascii_lower_def image_eqI image_set)
      then have "(of_char (lower_ch c) :: nat) < 128" by auto
      then show "(of_char c :: nat) < 128"
        by (auto simp: of_char_lower split: if_splits)
    qed
    have "ascii_lower ''bearer '' = ''bearer ''"
      by code_simp
    then have "equal_fold scheme ''bearer ''"
      using equal_fold_lower [OF low, of "''bearer ''"] s(2) by metis
    then have cut: "cut_prefix_fold (scheme @ ?t) ''bearer '' = (?t, True)"
      using s(1) by (simp add: cut_prefix_fold_def)
    have "lower_ch (hd scheme) = CHR ''b''"
      using s by (cases scheme) (auto simp: ascii_lower_def)
    then have "graphic (hd scheme)"
      by (auto simp: graphic_def lower_ch_def Let_def split: if_splits)
    moreover have "graphic (last ?t)" using g by simp
    ultimately have "trim_space (scheme @ ?t) = scheme @ ?t"
      using False by (intro trim_space_ends) auto
    then show ?thesis
      unfolding decode_jwt_def Let_def [where s = "trim_space _"]
      using bare cut decode_bare [OF assms(1-5) refl] by simp
  qed
qed

theorem decode_jwt_token_witness:
  "decode_jwt (\<lambda>b. if b = ''{}'' then Some (JObj []) else Some (JNum b)) (''BEARER '' @ ''e30.Nw.c2ln'')
     = Some \<lparr>j_header = JObj [], j_payload = JNum ''7''\<rparr>"
proof -
  have "jwt_text ''{}'' ''7'' ''c2ln'' = ''e30.Nw.c2ln''"
    by code_simp
  moreover have "ascii_lower ''BEARER '' = ''bearer ''"
    by code_simp
  ultimately show ?thesis
    using decode_jwt_token [of "''c2ln''" "\<lambda>b. if b = ''{}'' then Some (JObj []) else Some (JNum b)"
        "''{}''" "JObj []" "''7''" "JNum ''7''" "''BEARER ''"]
    by (simp add: graphic_def)
qed

end
