(* ===== verification/Cookies.thy ===== *)
theory Cookies
  imports Jwt
begin

text \<open>
  \<open>internal/echo/cookies.go\<close>: the Express-compatible signed cookies. The HMAC is an argument
  (key, then message). The property says exactly which cookies verify and with which value.
\<close>

type_synonym hmac = "bytes \<Rightarrow> bytes \<Rightarrow> bytes"

definition cookie_signature :: "hmac \<Rightarrow> string \<Rightarrow> string \<Rightarrow> string" where
  "cookie_signature hmac payload secret =
     trim_right_set (b64_encode_padded B64Std (hmac secret payload)) {CHR ''=''}"

text \<open>\<open>ConstantTimeCompare\<close> is 1 exactly on equal slices.\<close>

definition verify_cookie_signature :: "hmac \<Rightarrow> string \<Rightarrow> string \<Rightarrow> string \<Rightarrow> bool" where
  "verify_cookie_signature hmac payload sig secret \<longleftrightarrow> cookie_signature hmac payload secret = sig"

definition cookie_wire_value :: "string \<Rightarrow> string" where
  "cookie_wire_value value0 =
     (if CHR ''%'' \<in> set value0
      then (case unescape EncQuery value0 of Some d \<Rightarrow> d | None \<Rightarrow> value0)
      else value0)"

definition signed_payload :: "hmac \<Rightarrow> string \<Rightarrow> cookie \<Rightarrow> string option" where
  "signed_payload hmac secret c =
     (case cut_prefix (cookie_wire_value (ck_value c)) ''s:'' of (rest, ok) \<Rightarrow>
        if \<not> ok then None
        else (case last_index CHR ''.'' rest of
                None \<Rightarrow> None
              | Some dot \<Rightarrow>
                  if dot = 0 then None
                  else if verify_cookie_signature hmac (take dot rest) (drop (dot + 1) rest) secret
                  then Some (take dot rest) else None))"

definition verify_signed_cookies :: "hmac \<Rightarrow> cookie list \<Rightarrow> string \<Rightarrow> string gomap" where
  "verify_signed_cookies hmac cookies secret =
     fold (\<lambda>c out. case signed_payload hmac secret c of
                     None \<Rightarrow> out
                   | Some payload \<Rightarrow> AList.update (ck_name c) payload out) cookies []"

section \<open>Properties\<close>

lemma b64_padded_trim: "trim_right_set (b64_encode_padded al bs) {CHR ''=''} = b64_encode al bs"
  using trim_right_b64 [of al bs] by (simp add: b64_encode_padded_def trim_right_set_def)

lemma last_index_SomeD:
  "last_index c s = Some i \<Longrightarrow> s = take i s @ c # drop (i + 1) s \<and> c \<notin> set (drop (i + 1) s)"
proof (induction s arbitrary: i)
  case Nil
  then show ?case by simp
next
  case (Cons x s)
  show ?case
  proof (cases "last_index c s")
    case None
    moreover have "last_index c s = None \<Longrightarrow> c \<notin> set s" for s
      by (induction s) (auto split: option.splits if_splits)
    ultimately show ?thesis
      using Cons.prems by (auto split: if_splits)
  next
    case (Some j)
    with Cons show ?thesis by auto
  qed
qed

lemma signed_payload_iff:
  "signed_payload hmac secret c = Some v \<longleftrightarrow>
     v \<noteq> [] \<and>
     cookie_wire_value (ck_value c) = ''s:'' @ v @ ''.'' @ b64_encode B64Std (hmac secret v)"
proof
  assume l: "signed_payload hmac secret c = Some v"
  then obtain rest dot where
    rest: "cut_prefix (cookie_wire_value (ck_value c)) ''s:'' = (rest, True)"
    and dot: "last_index CHR ''.'' rest = Some dot" "dot \<noteq> 0"
    and sig: "verify_cookie_signature hmac (take dot rest) (drop (dot + 1) rest) secret"
    and v: "v = take dot rest"
    by (auto simp: signed_payload_def split: prod.splits option.splits if_splits)
  from rest have "cookie_wire_value (ck_value c) = ''s:'' @ rest"
    by (auto simp: cut_prefix_def has_prefix_iff split: if_splits)
  moreover have "rest = v @ ''.'' @ b64_encode B64Std (hmac secret v)"
    using last_index_SomeD [OF dot(1)] sig v
    by (simp add: verify_cookie_signature_def cookie_signature_def b64_padded_trim)
  moreover have "v \<noteq> []"
    using dot v by (cases rest) auto
  ultimately show "v \<noteq> [] \<and> cookie_wire_value (ck_value c) = ''s:'' @ v @ ''.'' @ b64_encode B64Std (hmac secret v)"
    by simp
next
  assume r: "v \<noteq> [] \<and> cookie_wire_value (ck_value c) = ''s:'' @ v @ ''.'' @ b64_encode B64Std (hmac secret v)"
  have "last_index CHR ''.'' (v @ CHR ''.'' # b64_encode B64Std (hmac secret v)) = Some (length v)"
    by (rule last_index_append [OF b64_no_dot])
  with r show "signed_payload hmac secret c = Some v"
    by (simp add: signed_payload_def cut_prefix_def has_prefix_def verify_cookie_signature_def
        cookie_signature_def b64_padded_trim)
qed

lemma last_match_snoc:
  "(\<exists>pre x post. xs @ [c] = pre @ x # post \<and> P x \<and> (\<forall>d \<in> set post. Q d)) \<longleftrightarrow>
     P c \<or> (Q c \<and> (\<exists>pre x post. xs = pre @ x # post \<and> P x \<and> (\<forall>d \<in> set post. Q d)))"
  (is "?l \<longleftrightarrow> ?r")
proof
  assume ?l
  then obtain pre x post where "xs @ [c] = pre @ x # post" "P x" "\<forall>d \<in> set post. Q d" by blast
  then show ?r
    by (cases post rule: rev_cases) auto
next
  assume ?r
  then show ?l
  proof
    assume "P c"
    then show ?l by (intro exI [of _ xs] exI [of _ c] exI [of _ "[]"]) simp
  next
    assume "Q c \<and> (\<exists>pre x post. xs = pre @ x # post \<and> P x \<and> (\<forall>d \<in> set post. Q d))"
    then obtain pre x post where "Q c" "xs = pre @ x # post" "P x" "\<forall>d \<in> set post. Q d" by blast
    then show ?l by (intro exI [of _ pre] exI [of _ x] exI [of _ "post @ [c]"]) simp
  qed
qed

lemma verify_signed_lookup:
  "lookup (verify_signed_cookies hmac cookies secret) n = Some v \<longleftrightarrow>
     (\<exists>pre c post. cookies = pre @ c # post \<and> (ck_name c = n \<and> signed_payload hmac secret c = Some v) \<and>
        (\<forall>d \<in> set post. ck_name d = n \<longrightarrow> signed_payload hmac secret d = None))"
  unfolding verify_signed_cookies_def
proof (induction cookies rule: rev_induct)
  case Nil
  then show ?case by simp
next
  case (snoc c cookies)
  show ?case
    unfolding last_match_snoc snoc.IH [symmetric]
    by (cases "signed_payload hmac secret c") auto
qed

text \<open>
  C36: Signed cookies: the value reported under a name is that of the last cookie of the name that is
  a signed cookie, and a cookie is one exactly when its value, percent-decoded, is \<open>s:\<close>, a payload
  that is not empty, a dot and the payload's signature under the secret.
\<close>
theorem verify_signed_cookies_exact:
  "lookup (verify_signed_cookies hmac cookies secret) n = Some v \<longleftrightarrow>
     (\<exists>pre c post. cookies = pre @ c # post \<and> (ck_name c = n \<and> v \<noteq> [] \<and>
        cookie_wire_value (ck_value c) = ''s:'' @ v @ ''.'' @ b64_encode B64Std (hmac secret v)) \<and>
        filter (\<lambda>d. ck_name d = n \<and> signed_payload hmac secret d \<noteq> None) post = [])"
  unfolding verify_signed_lookup signed_payload_iff [of hmac secret _ v] filter_empty_conv
  by simp

text \<open>
  Express cookies verify: a cookie holding the percent-encoded form of a signed value, as
  cookie-parser writes it, is reported with that value.
\<close>
theorem signed_cookie_roundtrip:
  assumes "v \<noteq> []"
  shows "lookup (verify_signed_cookies hmac
      [\<lparr>ck_name = n, ck_value = escape EncQuery (''s:'' @ v @ ''.'' @ b64_encode B64Std (hmac secret v))\<rparr>] secret) n
    = Some v"
proof -
  let ?w = "''s:'' @ v @ ''.'' @ b64_encode B64Std (hmac secret v)"
  have "CHR ''%'' \<in> set (escape EncQuery ?w)"
    by (simp add: should_escape_def is_alnum_def)
  then have "cookie_wire_value (escape EncQuery ?w) = ?w"
    by (simp only: cookie_wire_value_def if_True unescape_escape option.case)
  then have p: "signed_payload hmac secret \<lparr>ck_name = n, ck_value = escape EncQuery ?w\<rparr> = Some v"
    unfolding signed_payload_iff cookie.simps using assms by blast
  show ?thesis
    unfolding verify_signed_cookies_def fold.simps comp_def id_apply p option.case cookie.simps
    by simp
qed

theorem signed_cookie_roundtrip_witness:
  "lookup (verify_signed_cookies (\<lambda>key msg. rev msg)
      [\<lparr>ck_name = ''sid'', ck_value = escape EncQuery (''s:'' @ ''a.b'' @ ''.'' @ b64_encode B64Std ''b.a'')\<rparr>] ''k'') ''sid''
    = Some ''a.b''"
proof -
  have "rev ''a.b'' = ''b.a''" by simp
  then show ?thesis
    using signed_cookie_roundtrip [of "''a.b''" "\<lambda>key msg. rev msg" "''sid''" "''k''"]
    by (simp only: list.distinct not_False_eq_True simp_thms)
qed

end
