(* ===== verification/Json.thy ===== *)
theory Json
  imports Jwt "HOL-Library.List_Lexorder" "HOL-Library.Char_ord"
begin

text \<open>
  The part of \<open>encoding/json\<close> the program prints with: \<open>Marshal\<close> and \<open>MarshalIndent\<close>
  on values built from its own structures, Go's default HTML escaping included.
  The lemmas: what is printed contains none of the characters that could end a script or start a
  tag, and reading an escaped string back gives the string.
\<close>

section \<open>Strings\<close>

definition byte_in :: "nat \<Rightarrow> nat \<Rightarrow> char \<Rightarrow> bool" where
  "byte_in lo hi c \<longleftrightarrow> lo \<le> of_char c \<and> of_char c \<le> hi"

text \<open>
  \<open>utf8.DecodeRune\<close> on a string that starts with a byte beyond ASCII: the length of the rune, or
  \<open>None\<close> when it is not valid. \<open>lead2\<close> to \<open>lead4\<close> are the first two bytes of a rune of that length.
\<close>

definition cont :: "char \<Rightarrow> bool" where
  "cont c \<longleftrightarrow> byte_in 0x80 0xBF c"

definition lead2 :: "char \<Rightarrow> char \<Rightarrow> bool" where
  "lead2 a b \<longleftrightarrow> byte_in 0xC2 0xDF a \<and> cont b"

definition lead3 :: "char \<Rightarrow> char \<Rightarrow> bool" where
  "lead3 a b \<longleftrightarrow>
     (byte_in 0xE0 0xE0 a \<and> byte_in 0xA0 0xBF b) \<or> (byte_in 0xE1 0xEC a \<and> cont b)
     \<or> (byte_in 0xED 0xED a \<and> byte_in 0x80 0x9F b) \<or> (byte_in 0xEE 0xEF a \<and> cont b)"

definition lead4 :: "char \<Rightarrow> char \<Rightarrow> bool" where
  "lead4 a b \<longleftrightarrow>
     (byte_in 0xF0 0xF0 a \<and> byte_in 0x90 0xBF b) \<or> (byte_in 0xF1 0xF3 a \<and> cont b)
     \<or> (byte_in 0xF4 0xF4 a \<and> byte_in 0x80 0x8F b)"

definition utf8_len :: "string \<Rightarrow> nat option" where
  "utf8_len s =
     (case s of
        a # b # r \<Rightarrow>
          if lead2 a b then Some 2
          else (case r of
                  [] \<Rightarrow> None
                | c # r' \<Rightarrow>
                    if lead3 a b \<and> cont c then Some 3
                    else (case r' of
                            [] \<Rightarrow> None
                          | d # _ \<Rightarrow> if lead4 a b \<and> cont c \<and> cont d then Some 4 else None))
      | _ \<Rightarrow> None)"

definition low_hex :: "nat \<Rightarrow> char" where
  "low_hex n = char_of (if n < 10 then 48 + n else 87 + n)"

definition html_safe :: "char \<Rightarrow> bool" where
  "html_safe c \<longleftrightarrow>
     32 \<le> (of_char c :: nat) \<and> (of_char c :: nat) < 128 \<and> c \<notin> set ''&<>'' \<and> c \<noteq> CHR 0x22 \<and> c \<noteq> CHR 0x5C"

definition quote_ascii :: "char \<Rightarrow> string" where
  "quote_ascii c =
     (if html_safe c then [c]
      else if c = CHR 0x5C \<or> c = CHR 0x22 then [CHR 0x5C, c]
      else if c = CHR 0x08 then [CHR 0x5C, CHR ''b'']
      else if c = CHR 0x0C then [CHR 0x5C, CHR ''f'']
      else if c = CHR 0x0A then [CHR 0x5C, CHR ''n'']
      else if c = CHR 0x0D then [CHR 0x5C, CHR ''r'']
      else if c = CHR 0x09 then [CHR 0x5C, CHR ''t'']
      else CHR 0x5C # ''u00'' @ [low_hex (of_char c div 16), low_hex (of_char c mod 16)])"

text \<open>One turn of the encoder: what it prints and how many bytes it takes.\<close>

definition quote_turn :: "string \<Rightarrow> string \<times> nat" where
  "quote_turn s =
     (if (of_char (hd s) :: nat) < 128 then (quote_ascii (hd s), 1)
      else (case utf8_len s of
              None \<Rightarrow> (CHR 0x5C # ''ufffd'', 1)
            | Some n \<Rightarrow>
                if take 3 s = [CHR 0xE2, CHR 0x80, CHR 0xA8] then (CHR 0x5C # ''u2028'', 3)
                else if take 3 s = [CHR 0xE2, CHR 0x80, CHR 0xA9] then (CHR 0x5C # ''u2029'', 3)
                else (take n s, n)))"

lemma utf8_len_pos: "utf8_len s = Some n \<Longrightarrow> 0 < n"
  by (auto simp: utf8_len_def split: list.splits if_splits)

lemma quote_turn_pos: "0 < snd (quote_turn s)"
  by (auto simp: quote_turn_def dest: utf8_len_pos split: option.splits)

function quote_loop :: "string \<Rightarrow> string" where
  "quote_loop s = (if s = [] then [] else fst (quote_turn s) @ quote_loop (drop (snd (quote_turn s)) s))"
  by pat_completeness auto
termination
  by (relation "measure length") (simp_all add: quote_turn_pos)

declare quote_loop.simps [simp del]

lemma quote_loop_Nil [simp]: "quote_loop [] = []"
  by (simp add: quote_loop.simps)

definition json_quote :: "string \<Rightarrow> string" where
  "json_quote s = CHR 0x22 # quote_loop s @ [CHR 0x22]"

section \<open>Values\<close>

text \<open>\<open>Marshal\<close>: no white space.\<close>

fun json_compact :: "json \<Rightarrow> string" and
    compact_items :: "json list \<Rightarrow> string list" and
    compact_members :: "(string \<times> json) list \<Rightarrow> string list" where
  "json_compact JNull = ''null''"
| "json_compact (JBool b) = (if b then ''true'' else ''false'')"
| "json_compact (JNum n) = n"
| "json_compact (JStr s) = json_quote s"
| "json_compact (JArr vs) = ''['' @ join '','' (compact_items vs) @ '']''"
| "json_compact (JObj ms) = ''{'' @ join '','' (compact_members ms) @ ''}''"
| "compact_items [] = []"
| "compact_items (v # vs) = json_compact v # compact_items vs"
| "compact_members [] = []"
| "compact_members ((k, v) # ms) = (json_quote k @ '':'' @ json_compact v) # compact_members ms"

text \<open>\<open>MarshalIndent\<close> with no prefix and two spaces per level.\<close>

definition indent :: "nat \<Rightarrow> string" where
  "indent n = CHR 0x0A # replicate (2 * n) CHR '' ''"

fun json_indent :: "nat \<Rightarrow> json \<Rightarrow> string" and
    indent_items :: "nat \<Rightarrow> json list \<Rightarrow> string list" and
    indent_members :: "nat \<Rightarrow> (string \<times> json) list \<Rightarrow> string list" where
  "json_indent n JNull = ''null''"
| "json_indent n (JBool b) = (if b then ''true'' else ''false'')"
| "json_indent n (JNum t) = t"
| "json_indent n (JStr s) = json_quote s"
| "json_indent n (JArr vs) =
     (if vs = [] then ''[]'' else ''['' @ join '','' (indent_items (Suc n) vs) @ indent n @ '']'')"
| "json_indent n (JObj ms) =
     (if ms = [] then ''{}'' else ''{'' @ join '','' (indent_members (Suc n) ms) @ indent n @ ''}'')"
| "indent_items n [] = []"
| "indent_items n (v # vs) = (indent n @ json_indent n v) # indent_items n vs"
| "indent_members n [] = []"
| "indent_members n ((k, v) # ms) =
     (indent n @ json_quote k @ '': '' @ json_indent n v) # indent_members n ms"

text \<open>A Go map is printed with its keys sorted.\<close>

definition json_map :: "json gomap \<Rightarrow> json" where
  "json_map m = JObj (sort_key fst m)"

section \<open>What is never printed\<close>

definition no_markup :: "string \<Rightarrow> bool" where
  "no_markup s \<longleftrightarrow> CHR ''<'' \<notin> set s \<and> CHR ''>'' \<notin> set s \<and> CHR ''&'' \<notin> set s"

lemma no_markup_append [simp]: "no_markup (s @ t) \<longleftrightarrow> no_markup s \<and> no_markup t"
  by (auto simp: no_markup_def)

lemma no_markup_Cons [simp]:
  "no_markup (c # s) \<longleftrightarrow> c \<noteq> CHR ''<'' \<and> c \<noteq> CHR ''>'' \<and> c \<noteq> CHR ''&'' \<and> no_markup s"
  by (auto simp: no_markup_def)

lemma no_markup_Nil [simp]: "no_markup []"
  by (simp add: no_markup_def)

lemma no_markup_join: "no_markup sep \<Longrightarrow> \<forall>x \<in> set xs. no_markup x \<Longrightarrow> no_markup (join sep xs)"
  by (induction sep xs rule: join.induct) auto

lemma no_markup_indent [simp]: "no_markup (indent n)"
  by (simp add: indent_def no_markup_def)

lemma of_low_hex: "n < 16 \<Longrightarrow> (of_char (low_hex n) :: nat) = (if n < 10 then 48 + n else 87 + n)"
  by (simp add: low_hex_def)

lemma low_hex_markup: "n < 16 \<Longrightarrow> no_markup [low_hex n]"
  using of_low_hex [of n] by (auto split: if_splits)

lemma quote_ascii_markup: "no_markup (quote_ascii c)"
proof -
  have "(of_char c :: nat) div 16 < 16" "(of_char c :: nat) mod 16 < 16"
    using of_char_256 [of c] by (simp_all add: less_mult_imp_div_less)
  then have "no_markup [low_hex (of_char c div 16), low_hex (of_char c mod 16)]"
    using low_hex_markup by simp
  then show ?thesis
    by (auto simp: quote_ascii_def html_safe_def)
qed

definition high :: "char \<Rightarrow> bool" where
  "high c \<longleftrightarrow> 128 \<le> (of_char c :: nat)"

lemma lead_high:
  "cont c \<Longrightarrow> high c" "lead2 a b \<Longrightarrow> high a \<and> high b" "lead3 a b \<Longrightarrow> high a \<and> high b"
  "lead4 a b \<Longrightarrow> high a \<and> high b"
  by (auto simp: lead2_def lead3_def lead4_def cont_def byte_in_def high_def)

lemma utf8_rune_high: "utf8_len s = Some n \<Longrightarrow> \<forall>c \<in> set (take n s). high c"
  by (auto simp: utf8_len_def split: list.splits if_splits dest: lead_high)

lemma high_markup: "\<forall>c \<in> set s. high c \<Longrightarrow> no_markup s"
  by (auto simp: no_markup_def high_def)

lemma quote_turn_markup: "no_markup (fst (quote_turn s))"
  by (auto simp: quote_turn_def quote_ascii_markup split: option.splits
      intro: high_markup dest: utf8_rune_high)

lemma quote_loop_markup: "no_markup (quote_loop s)"
proof (induction s rule: quote_loop.induct)
  case (1 s)
  then show ?case
    by (cases "s = []") (simp_all add: quote_loop.simps [of s] quote_turn_markup)
qed

lemma json_quote_markup: "no_markup (json_quote s)"
  by (simp add: json_quote_def quote_loop_markup)

fun json_nums_ok :: "json \<Rightarrow> bool" and nums_ok_items :: "json list \<Rightarrow> bool" and
    nums_ok_members :: "(string \<times> json) list \<Rightarrow> bool" where
  "json_nums_ok (JNum n) \<longleftrightarrow> no_markup n"
| "json_nums_ok (JArr vs) \<longleftrightarrow> nums_ok_items vs"
| "json_nums_ok (JObj ms) \<longleftrightarrow> nums_ok_members ms"
| "json_nums_ok _ \<longleftrightarrow> True"
| "nums_ok_items [] \<longleftrightarrow> True"
| "nums_ok_items (v # vs) \<longleftrightarrow> json_nums_ok v \<and> nums_ok_items vs"
| "nums_ok_members [] \<longleftrightarrow> True"
| "nums_ok_members ((k, v) # ms) \<longleftrightarrow> json_nums_ok v \<and> nums_ok_members ms"

lemma json_indent_markup:
  "json_nums_ok v \<Longrightarrow> no_markup (json_indent n v)"
  "nums_ok_items vs \<Longrightarrow> \<forall>x \<in> set (indent_items n vs). no_markup x"
  "nums_ok_members ms \<Longrightarrow> \<forall>x \<in> set (indent_members n ms). no_markup x"
  by (induction n v and n vs and n ms rule: json_indent_indent_items_indent_members.induct)
    (auto simp: json_quote_markup no_markup_join)

lemma json_compact_markup:
  "json_nums_ok v \<Longrightarrow> no_markup (json_compact v)"
  "nums_ok_items vs \<Longrightarrow> \<forall>x \<in> set (compact_items vs). no_markup x"
  "nums_ok_members ms \<Longrightarrow> \<forall>x \<in> set (compact_members ms). no_markup x"
  by (induction v and vs and ms rule: json_compact_compact_items_compact_members.induct)
    (auto simp: json_quote_markup no_markup_join)

lemma nums_ok_items_iff: "nums_ok_items vs \<longleftrightarrow> (\<forall>v \<in> set vs. json_nums_ok v)"
  by (induction vs) auto

lemma nums_ok_members_iff: "nums_ok_members ms \<longleftrightarrow> (\<forall>(k, v) \<in> set ms. json_nums_ok v)"
  by (induction ms) auto

section \<open>Reading a string back\<close>

text \<open>The encoding of a code point of the basic plane, and the reading of the escapes of a JSON string.\<close>

definition utf8_of :: "nat \<Rightarrow> string" where
  "utf8_of n =
     (if n < 0x80 then [char_of n]
      else if n < 0x800 then [char_of (0xC0 + n div 64), char_of (0x80 + n mod 64)]
      else [char_of (0xE0 + n div 4096), char_of (0x80 + n div 64 mod 64), char_of (0x80 + n mod 64)])"

definition simple_escape :: "char \<Rightarrow> string" where
  "simple_escape c =
     (if c = CHR ''b'' then [CHR 0x08] else if c = CHR ''f'' then [CHR 0x0C]
      else if c = CHR ''n'' then [CHR 0x0A] else if c = CHR ''r'' then [CHR 0x0D]
      else if c = CHR ''t'' then [CHR 0x09] else [c])"

definition hex4 :: "char \<Rightarrow> char \<Rightarrow> char \<Rightarrow> char \<Rightarrow> nat option" where
  "hex4 a b c d =
     (case (unhex a, unhex b, unhex c, unhex d) of
        (Some w, Some x, Some y, Some z) \<Rightarrow> Some (4096 * w + 256 * x + 16 * y + z) | _ \<Rightarrow> None)"

fun json_unquote :: "string \<Rightarrow> string option" where
  "json_unquote [] = Some []"
| "json_unquote (c # s) =
     (if c \<noteq> CHR 0x5C then map_option ((#) c) (json_unquote s)
      else (case s of
              [] \<Rightarrow> None
            | e # r \<Rightarrow>
                if e \<noteq> CHR ''u'' then map_option ((@) (simple_escape e)) (json_unquote r)
                else (case r of
                        h1 # h2 # h3 # h4 # t \<Rightarrow>
                          (case hex4 h1 h2 h3 h4 of
                             None \<Rightarrow> None
                           | Some n \<Rightarrow> map_option ((@) (utf8_of n)) (json_unquote t))
                      | _ \<Rightarrow> None)))"

function utf8_valid :: "string \<Rightarrow> bool" where
  "utf8_valid s =
     (if s = [] then True
      else if (of_char (hd s) :: nat) < 128 then utf8_valid (tl s)
      else (case utf8_len s of None \<Rightarrow> False | Some n \<Rightarrow> utf8_valid (drop n s)))"
  by pat_completeness auto
termination
  by (relation "measure length") (auto dest: utf8_len_pos)

declare utf8_valid.simps [simp del]

lemma unhex_low_hex: "n < 16 \<Longrightarrow> unhex (low_hex n) = Some n"
  by (simp add: unhex_def of_low_hex)

lemma unquote_ascii:
  assumes "(of_char c :: nat) < 128"
  shows "json_unquote (quote_ascii c @ t) = map_option ((#) c) (json_unquote t)"
proof -
  have d: "(of_char c :: nat) div 16 < 16" "(of_char c :: nat) mod 16 < 16"
    using of_char_256 [of c] by (simp_all add: less_mult_imp_div_less)
  have z: "unhex CHR ''0'' = Some 0" by (simp add: unhex_def)
  have "hex4 CHR ''0'' CHR ''0'' (low_hex (of_char c div 16)) (low_hex (of_char c mod 16)) = Some (of_char c)"
    by (simp add: hex4_def z unhex_low_hex d)
  then have u: "json_unquote (CHR 0x5C # ''u00'' @ [low_hex (of_char c div 16), low_hex (of_char c mod 16)] @ t)
      = map_option ((#) c) (json_unquote t)"
    using assms by (cases "json_unquote t") (simp_all add: utf8_of_def)
  show ?thesis
  proof (cases "html_safe c")
    case True
    then have "c \<noteq> CHR 0x5C" by (simp add: html_safe_def)
    with True show ?thesis by (simp add: quote_ascii_def)
  next
    case False
    have esc: "json_unquote (CHR 0x5C # e # t) = map_option ((#) c) (json_unquote t)"
      if "e \<noteq> CHR ''u''" "simple_escape e = [c]" for e
      using that by (cases "json_unquote t") simp_all
    have slash: "json_unquote (CHR 0x5C # CHR 0x5C # t) = map_option ((#) CHR 0x5C) (json_unquote t)"
      "json_unquote (CHR 0x5C # CHR 0x22 # t) = map_option ((#) CHR 0x22) (json_unquote t)"
      by (cases "json_unquote t", simp_all add: simple_escape_def)+
    note special = esc [of "CHR ''b''"] esc [of "CHR ''f''"] esc [of "CHR ''n''"]
      esc [of "CHR ''r''"] esc [of "CHR ''t''"]
    from False u show ?thesis
      by (simp add: quote_ascii_def special slash simple_escape_def del: json_unquote.simps)
  qed
qed

lemma unquote_plain: "CHR 0x5C \<notin> set x \<Longrightarrow> json_unquote (x @ t) = map_option ((@) x) (json_unquote t)"
proof (induction x)
  case (Cons c x)
  then show ?case by (cases "json_unquote t") auto
next
  case Nil
  then show ?case by (cases "json_unquote t") auto
qed

lemma utf8_len_e2:
  "take 3 s = [CHR 0xE2, CHR 0x80, c] \<Longrightarrow> utf8_len s = Some n \<Longrightarrow> n = 3"
  by (auto simp: utf8_len_def lead2_def lead4_def byte_in_def take_Cons' split: list.splits if_splits)

lemma unquote_turn:
  assumes "s \<noteq> []" "(of_char (hd s) :: nat) < 128 \<or> utf8_len s \<noteq> None"
  shows "json_unquote (fst (quote_turn s) @ t)
     = map_option ((@) (take (snd (quote_turn s)) s)) (json_unquote t)"
proof (cases "(of_char (hd s) :: nat) < 128")
  case True
  then show ?thesis
    using assms(1) by (cases s; cases "json_unquote t") (simp_all add: quote_turn_def unquote_ascii)
next
  case False
  with assms(2) obtain n where n: "utf8_len s = Some n" by auto
  have esc: "json_unquote (CHR 0x5C # ''u2028'' @ t) = map_option ((@) [CHR 0xE2, CHR 0x80, CHR 0xA8]) (json_unquote t)"
    "json_unquote (CHR 0x5C # ''u2029'' @ t) = map_option ((@) [CHR 0xE2, CHR 0x80, CHR 0xA9]) (json_unquote t)"
    by (simp_all add: hex4_def unhex_def utf8_of_def char_num)
  have "CHR 0x5C \<notin> set (take n s)"
    using utf8_rune_high [OF n] by (auto simp: high_def)
  with False n esc show ?thesis
    by (simp add: quote_turn_def unquote_plain)
qed

lemma unquote_quote: "utf8_valid s \<Longrightarrow> json_unquote (quote_loop s) = Some s"
proof (induction s rule: quote_loop.induct)
  case (1 s)
  show ?case
  proof (cases "s = []")
    case False
    have ok: "(of_char (hd s) :: nat) < 128 \<or> utf8_len s \<noteq> None"
      using "1.prems" False by (auto simp: utf8_valid.simps [of s] split: option.splits if_splits)
    have "utf8_valid (drop (snd (quote_turn s)) s)"
      using "1.prems" False
      by (auto simp: utf8_valid.simps [of s] quote_turn_def drop_Suc split: option.splits if_splits
          dest: utf8_len_e2)
    with "1.IH" [OF False] show ?thesis
      by (simp add: quote_loop.simps [of s] False unquote_turn [OF False ok])
  qed simp
qed

end
