(* ===== verification/Echo.thy ===== *)
theory Echo
  imports Json Cookies Proxies
begin

text \<open>
  \<open>internal/echo/echo.go\<close>: the echo object built from a request and its rendering. What the
  code asks of other code is an argument (\<open>echo_env\<close>): the JSON parser, the media type parser,
  the two hash functions, the formatting of times and TLS names, the machine's name and environment.
  A nil map, slice or interface is empty or \<open>JNull\<close>; the code never tells them apart.
\<close>

section \<open>The echo object\<close>

text \<open>A value of a header or query map: one string, or a list when there is not exactly one.\<close>

datatype collapsed = Single string | Multi "string list"

record connection_info =
  cn_server_name :: string
  cn_alpn :: string
  cn_tls_version :: string
  cn_cipher :: string

record client_cert =
  cc_subject :: string
  cc_issuer :: string
  cc_serial :: string
  cc_not_before :: string
  cc_not_after :: string
  cc_dns_names :: "string list"
  cc_ip_addresses :: "string list"
  cc_fingerprint :: string

record echo_response =
  er_path :: string
  er_query :: "collapsed gomap"
  er_method :: string
  er_protocol :: string
  er_http_version :: string
  er_host :: string
  er_hostname :: string
  er_ip :: string
  er_ips :: "string list"
  er_headers :: "collapsed gomap"
  er_cookies :: "string gomap"
  er_signed_cookies :: "string gomap"
  er_body :: string
  er_body_truncated :: bool
  er_json :: json
  er_jwt :: "jwt option"
  er_client_cert :: "client_cert option"
  er_connection :: "connection_info option"
  er_os :: "string option"
  er_env :: "string gomap"

record echo_options =
  eo_jwt_header :: string
  eo_cookie_secret :: string
  eo_include_env :: bool
  eo_proxies :: "checker option"

record echo_env =
  ee_unmarshal :: unmarshal
  ee_media_type :: "string \<Rightarrow> string option"
  ee_hmac :: hmac
  ee_sha256 :: "bytes \<Rightarrow> bytes"
  ee_format_time :: "int \<Rightarrow> string"
  ee_tls_version_name :: "nat \<Rightarrow> string"
  ee_cipher_suite_name :: "nat \<Rightarrow> string"
  ee_hostname :: "string option"
  ee_environ :: "string list"

section \<open>Capture\<close>

definition env_redacted :: "string list" where
  "env_redacted = [''VAULT_TOKEN'', ''COOKIE_SECRET'']"

definition collapse :: "string list \<Rightarrow> collapsed" where
  "collapse vs = (case vs of [v] \<Rightarrow> Single v | _ \<Rightarrow> Multi vs)"

definition collapse_values :: "string list gomap \<Rightarrow> collapsed gomap" where
  "collapse_values m = map (\<lambda>(k, vs). (k, collapse vs)) m"

definition collapse_header :: "header \<Rightarrow> collapsed gomap" where
  "collapse_header h = map (\<lambda>(k, vs). (k, collapse vs)) h"

definition capture_headers :: "request \<Rightarrow> collapsed gomap" where
  "capture_headers r =
     (if r_host r \<noteq> [] then AList.update ''Host'' (Single (r_host r)) (collapse_header (r_header r))
      else collapse_header (r_header r))"

definition capture_cookies :: "request \<Rightarrow> string gomap" where
  "capture_cookies r = fold (\<lambda>c. AList.update (ck_name c) (ck_value c)) (read_cookies (r_header r)) []"

definition colon_hex :: "bytes \<Rightarrow> string" where
  "colon_hex b = join '':'' (map (\<lambda>x. [hex_digit (of_char x div 16), hex_digit (of_char x mod 16)]) b)"

text \<open>
  \<open>net.IP.String\<close>: an IPv4 address and an IPv4-mapped one in dotted form, another IPv6 address as eight groups of
  lower-case hexadecimal digits, the first of the longest runs of two or more zero groups as two colons.
\<close>

fun hex_lower :: "nat \<Rightarrow> string" where
  "hex_lower n =
     (let d = char_of (if n mod 16 < 10 then 48 + n mod 16 else 87 + n mod 16)
      in if n < 16 then [d] else hex_lower (n div 16) @ [d])"

definition v6_groups :: "128 word \<Rightarrow> nat list" where
  "v6_groups w = map (\<lambda>i. unat w div 2 ^ (16 * (7 - i)) mod 2 ^ 16) [0..<8]"

definition zero_run :: "nat list \<Rightarrow> nat \<times> nat" where
  "zero_run gs =
     fold (\<lambda>i (start, len). let n = length (takeWhile (\<lambda>g. g = 0) (drop i gs))
            in if 2 \<le> n \<and> len < n then (i, n) else (start, len)) [0..<length gs] (0, 0)"

definition v6_string :: "nat list \<Rightarrow> string" where
  "v6_string gs =
     (case zero_run gs of (start, len) \<Rightarrow>
        if len = 0 then join '':'' (map hex_lower gs)
        else join '':'' (map hex_lower (take start gs)) @ ''::'' @ join '':'' (map hex_lower (drop (start + len) gs)))"

definition ip_string :: "ip_addr \<Rightarrow> string" where
  "ip_string a =
     (case unmap a of
        V4 w \<Rightarrow> (let n = unat w in dotted (n div 2 ^ 24) (n div 2 ^ 16 mod 256) (n div 256 mod 256) (n mod 256))
      | V6 w _ \<Rightarrow> v6_string (v6_groups w))"

lemma ip_string_samples:
  "ip_string (V4 0xC0000201) = ''192.0.2.1''" "ip_string (V6 1 []) = ''::1''" "ip_string (V6 0 []) = ''::''"
  "ip_string (V6 0x20010DB8000000000001000000000001 []) = ''2001:db8::1:0:0:1''"
  "ip_string (V6 0xFFFFC0000201 []) = ''192.0.2.1''"
  by (simp_all add: ip_string_def unmap_def v6_string_def v6_groups_def zero_run_def dotted_def upt_rec) code_simp+

definition capture_client_cert :: "echo_env \<Rightarrow> x509 \<Rightarrow> client_cert" where
  "capture_client_cert env cert =
     \<lparr>cc_subject = x_subject cert, cc_issuer = x_issuer cert, cc_serial = colon_hex (x_serial cert),
      cc_not_before = ee_format_time env (x_not_before cert),
      cc_not_after = ee_format_time env (x_not_after cert),
      cc_dns_names = x_dns_names cert, cc_ip_addresses = map ip_string (x_ip_addresses cert),
      cc_fingerprint = colon_hex (ee_sha256 env (x_raw cert))\<rparr>"

definition capture_env :: "string list \<Rightarrow> string gomap" where
  "capture_env environ =
     fold (\<lambda>kv m. case cut CHR ''='' kv of (name, value, _) \<Rightarrow>
             AList.update name (if name \<in> set env_redacted then ''***'' else value) m) environ []"

definition strip_port :: "string \<Rightarrow> string" where
  "strip_port host =
     (case split_host_port host of Some (h, _) \<Rightarrow> h | None \<Rightarrow> trim_set host {CHR ''['', CHR '']''})"

definition tls_version_name :: "echo_env \<Rightarrow> nat \<Rightarrow> string" where
  "tls_version_name env v = filter (\<lambda>c. c \<noteq> CHR '' '') (ee_tls_version_name env v)"

definition server_hostname :: "echo_env \<Rightarrow> string" where
  "server_hostname env = (case ee_hostname env of Some h \<Rightarrow> h | None \<Rightarrow> [])"

definition capture :: "echo_env \<Rightarrow> request \<Rightarrow> bytes \<Rightarrow> bool \<Rightarrow> bool \<Rightarrow> echo_options \<Rightarrow> echo_response" where
  "capture env r body truncated is_tls opts =
     (let addr =
        (case eo_proxies opts of
           Some c \<Rightarrow> resolve c (r_remote_addr r) (h_values (r_header r) ''X-Forwarded-For'')
         | None \<Rightarrow> ([], []))
      in \<lparr>er_path = u_path (r_url r),
          er_query = collapse_values (parse_query (u_raw_query (r_url r))),
          er_method = r_method r,
          er_protocol = (if is_tls then ''https'' else ''http''),
          er_http_version = nat_dec (r_proto_major r) @ ''.'' @ nat_dec (r_proto_minor r),
          er_host = r_host r,
          er_hostname = strip_port (r_host r),
          er_ip = fst addr, er_ips = snd addr,
          er_headers = capture_headers r,
          er_cookies = capture_cookies r,
          er_signed_cookies =
            (if eo_cookie_secret opts \<noteq> []
             then verify_signed_cookies (ee_hmac env) (read_cookies (r_header r)) (eo_cookie_secret opts)
             else []),
          er_body = body,
          er_body_truncated = truncated,
          er_json =
            (if ee_media_type env (h_get (r_header r) ''Content-Type'') = Some ''application/json''
             then (case ee_unmarshal env body of Some v \<Rightarrow> v | None \<Rightarrow> JNull) else JNull),
          er_jwt =
            (if eo_jwt_header opts \<noteq> []
             then decode_jwt (ee_unmarshal env) (h_get (r_header r) (eo_jwt_header opts)) else None),
          er_client_cert =
            (case r_tls r of
               Some t \<Rightarrow> (case t_peer_certs t of c # _ \<Rightarrow> Some (capture_client_cert env c) | [] \<Rightarrow> None)
             | None \<Rightarrow> None),
          er_connection =
            map_option (\<lambda>t. \<lparr>cn_server_name = t_server_name t, cn_alpn = t_alpn t,
                              cn_tls_version = tls_version_name env (t_version t),
                              cn_cipher = ee_cipher_suite_name env (t_cipher t)\<rparr>) (r_tls r),
          er_os = (if server_hostname env \<noteq> [] then Some (server_hostname env) else None),
          er_env = (if eo_include_env opts then capture_env (ee_environ env) else [])\<rparr>)"

section \<open>Rendering\<close>

text \<open>The members of an object under \<open>omitempty\<close>.\<close>

definition str_field :: "string \<Rightarrow> string \<Rightarrow> (string \<times> json) list" where
  "str_field k s = (if s = [] then [] else [(k, JStr s)])"

definition strs_field :: "string \<Rightarrow> string list \<Rightarrow> (string \<times> json) list" where
  "strs_field k vs = (if vs = [] then [] else [(k, JArr (map JStr vs))])"

definition map_field :: "string \<Rightarrow> ('v \<Rightarrow> json) \<Rightarrow> 'v gomap \<Rightarrow> (string \<times> json) list" where
  "map_field k f m = (if m = [] then [] else [(k, json_map (map (\<lambda>(n, v). (n, f v)) m))])"

definition any_field :: "string \<Rightarrow> json \<Rightarrow> (string \<times> json) list" where
  "any_field k v = (if v = JNull then [] else [(k, v)])"

definition opt_field :: "string \<Rightarrow> ('a \<Rightarrow> (string \<times> json) list) \<Rightarrow> 'a option \<Rightarrow> (string \<times> json) list" where
  "opt_field k f x = (case x of None \<Rightarrow> [] | Some v \<Rightarrow> [(k, JObj (f v))])"

fun collapsed_json :: "collapsed \<Rightarrow> json" where
  "collapsed_json (Single s) = JStr s"
| "collapsed_json (Multi vs) = JArr (map JStr vs)"

definition jwt_fields :: "jwt \<Rightarrow> (string \<times> json) list" where
  "jwt_fields j = any_field ''header'' (j_header j) @ any_field ''payload'' (j_payload j)"

definition connection_fields :: "connection_info \<Rightarrow> (string \<times> json) list" where
  "connection_fields c =
     str_field ''servername'' (cn_server_name c) @ str_field ''alpn'' (cn_alpn c)
     @ str_field ''tlsVersion'' (cn_tls_version c) @ str_field ''cipher'' (cn_cipher c)"

definition client_cert_fields :: "client_cert \<Rightarrow> (string \<times> json) list" where
  "client_cert_fields c =
     str_field ''subject'' (cc_subject c) @ str_field ''issuer'' (cc_issuer c)
     @ str_field ''serial'' (cc_serial c) @ str_field ''notBefore'' (cc_not_before c)
     @ str_field ''notAfter'' (cc_not_after c) @ strs_field ''dnsNames'' (cc_dns_names c)
     @ strs_field ''ipAddresses'' (cc_ip_addresses c) @ str_field ''fingerprintSHA256'' (cc_fingerprint c)"

definition response_fields :: "echo_response \<Rightarrow> (string \<times> json) list" where
  "response_fields r =
     str_field ''path'' (er_path r)
     @ map_field ''query'' collapsed_json (er_query r)
     @ str_field ''method'' (er_method r)
     @ str_field ''protocol'' (er_protocol r)
     @ str_field ''httpVersion'' (er_http_version r)
     @ str_field ''host'' (er_host r)
     @ str_field ''hostname'' (er_hostname r)
     @ str_field ''ip'' (er_ip r)
     @ strs_field ''ips'' (er_ips r)
     @ map_field ''headers'' collapsed_json (er_headers r)
     @ map_field ''cookies'' JStr (er_cookies r)
     @ map_field ''signedCookies'' JStr (er_signed_cookies r)
     @ str_field ''body'' (er_body r)
     @ (if er_body_truncated r then [(''bodyTruncated'', JBool True)] else [])
     @ any_field ''json'' (er_json r)
     @ opt_field ''jwt'' jwt_fields (er_jwt r)
     @ opt_field ''clientCertificate'' client_cert_fields (er_client_cert r)
     @ opt_field ''connection'' connection_fields (er_connection r)
     @ opt_field ''os'' (\<lambda>h. str_field ''hostname'' h) (er_os r)
     @ map_field ''env'' JStr (er_env r)"

text \<open>Marshalling these values cannot fail, so the fallback of the code is not taken.\<close>

definition render_response :: "echo_response \<Rightarrow> bytes" where
  "render_response r = json_indent 0 (JObj (response_fields r)) @ [CHR 0x0A]"

section \<open>Properties\<close>

text \<open>Two environment entries that are equal, or that both set the same one of the two secrets.\<close>

definition same_but_secret :: "string \<Rightarrow> string \<Rightarrow> bool" where
  "same_but_secret a b \<longleftrightarrow> a = b \<or>
     (\<exists>name v w. (name = ''VAULT_TOKEN'' \<or> name = ''COOKIE_SECRET'') \<and> a = name @ ''='' @ v \<and> b = name @ ''='' @ w)"

lemma capture_env_secret:
  assumes "list_all2 same_but_secret e1 e2"
  shows "capture_env e1 = capture_env e2"
proof -
  have cuts: "cut CHR ''='' (''VAULT_TOKEN='' @ v) = (''VAULT_TOKEN'', v, True)"
    "cut CHR ''='' (''COOKIE_SECRET='' @ v) = (''COOKIE_SECRET'', v, True)" for v
    by (simp_all add: cut_def)
  define f where "f = (\<lambda>kv m. case cut CHR ''='' kv of (name, value, _) \<Rightarrow>
      AList.update name (if name \<in> set env_redacted then ''***'' else value) (m :: string gomap))"
  have same: "f a m = f b m" if "same_but_secret a b" for a b m
    using that by (auto simp: same_but_secret_def f_def cuts env_redacted_def)
  have "fold f e1 m = fold f e2 m" for m
    using assms by (induction arbitrary: m rule: list_all2_induct) (simp_all add: same)
  then show ?thesis by (simp add: capture_env_def f_def)
qed

text \<open>
  C38: Secrets stay out: two environments that differ only in the values of \<open>VAULT_TOKEN\<close> and \<open>COOKIE_SECRET\<close>
  give the same echo object, whatever the request and the options.
\<close>
theorem env_secrets_invisible:
  assumes "list_all2 same_but_secret e1 e2"
  shows "capture (env\<lparr>ee_environ := e1\<rparr>) r body trunc is_tls opts
       = capture (env\<lparr>ee_environ := e2\<rparr>) r body trunc is_tls opts"
proof -
  have "tls_version_name (env\<lparr>ee_environ := e\<rparr>) = tls_version_name env"
    "capture_client_cert (env\<lparr>ee_environ := e\<rparr>) = capture_client_cert env"
    "server_hostname (env\<lparr>ee_environ := e\<rparr>) = server_hostname env" for e
    by (simp_all add: fun_eq_iff tls_version_name_def capture_client_cert_def server_hostname_def)
  with capture_env_secret [OF assms] show ?thesis
    by (simp add: capture_def Let_def cong: option.case_cong list.case_cong)
qed

definition plain_request :: request where
  "plain_request =
     \<lparr>r_method = ''GET'', r_url = plain_url ''/'' [], r_proto = ''HTTP/1.1'', r_proto_major = 1,
      r_proto_minor = 1, r_host = ''h'', r_header = [], r_remote_addr = ''10.0.0.1:5'', r_tls = None,
      r_body = [], r_body_err = None\<rparr>"

definition plain_env :: echo_env where
  "plain_env =
     \<lparr>ee_unmarshal = (\<lambda>b. Some (JStr b)), ee_media_type = Some, ee_hmac = (\<lambda>k m. m),
      ee_sha256 = (\<lambda>b. b), ee_format_time = itoa, ee_tls_version_name = (\<lambda>_. ''TLS 1.3''),
      ee_cipher_suite_name = (\<lambda>_. []), ee_hostname = None, ee_environ = []\<rparr>"

definition plain_options :: echo_options where
  "plain_options = \<lparr>eo_jwt_header = [], eo_cookie_secret = [], eo_include_env = True, eo_proxies = None\<rparr>"

theorem env_secrets_invisible_witness:
  "capture (plain_env\<lparr>ee_environ := [''VAULT_TOKEN=a'', ''HOME=/'', ''COOKIE_SECRET=x=1'']\<rparr>) plain_request [] False False plain_options
   = capture (plain_env\<lparr>ee_environ := [''VAULT_TOKEN=b'', ''HOME=/'', ''COOKIE_SECRET='']\<rparr>) plain_request [] False False plain_options"
  by (rule env_secrets_invisible) (auto simp: same_but_secret_def)

text \<open>
  The echoed headers: every request header is reported under its name, as a string when it has
  one value and as the list of its values otherwise, and \<open>Host\<close> is the request's host.
\<close>
theorem capture_headers_exact:
  "lookup (er_headers (capture env r body trunc is_tls opts)) k =
     (if k = ''Host'' \<and> r_host r \<noteq> [] then Some (Single (r_host r))
      else map_option (\<lambda>vs. if length vs = 1 then Single (hd vs) else Multi vs) (lookup (r_header r) k))"
proof -
  have "collapse vs = (if length vs = 1 then Single (hd vs) else Multi vs)" for vs
    by (simp add: collapse_def split: list.split)
  then show ?thesis
    by (simp add: capture_def Let_def capture_headers_def collapse_header_def)
qed

text \<open>
  The echoed query: a key is reported exactly when a well-formed pair of the query string has it, with the
  decoded values of those pairs in their order.
\<close>
theorem capture_query_exact:
  "lookup (er_query (capture env r body trunc is_tls opts)) k =
     (case [v. (k', v) \<leftarrow> List.map_filter query_pair (split_on CHR ''&'' (u_raw_query (r_url r))), k' = k] of
        [] \<Rightarrow> None | [v] \<Rightarrow> Some (Single v) | vs \<Rightarrow> Some (Multi vs))"
proof -
  define vs where "vs = [v. (k', v) \<leftarrow> List.map_filter query_pair (split_on CHR ''&'' (u_raw_query (r_url r))), k' = k]"
  have "lookup (er_query (capture env r body trunc is_tls opts)) k
      = map_option collapse (case vs of [] \<Rightarrow> None | vs \<Rightarrow> Some vs)"
    unfolding vs_def parse_query_lookup [symmetric]
    by (simp add: capture_def Let_def collapse_values_def)
  then show ?thesis
    unfolding vs_def [symmetric] by (simp add: collapse_def split: list.split)
qed

lemma nums_ok_fields:
  "nums_ok_members (str_field k s)" "nums_ok_members (strs_field k vs)"
  "nums_ok_members (any_field k v) \<longleftrightarrow> json_nums_ok v"
  "nums_ok_members (opt_field k f x) \<longleftrightarrow> (\<forall>y. x = Some y \<longrightarrow> nums_ok_members (f y))"
  by (auto simp: str_field_def strs_field_def any_field_def opt_field_def nums_ok_items_iff split: option.split)

lemma nums_ok_map_field:
  "(\<And>v. json_nums_ok (f v)) \<Longrightarrow> nums_ok_members (map_field k f m)"
  by (auto simp: map_field_def json_map_def nums_ok_members_iff)

lemma nums_ok_collapsed: "json_nums_ok (collapsed_json c)"
  by (cases c) (auto simp: nums_ok_items_iff)

lemma nums_ok_append: "nums_ok_members (xs @ ys) \<longleftrightarrow> nums_ok_members xs \<and> nums_ok_members ys"
  by (auto simp: nums_ok_members_iff)

lemma decode_jwt_nums:
  assumes "decode_jwt unm s = Some j" "\<And>b v. unm b = Some v \<Longrightarrow> json_nums_ok v"
  shows "json_nums_ok (j_header j) \<and> json_nums_ok (j_payload j)"
proof -
  have "json_nums_ok (decode_segment unm seg)" for seg
    using assms(2) by (auto simp: decode_segment_def split: option.split)
  with assms(1) show ?thesis
    by (auto simp: decode_jwt_def Let_def split: if_splits)
qed

text \<open>
  C39: No markup is reflected: whatever the request holds, the rendered echo contains none of the characters
  that start a tag, end one or start an entity. The JSON parser's numbers must be printed without them.
\<close>
theorem rendered_echo_no_markup:
  assumes "\<And>b v. ee_unmarshal env b = Some v \<Longrightarrow> json_nums_ok v"
  shows "no_markup (render_response (capture env r body trunc is_tls opts))"
proof -
  let ?e = "capture env r body trunc is_tls opts"
  have j: "json_nums_ok (er_json ?e)"
    using assms by (auto simp: capture_def Let_def split: option.split)
  have t: "\<forall>j. er_jwt ?e = Some j \<longrightarrow> json_nums_ok (j_header j) \<and> json_nums_ok (j_payload j)"
    using decode_jwt_nums assms by (auto simp: capture_def Let_def split: if_splits)
  have "nums_ok_members (response_fields ?e)"
    unfolding response_fields_def
    by (simp add: nums_ok_append nums_ok_fields nums_ok_map_field nums_ok_collapsed jwt_fields_def
        connection_fields_def client_cert_fields_def j t)
  then have "no_markup (json_indent 0 (JObj (response_fields ?e)))"
    by (intro json_indent_markup) simp
  then show ?thesis
    by (simp add: render_response_def)
qed

theorem rendered_echo_no_markup_witness:
  "no_markup (render_response (capture plain_env (plain_request\<lparr>r_host := ''<script>''\<rparr>) ''<b>&amp;'' False True plain_options))"
  by (rule rendered_echo_no_markup) (auto simp: plain_env_def)

lemma drop_no_brackets:
  "CHR ''['' \<notin> set t \<Longrightarrow> CHR '']'' \<notin> set t \<Longrightarrow> dropWhile (\<lambda>c. c \<in> {CHR ''['', CHR '']''}) t = t"
  by (cases t) auto

lemma trim_no_brackets:
  "CHR ''['' \<notin> set s \<Longrightarrow> CHR '']'' \<notin> set s \<Longrightarrow> trim_set s {CHR ''['', CHR '']''} = s"
  using drop_no_brackets [of s] drop_no_brackets [of "rev s"]
  by (simp add: trim_set_def trim_right_set_def)

lemma trim_brackets:
  assumes "CHR ''['' \<notin> set s" "CHR '']'' \<notin> set s"
  shows "trim_set (''['' @ s @ '']'') {CHR ''['', CHR '']''} = s"
proof (cases s)
  case Nil
  then show ?thesis by (simp add: trim_set_def trim_right_set_def)
next
  case (Cons x xs)
  with assms drop_no_brackets [of s] have "dropWhile (\<lambda>c. c \<in> {CHR ''['', CHR '']''}) (''['' @ s @ '']'') = s @ '']''"
    by auto
  then show ?thesis
    using drop_no_brackets [of "rev s"] assms by (simp add: trim_set_def trim_right_set_def)
qed

lemma last_index_less: "last_index c s = Some i \<Longrightarrow> i < length s"
  by (induction s arbitrary: i) (auto split: option.splits if_splits)

lemma bracketed_no_port:
  assumes "CHR '']'' \<notin> set a"
  shows "split_host_port (''['' @ a @ '']'') = None"
proof (cases "last_index CHR '':'' (''['' @ a @ '']'')")
  case None
  then show ?thesis by (simp add: split_host_port_def)
next
  case (Some i)
  then have "i < length (''['' @ a @ '']'')"
    by (rule last_index_less)
  moreover have "index_of CHR '']'' (''['' @ a @ '']'') = Some (length a + 1)"
    using index_of_append [of "CHR '']''" "''['' @ a" "[]"] assms by simp
  ultimately show ?thesis
    using Some by (simp add: split_host_port_def)
qed

text \<open>
  The host name: a host name or address without its port, in every form a \<open>Host\<close> header has.
\<close>
theorem strip_port_forms:
  assumes "CHR '':'' \<notin> set h" "CHR ''['' \<notin> set h" "CHR '']'' \<notin> set h"
    and "CHR ''['' \<notin> set a" "CHR '']'' \<notin> set a"
    and "CHR '':'' \<notin> set p" "CHR ''['' \<notin> set p" "CHR '']'' \<notin> set p"
  shows "strip_port h = h \<and> strip_port (h @ '':'' @ p) = h \<and>
    strip_port (''['' @ a @ '']:'' @ p) = a \<and> strip_port (''['' @ a @ '']'') = a"
proof -
  have "split_host_port h = None"
    using assms(1) by (simp add: split_host_port_def)
  then have "strip_port h = h"
    by (simp add: strip_port_def trim_no_brackets [OF assms(2,3)])
  moreover have "strip_port (h @ '':'' @ p) = h"
    using split_host_port_plain [OF assms(1-3,6-8)] by (simp add: strip_port_def)
  moreover have "strip_port (''['' @ a @ '']:'' @ p) = a"
    using split_host_port_bracket [OF assms(4,5,6-8)] by (simp add: strip_port_def)
  moreover have "strip_port (''['' @ a @ '']'') = a"
    using trim_brackets [OF assms(4,5)] bracketed_no_port [OF assms(5)] by (simp add: strip_port_def)
  ultimately show ?thesis by simp
qed

theorem strip_port_forms_witness:
  "strip_port ''example.org'' = ''example.org'' \<and> strip_port (''example.org'' @ '':'' @ ''8443'') = ''example.org'' \<and>
   strip_port (''['' @ ''2001:db8::1'' @ '']:'' @ ''8443'') = ''2001:db8::1'' \<and>
   strip_port (''['' @ ''2001:db8::1'' @ '']'') = ''2001:db8::1''"
  by (rule strip_port_forms) simp_all

end
