(* ===== verification/Config.thy ===== *)
theory Config
  imports Proxies
begin

text \<open>
  \<open>internal/config/config.go\<close>: the configuration record, the flags with their defaults, and
  \<open>Validate\<close>. The flag parser and viper, which merges flags, environment, file and defaults, are
  third-party code: \<open>loader\<close> holds what \<open>Load\<close> asks of them. Regular expressions and
  URLs are parsed by arguments (\<open>cfg_env\<close>); a compiled expression is its matching function.
  Durations are nanoseconds.
\<close>

section \<open>The configuration\<close>

record config =
  c_http_enabled :: bool
  c_http_port :: int
  c_https_enabled :: bool
  c_https_port :: int
  c_bind_address :: string
  c_shutdown_timeout :: int
  c_http2_enabled :: bool
  c_http2_h2c_enabled :: bool
  c_tls_mode :: string
  c_https_cert_file :: string
  c_https_key_file :: string
  c_tls_ca_cert_file :: string
  c_tls_ca_key_file :: string
  c_tls_ca_print :: bool
  c_tls_ca_endpoint :: string
  c_tls_cert_ttl :: int
  c_tls_cert_cache_size :: int
  c_mtls_enable :: bool
  c_vault_addr :: string
  c_vault_token :: string
  c_vault_namespace :: string
  c_vault_pki_mount :: string
  c_vault_pki_role :: string
  c_vault_pki_ttl :: int
  c_vault_cacert :: string
  c_vault_skip_verify :: bool
  c_echo_back_to_client :: bool
  c_echo_include_env_vars :: bool
  c_jwt_header :: string
  c_override_response_body_file_path :: string
  c_max_header_size :: int
  c_max_body_size :: int
  c_cookie_secret :: string
  c_ws_enabled :: bool
  c_forward_url :: string
  c_forward_preserve_host :: bool
  c_forward_timeout :: int
  c_forward_skip_verify :: bool
  c_verbose :: bool
  c_additional_trusted_proxies :: string
  c_cors_allow_origin :: string
  c_cors_allow_methods :: string
  c_cors_allow_headers :: string
  c_cors_allow_credentials :: bool
  c_log_level :: string
  c_log_format :: string
  c_disable_request_logs :: bool
  c_log_ignore_path :: string
  c_prometheus_enabled :: bool
  c_prometheus_metrics_path :: string
  c_prometheus_with_path :: bool
  c_prometheus_with_method :: bool
  c_prometheus_with_status :: bool
  c_prometheus_metric_type :: string
  c_show_version :: bool
  c_config_file :: string
  c_log_ignore_regexps :: "(string \<Rightarrow> bool) list"
  c_forward_target :: "url option"
  c_extra_trusted_proxies :: "prefix list"

definition tls_mode_static :: string where "tls_mode_static = ''static''"
definition tls_mode_auto :: string where "tls_mode_auto = ''auto''"
definition tls_mode_vault :: string where "tls_mode_vault = ''vault''"

definition max_delay_ms :: int where "max_delay_ms = 120000"

definition second :: int where "second = 1000000000"
definition hour :: int where "hour = 3600 * second"

definition env_name :: "string \<Rightarrow> string" where
  "env_name flag = ascii_upper (map (\<lambda>c. if c = CHR ''-'' then CHR ''_'' else c) flag)"

datatype flag_value = FBool bool | FInt int | FInt64 int | FString string | FDuration int

text \<open>The flag set: names and defaults, in the order of the declarations (the help texts are left out).\<close>

definition new_flag_set :: "(string \<times> flag_value) list" where
  "new_flag_set =
     [(''http-enabled'', FBool True),
      (''http-port'', FInt 8080),
      (''https-enabled'', FBool True),
      (''https-port'', FInt 8443),
      (''bind-address'', FString []),
      (''shutdown-timeout'', FDuration (10 * second)),
      (''http2-enabled'', FBool True),
      (''http2-h2c-enabled'', FBool True),
      (''tls-mode'', FString tls_mode_auto),
      (''https-cert-file'', FString []),
      (''https-key-file'', FString []),
      (''tls-ca-cert-file'', FString ''certs/ca.crt''),
      (''tls-ca-key-file'', FString ''certs/ca.key''),
      (''tls-ca-print'', FBool True),
      (''tls-ca-endpoint'', FString ''/ca''),
      (''tls-cert-ttl'', FDuration (8760 * hour)),
      (''tls-cert-cache-size'', FInt 128),
      (''mtls-enable'', FBool False),
      (''vault-addr'', FString []),
      (''vault-token'', FString []),
      (''vault-namespace'', FString []),
      (''vault-pki-mount'', FString ''pki''),
      (''vault-pki-role'', FString []),
      (''vault-pki-ttl'', FDuration (24 * hour)),
      (''vault-cacert'', FString []),
      (''vault-skip-verify'', FBool False),
      (''echo-back-to-client'', FBool True),
      (''echo-include-env-vars'', FBool False),
      (''jwt-header'', FString []),
      (''override-response-body-file-path'', FString []),
      (''max-header-size'', FInt 1048576),
      (''max-body-size'', FInt64 1048576),
      (''cookie-secret'', FString []),
      (''ws-enabled'', FBool True),
      (''forward-url'', FString []),
      (''forward-preserve-host'', FBool False),
      (''forward-timeout'', FDuration (30 * second)),
      (''forward-skip-verify'', FBool False),
      (''verbose'', FBool False),
      (''additional-trusted-proxies'', FString []),
      (''cors-allow-origin'', FString []),
      (''cors-allow-methods'', FString []),
      (''cors-allow-headers'', FString []),
      (''cors-allow-credentials'', FBool False),
      (''log-level'', FString ''info''),
      (''log-format'', FString ''json''),
      (''disable-request-logs'', FBool False),
      (''log-ignore-path'', FString []),
      (''prometheus-enabled'', FBool False),
      (''prometheus-metrics-path'', FString ''/metrics''),
      (''prometheus-with-path'', FBool False),
      (''prometheus-with-method'', FBool True),
      (''prometheus-with-status'', FBool True),
      (''prometheus-metric-type'', FString ''summary''),
      (''config'', FString []),
      (''version'', FBool False)]"

text \<open>The flags bound to environment variables, with the variable of each.\<close>

definition env_bindings :: "(string \<times> string) list" where
  "env_bindings =
     map (\<lambda>(name, _). (name, env_name name))
       (filter (\<lambda>(name, _). \<not> (name = ''config'' \<or> name = ''version'' \<or> name = ''help'')) new_flag_set)"

section \<open>Validation\<close>

datatype config_error =
    NoListener
  | PortRange string int
  | StaticNeedsFiles
  | VaultNeedsSettings
  | BadVaultAddr string
  | BadTlsMode string
  | NotPositive string
  | NoLeadingSlash string
  | BadLogLevel string
  | BadLogFormat string
  | BadMetricType string
  | BadIgnoreRegexp string string
  | BadForwardUrl string
  | BadTrustedProxy string

record cfg_env =
  ce_url_parse :: "string \<Rightarrow> string + url"
  ce_regexp :: "string \<Rightarrow> string + (string \<Rightarrow> bool)"

definition split_non_empty :: "string \<Rightarrow> string list" where
  "split_non_empty s = filter (\<lambda>p. p \<noteq> []) (map trim_space (split_on CHR '','' s))"

definition valid_port :: "string \<Rightarrow> int \<Rightarrow> config_error option" where
  "valid_port name port = (if port < 0 \<or> 65535 < port then Some (PortRange name port) else None)"

definition parse_http_url :: "cfg_env \<Rightarrow> string \<Rightarrow> string + url" where
  "parse_http_url env raw =
     (case ce_url_parse env raw of
        Inl e \<Rightarrow> Inl e
      | Inr u \<Rightarrow>
          if (u_scheme u \<noteq> ''http'' \<and> u_scheme u \<noteq> ''https'') \<or> u_host u = []
          then Inl (raw @ '' is not an absolute http(s) URL'') else Inr u)"

definition parse_ip_or_cidr :: "string \<Rightarrow> prefix option" where
  "parse_ip_or_cidr s =
     (case parse_prefix s of
        Some p \<Rightarrow> Some p
      | None \<Rightarrow> (case parse_addr s of None \<Rightarrow> None | Some a \<Rightarrow> Some (prefix_from a (bit_len a))))"

definition tls_mode_error :: "cfg_env \<Rightarrow> config \<Rightarrow> config_error option" where
  "tls_mode_error env c =
     (if c_tls_mode c = tls_mode_static then
        (if c_https_cert_file c = [] \<or> c_https_key_file c = [] then Some StaticNeedsFiles else None)
      else if c_tls_mode c = tls_mode_auto then None
      else if c_tls_mode c = tls_mode_vault then
        (if c_vault_addr c = [] \<or> c_vault_token c = [] \<or> c_vault_pki_role c = [] then Some VaultNeedsSettings
         else (case parse_http_url env (c_vault_addr c) of Inl e \<Rightarrow> Some (BadVaultAddr e) | Inr _ \<Rightarrow> None))
      else Some (BadTlsMode (c_tls_mode c)))"

definition positive :: "string \<Rightarrow> int \<Rightarrow> config_error option" where
  "positive name n = (if n \<le> 0 then Some (NotPositive name) else None)"

definition checks :: "cfg_env \<Rightarrow> config \<Rightarrow> config_error option list" where
  "checks env c =
     [if \<not> c_http_enabled c \<and> \<not> c_https_enabled c then Some NoListener else None,
      valid_port ''HTTP_PORT'' (c_http_port c),
      valid_port ''HTTPS_PORT'' (c_https_port c),
      tls_mode_error env c,
      positive ''MAX_HEADER_SIZE'' (c_max_header_size c),
      positive ''MAX_BODY_SIZE'' (c_max_body_size c),
      positive ''TLS_CERT_CACHE_SIZE'' (c_tls_cert_cache_size c),
      positive ''TLS_CERT_TTL'' (c_tls_cert_ttl c),
      positive ''VAULT_PKI_TTL'' (c_vault_pki_ttl c),
      positive ''SHUTDOWN_TIMEOUT'' (c_shutdown_timeout c),
      positive ''FORWARD_TIMEOUT'' (c_forward_timeout c),
      if c_tls_ca_endpoint c \<noteq> [] \<and> \<not> has_prefix (c_tls_ca_endpoint c) ''/'' then Some (NoLeadingSlash ''TLS_CA_ENDPOINT'') else None,
      if \<not> has_prefix (c_prometheus_metrics_path c) ''/'' then Some (NoLeadingSlash ''PROMETHEUS_METRICS_PATH'') else None,
      if c_log_level c \<notin> set [''debug'', ''info'', ''warn'', ''error''] then Some (BadLogLevel (c_log_level c)) else None,
      if c_log_format c \<notin> set [''json'', ''console''] then Some (BadLogFormat (c_log_format c)) else None,
      if c_prometheus_metric_type c \<notin> set [''summary'', ''histogram''] then Some (BadMetricType (c_prometheus_metric_type c)) else None]"

definition compile_ignore :: "cfg_env \<Rightarrow> string \<Rightarrow> config_error + (string \<Rightarrow> bool)" where
  "compile_ignore env expr =
     (case ce_regexp env expr of Inl e \<Rightarrow> Inl (BadIgnoreRegexp expr e) | Inr re \<Rightarrow> Inr re)"

definition forward_target_of :: "cfg_env \<Rightarrow> string \<Rightarrow> config_error + url option" where
  "forward_target_of env raw =
     (if raw \<noteq> [] then
        (case parse_http_url env raw of Inl e \<Rightarrow> Inl (BadForwardUrl e) | Inr u \<Rightarrow> Inr (Some u))
      else Inr None)"

definition trusted_entry :: "string \<Rightarrow> config_error + prefix" where
  "trusted_entry entry =
     (case parse_ip_or_cidr entry of None \<Rightarrow> Inl (BadTrustedProxy entry) | Some p \<Rightarrow> Inr p)"

definition validate :: "cfg_env \<Rightarrow> config \<Rightarrow> config_error + config" where
  "validate env c =
     (case first_error (checks env c) of
        Some e \<Rightarrow> Inl e
      | None \<Rightarrow>
          (case try_map (compile_ignore env) (split_non_empty (c_log_ignore_path c)) of
             Inl e \<Rightarrow> Inl e
           | Inr res \<Rightarrow>
               (case forward_target_of env (c_forward_url c) of
                  Inl e \<Rightarrow> Inl e
                | Inr target \<Rightarrow>
                    (case try_map trusted_entry (split_non_empty (c_additional_trusted_proxies c)) of
                       Inl e \<Rightarrow> Inl e
                     | Inr trust \<Rightarrow>
                         Inr (c\<lparr>c_log_ignore_regexps := res, c_forward_target := target,
                                c_extra_trusted_proxies := trust\<rparr>)))))"

section \<open>Loading\<close>

text \<open>
  What the command line gives: the explicitly set flags, and the two that are read from the flag
  set directly. \<open>ld_decode\<close> is viper's merge and decoding of the flags, the bound environment
  variables and the file that was read.
\<close>

record parsed_flags =
  pf_set :: "(string \<times> flag_value) list"
  pf_config :: string
  pf_version :: bool

datatype load_error =
    FlagError string
  | BindError string
  | ReadConfigError string
  | DecodeError string
  | ValidationError config_error

record loader =
  ld_parse :: "(string \<times> flag_value) list \<Rightarrow> string list \<Rightarrow> string + parsed_flags"
  ld_bind :: "parsed_flags \<Rightarrow> string option"
  ld_read_config :: "string \<Rightarrow> string + bytes"
  ld_decode :: "parsed_flags \<Rightarrow> (string \<times> string) list \<Rightarrow> bytes option \<Rightarrow> string + config"

definition load :: "loader \<Rightarrow> cfg_env \<Rightarrow> string list \<Rightarrow> load_error + config" where
  "load ld env args =
     (case ld_parse ld new_flag_set args of
        Inl e \<Rightarrow> Inl (FlagError e)
      | Inr fs \<Rightarrow>
          (case ld_bind ld fs of
             Some e \<Rightarrow> Inl (BindError e)
           | None \<Rightarrow>
               (case (if pf_config fs \<noteq> [] then map_sum id Some (ld_read_config ld (pf_config fs)) else Inr None) of
                  Inl e \<Rightarrow> Inl (ReadConfigError e)
                | Inr file \<Rightarrow>
                    (case ld_decode ld fs env_bindings file of
                       Inl e \<Rightarrow> Inl (DecodeError e)
                     | Inr cfg0 \<Rightarrow>
                         (let cfg = cfg0\<lparr>c_show_version := pf_version fs, c_config_file := pf_config fs\<rparr> in
                          if c_show_version cfg then Inr cfg
                          else map_sum ValidationError id (validate env cfg))))))"

section \<open>The defaults\<close>

definition flag_bool :: "string \<Rightarrow> bool" where
  "flag_bool n = (case map_of new_flag_set n of Some (FBool b) \<Rightarrow> b | _ \<Rightarrow> False)"

definition flag_int :: "string \<Rightarrow> int" where
  "flag_int n = (case map_of new_flag_set n of
      Some (FInt i) \<Rightarrow> i | Some (FInt64 i) \<Rightarrow> i | Some (FDuration d) \<Rightarrow> d | _ \<Rightarrow> 0)"

definition flag_string :: "string \<Rightarrow> string" where
  "flag_string n = (case map_of new_flag_set n of Some (FString s) \<Rightarrow> s | _ \<Rightarrow> [])"

text \<open>The record every field of which has the default of the flag its tag names.\<close>

definition default_config :: config where
  "default_config =
     \<lparr>c_http_enabled = flag_bool ''http-enabled'',
      c_http_port = flag_int ''http-port'',
      c_https_enabled = flag_bool ''https-enabled'',
      c_https_port = flag_int ''https-port'',
      c_bind_address = flag_string ''bind-address'',
      c_shutdown_timeout = flag_int ''shutdown-timeout'',
      c_http2_enabled = flag_bool ''http2-enabled'',
      c_http2_h2c_enabled = flag_bool ''http2-h2c-enabled'',
      c_tls_mode = flag_string ''tls-mode'',
      c_https_cert_file = flag_string ''https-cert-file'',
      c_https_key_file = flag_string ''https-key-file'',
      c_tls_ca_cert_file = flag_string ''tls-ca-cert-file'',
      c_tls_ca_key_file = flag_string ''tls-ca-key-file'',
      c_tls_ca_print = flag_bool ''tls-ca-print'',
      c_tls_ca_endpoint = flag_string ''tls-ca-endpoint'',
      c_tls_cert_ttl = flag_int ''tls-cert-ttl'',
      c_tls_cert_cache_size = flag_int ''tls-cert-cache-size'',
      c_mtls_enable = flag_bool ''mtls-enable'',
      c_vault_addr = flag_string ''vault-addr'',
      c_vault_token = flag_string ''vault-token'',
      c_vault_namespace = flag_string ''vault-namespace'',
      c_vault_pki_mount = flag_string ''vault-pki-mount'',
      c_vault_pki_role = flag_string ''vault-pki-role'',
      c_vault_pki_ttl = flag_int ''vault-pki-ttl'',
      c_vault_cacert = flag_string ''vault-cacert'',
      c_vault_skip_verify = flag_bool ''vault-skip-verify'',
      c_echo_back_to_client = flag_bool ''echo-back-to-client'',
      c_echo_include_env_vars = flag_bool ''echo-include-env-vars'',
      c_jwt_header = flag_string ''jwt-header'',
      c_override_response_body_file_path = flag_string ''override-response-body-file-path'',
      c_max_header_size = flag_int ''max-header-size'',
      c_max_body_size = flag_int ''max-body-size'',
      c_cookie_secret = flag_string ''cookie-secret'',
      c_ws_enabled = flag_bool ''ws-enabled'',
      c_forward_url = flag_string ''forward-url'',
      c_forward_preserve_host = flag_bool ''forward-preserve-host'',
      c_forward_timeout = flag_int ''forward-timeout'',
      c_forward_skip_verify = flag_bool ''forward-skip-verify'',
      c_verbose = flag_bool ''verbose'',
      c_additional_trusted_proxies = flag_string ''additional-trusted-proxies'',
      c_cors_allow_origin = flag_string ''cors-allow-origin'',
      c_cors_allow_methods = flag_string ''cors-allow-methods'',
      c_cors_allow_headers = flag_string ''cors-allow-headers'',
      c_cors_allow_credentials = flag_bool ''cors-allow-credentials'',
      c_log_level = flag_string ''log-level'',
      c_log_format = flag_string ''log-format'',
      c_disable_request_logs = flag_bool ''disable-request-logs'',
      c_log_ignore_path = flag_string ''log-ignore-path'',
      c_prometheus_enabled = flag_bool ''prometheus-enabled'',
      c_prometheus_metrics_path = flag_string ''prometheus-metrics-path'',
      c_prometheus_with_path = flag_bool ''prometheus-with-path'',
      c_prometheus_with_method = flag_bool ''prometheus-with-method'',
      c_prometheus_with_status = flag_bool ''prometheus-with-status'',
      c_prometheus_metric_type = flag_string ''prometheus-metric-type'',
      c_show_version = False,
      c_config_file = [],
      c_log_ignore_regexps = [],
      c_forward_target = None,
      c_extra_trusted_proxies = []\<rparr>"

section \<open>Properties\<close>

text \<open>What the rest of the program relies on.\<close>

definition config_ok :: "config \<Rightarrow> bool" where
  "config_ok c \<longleftrightarrow>
     (c_http_enabled c \<or> c_https_enabled c) \<and>
     0 \<le> c_http_port c \<and> c_http_port c \<le> 65535 \<and> 0 \<le> c_https_port c \<and> c_https_port c \<le> 65535 \<and>
     c_tls_mode c \<in> {tls_mode_static, tls_mode_auto, tls_mode_vault} \<and>
     (c_tls_mode c = tls_mode_static \<longrightarrow> c_https_cert_file c \<noteq> [] \<and> c_https_key_file c \<noteq> []) \<and>
     (c_tls_mode c = tls_mode_vault \<longrightarrow> c_vault_addr c \<noteq> [] \<and> c_vault_token c \<noteq> [] \<and> c_vault_pki_role c \<noteq> []) \<and>
     0 < c_max_header_size c \<and> 0 < c_max_body_size c \<and> 0 < c_tls_cert_cache_size c \<and>
     0 < c_tls_cert_ttl c \<and> 0 < c_vault_pki_ttl c \<and> 0 < c_shutdown_timeout c \<and> 0 < c_forward_timeout c \<and>
     (c_tls_ca_endpoint c = [] \<or> hd (c_tls_ca_endpoint c) = CHR ''/'') \<and>
     c_prometheus_metrics_path c \<noteq> [] \<and> hd (c_prometheus_metrics_path c) = CHR ''/'' \<and>
     c_log_level c \<in> {''debug'', ''info'', ''warn'', ''error''} \<and>
     c_log_format c \<in> {''json'', ''console''} \<and>
     c_prometheus_metric_type c \<in> {''summary'', ''histogram''}"

text \<open>The parts of a configuration that other parsers must accept.\<close>

definition texts_ok :: "cfg_env \<Rightarrow> config \<Rightarrow> bool" where
  "texts_ok env c \<longleftrightarrow>
     (c_tls_mode c = tls_mode_vault \<longrightarrow> (\<exists>u. parse_http_url env (c_vault_addr c) = Inr u)) \<and>
     (\<forall>e \<in> set (split_non_empty (c_log_ignore_path c)). \<exists>re. ce_regexp env e = Inr re) \<and>
     (c_forward_url c \<noteq> [] \<longrightarrow> (\<exists>u. parse_http_url env (c_forward_url c) = Inr u)) \<and>
     (\<forall>e \<in> set (split_non_empty (c_additional_trusted_proxies c)). parse_ip_or_cidr e \<noteq> None)"

lemma has_prefix_slash: "has_prefix s ''/'' \<longleftrightarrow> s \<noteq> [] \<and> hd s = CHR ''/''"
  by (cases s) (auto simp: has_prefix_def)

lemma tls_modes_distinct:
  "tls_mode_static \<noteq> tls_mode_auto" "tls_mode_static \<noteq> tls_mode_vault" "tls_mode_auto \<noteq> tls_mode_vault"
  by (simp_all add: tls_mode_static_def tls_mode_auto_def tls_mode_vault_def)

lemma tls_mode_error_None:
  "tls_mode_error env c = None \<longleftrightarrow>
     c_tls_mode c \<in> {tls_mode_static, tls_mode_auto, tls_mode_vault} \<and>
     (c_tls_mode c = tls_mode_static \<longrightarrow> c_https_cert_file c \<noteq> [] \<and> c_https_key_file c \<noteq> []) \<and>
     (c_tls_mode c = tls_mode_vault \<longrightarrow> (c_vault_addr c \<noteq> [] \<and> c_vault_token c \<noteq> [] \<and> c_vault_pki_role c \<noteq> [])
        \<and> (\<exists>u. parse_http_url env (c_vault_addr c) = Inr u))"
  using tls_modes_distinct by (auto simp: tls_mode_error_def split: sum.splits)

lemma check_None:
  "((if P then Some x else None) = None) \<longleftrightarrow> \<not> P"
  "valid_port n p = None \<longleftrightarrow> 0 \<le> p \<and> p \<le> 65535"
  "positive n i = None \<longleftrightarrow> 0 < i"
  by (auto simp: valid_port_def positive_def)

lemma checks_pass:
  "first_error (checks env c) = None \<longleftrightarrow>
     config_ok c \<and> (c_tls_mode c = tls_mode_vault \<longrightarrow> (\<exists>u. parse_http_url env (c_vault_addr c) = Inr u))"
proof -
  have absorb: "p \<or> (\<not> p \<and> q) \<longleftrightarrow> p \<or> q" for p q
    by blast
  have some_listener: "\<not> (\<not> p \<and> \<not> q) \<longleftrightarrow> p \<or> q" for p q
    by blast
  show ?thesis
    unfolding first_error_None checks_def list.pred_inject tls_mode_error_None check_None has_prefix_slash
      config_ok_def list.set insert_iff empty_iff not_not some_listener
    by (simp only: list.pred_inject(1) simp_thms imp_conjR conj_ac de_Morgan_conj absorb)
qed

text \<open>
  C40: Validation accepts a configuration exactly when its settings satisfy the documented
  constraints and its texts parse.
\<close>
theorem validate_accepts_iff:
  "(\<exists>c'. validate env c = Inr c') = (config_ok c \<and> texts_ok env c)"
proof -
  have re: "(\<exists>rs. try_map (compile_ignore env) es = Inr rs) \<longleftrightarrow> (\<forall>e \<in> set es. \<exists>re. ce_regexp env e = Inr re)" for es
    unfolding try_map_total by (rule ball_cong [OF refl]) (simp add: compile_ignore_def split: sum.split)
  have tr: "(\<exists>ps. try_map trusted_entry es = Inr ps) \<longleftrightarrow> (\<forall>e \<in> set es. parse_ip_or_cidr e \<noteq> None)" for es
    unfolding try_map_total by (auto simp: trusted_entry_def split: option.splits)
  have fw: "(\<exists>t. forward_target_of env raw = Inr t) \<longleftrightarrow> (raw \<noteq> [] \<longrightarrow> (\<exists>u. parse_http_url env raw = Inr u))" for raw
    by (auto simp: forward_target_of_def split: sum.splits)
  have "(\<exists>c'. validate env c = Inr c') \<longleftrightarrow>
     first_error (checks env c) = None \<and>
     (\<exists>rs. try_map (compile_ignore env) (split_non_empty (c_log_ignore_path c)) = Inr rs) \<and>
     (\<exists>t. forward_target_of env (c_forward_url c) = Inr t) \<and>
     (\<exists>ps. try_map trusted_entry (split_non_empty (c_additional_trusted_proxies c)) = Inr ps)"
    by (auto simp: validate_def split: option.splits sum.splits)
  then show ?thesis
    unfolding checks_pass re tr fw texts_ok_def by blast
qed

lemma validate_result:
  assumes "validate env c = Inr c'"
  obtains res target trust where
    "first_error (checks env c) = None"
    "try_map (compile_ignore env) (split_non_empty (c_log_ignore_path c)) = Inr res"
    "forward_target_of env (c_forward_url c) = Inr target"
    "try_map trusted_entry (split_non_empty (c_additional_trusted_proxies c)) = Inr trust"
    "c' = c\<lparr>c_log_ignore_regexps := res, c_forward_target := target, c_extra_trusted_proxies := trust\<rparr>"
  using assms by (auto simp: validate_def split: option.splits sum.splits)

lemma checks_derived [simp]:
  "checks env (c\<lparr>c_log_ignore_regexps := res, c_forward_target := target, c_extra_trusted_proxies := trust\<rparr>)
     = checks env c"
  by (simp add: checks_def tls_mode_error_def)

lemma config_ok_derived [simp]:
  "config_ok (c\<lparr>c_log_ignore_regexps := res, c_forward_target := target, c_extra_trusted_proxies := trust\<rparr>)
     = config_ok c"
  by (simp add: config_ok_def)

lemma validate_idem: "validate env c = Inr c' \<Longrightarrow> validate env c' = Inr c'"
  by (erule validate_result) (simp add: validate_def)

lemma validate_config_ok: "validate env c = Inr c' \<Longrightarrow> config_ok c'"
  by (erule validate_result) (simp add: checks_pass)

text \<open>
  What validation establishes: an accepted configuration satisfies the constraints, is accepted again
  unchanged, has a forward target exactly when a forward URL is set (an absolute http or https one), one matcher
  per ignore expression and one trusted prefix per proxy entry, in their order.
\<close>
theorem validate_establishes:
  assumes "validate env c = Inr c'"
  shows "config_ok c' \<and> validate env c' = Inr c' \<and>
    (case c_forward_target c' of
       None \<Rightarrow> c_forward_url c' = []
     | Some u \<Rightarrow> c_forward_url c' \<noteq> [] \<and> u_scheme u \<in> {''http'', ''https''} \<and> u_host u \<noteq> []) \<and>
    list_all2 (\<lambda>e re. ce_regexp env e = Inr re)
      (split_non_empty (c_log_ignore_path c')) (c_log_ignore_regexps c') \<and>
    map Some (c_extra_trusted_proxies c') = map parse_ip_or_cidr (split_non_empty (c_additional_trusted_proxies c'))"
proof -
  from assms obtain res target trust where
    ok: "first_error (checks env c) = None" and
    res: "try_map (compile_ignore env) (split_non_empty (c_log_ignore_path c)) = Inr res" and
    target: "forward_target_of env (c_forward_url c) = Inr target" and
    trust: "try_map trusted_entry (split_non_empty (c_additional_trusted_proxies c)) = Inr trust" and
    c': "c' = c\<lparr>c_log_ignore_regexps := res, c_forward_target := target, c_extra_trusted_proxies := trust\<rparr>"
    by (rule validate_result)
  have "validate env c' = Inr c'" "config_ok c'"
    using validate_idem [OF assms] validate_config_ok [OF assms] by auto
  moreover have "case target of None \<Rightarrow> c_forward_url c = []
     | Some u \<Rightarrow> c_forward_url c \<noteq> [] \<and> u_scheme u \<in> {''http'', ''https''} \<and> u_host u \<noteq> []"
    using target by (auto simp: forward_target_of_def parse_http_url_def split: sum.splits if_splits)
  moreover have "list_all2 (\<lambda>e re. ce_regexp env e = Inr re) (split_non_empty (c_log_ignore_path c)) res"
    using res unfolding try_map_Inr_iff
    by (rule list_all2_mono) (simp add: compile_ignore_def split: sum.splits)
  moreover have "map Some trust = map parse_ip_or_cidr (split_non_empty (c_additional_trusted_proxies c))"
    using trust unfolding try_map_Inr_iff
    by (induction rule: list_all2_induct) (simp_all add: trusted_entry_def split: option.splits)
  ultimately show ?thesis
    unfolding c' by (simp cong: option.case_cong)
qed

lemma default_fields:
  "c_http_enabled default_config = flag_bool ''http-enabled''"
  "c_http_port default_config = flag_int ''http-port''"
  "c_https_port default_config = flag_int ''https-port''"
  "c_tls_mode default_config = flag_string ''tls-mode''"
  "c_https_cert_file default_config = flag_string ''https-cert-file''"
  "c_https_key_file default_config = flag_string ''https-key-file''"
  "c_vault_addr default_config = flag_string ''vault-addr''"
  "c_vault_token default_config = flag_string ''vault-token''"
  "c_vault_pki_role default_config = flag_string ''vault-pki-role''"
  "c_max_header_size default_config = flag_int ''max-header-size''"
  "c_max_body_size default_config = flag_int ''max-body-size''"
  "c_tls_cert_cache_size default_config = flag_int ''tls-cert-cache-size''"
  "c_tls_cert_ttl default_config = flag_int ''tls-cert-ttl''"
  "c_vault_pki_ttl default_config = flag_int ''vault-pki-ttl''"
  "c_shutdown_timeout default_config = flag_int ''shutdown-timeout''"
  "c_forward_timeout default_config = flag_int ''forward-timeout''"
  "c_tls_ca_endpoint default_config = flag_string ''tls-ca-endpoint''"
  "c_prometheus_metrics_path default_config = flag_string ''prometheus-metrics-path''"
  "c_log_level default_config = flag_string ''log-level''"
  "c_log_format default_config = flag_string ''log-format''"
  "c_prometheus_metric_type default_config = flag_string ''prometheus-metric-type''"
  "c_log_ignore_path default_config = flag_string ''log-ignore-path''"
  "c_forward_url default_config = flag_string ''forward-url''"
  "c_additional_trusted_proxies default_config = flag_string ''additional-trusted-proxies''"
  "c_log_ignore_regexps default_config = []" "c_forward_target default_config = None"
  "c_extra_trusted_proxies default_config = []"
  by (simp_all only: default_config_def config.simps)

lemma default_flags:
  "flag_bool ''http-enabled'' = True"
  "flag_int ''http-port'' = 8080"
  "flag_int ''https-port'' = 8443"
  "flag_string ''tls-mode'' = ''auto''"
  "flag_string ''https-cert-file'' = []"
  "flag_string ''https-key-file'' = []"
  "flag_string ''vault-addr'' = []"
  "flag_string ''vault-token'' = []"
  "flag_string ''vault-pki-role'' = []"
  "flag_int ''max-header-size'' = 1048576"
  "flag_int ''max-body-size'' = 1048576"
  "flag_int ''tls-cert-cache-size'' = 128"
  "flag_int ''tls-cert-ttl'' = 31536000000000000"
  "flag_int ''vault-pki-ttl'' = 86400000000000"
  "flag_int ''shutdown-timeout'' = 10000000000"
  "flag_int ''forward-timeout'' = 30000000000"
  "flag_string ''tls-ca-endpoint'' = ''/ca''"
  "flag_string ''prometheus-metrics-path'' = ''/metrics''"
  "flag_string ''log-level'' = ''info''"
  "flag_string ''log-format'' = ''json''"
  "flag_string ''prometheus-metric-type'' = ''summary''"
  "flag_string ''log-ignore-path'' = []"
  "flag_string ''forward-url'' = []"
  "flag_string ''additional-trusted-proxies'' = []"
  by (simp_all only: flag_bool_def flag_int_def flag_string_def new_flag_set_def map_of.simps fun_upd_apply
      fst_conv snd_conv) (simp_all add: second_def hour_def tls_mode_auto_def)

lemma default_checks: "first_error (checks env default_config) = None"
  unfolding checks_pass config_ok_def default_fields default_flags
  by (simp add: tls_mode_static_def tls_mode_auto_def tls_mode_vault_def)

lemma derived_same:
  "c_log_ignore_regexps c = res \<Longrightarrow> c_forward_target c = target \<Longrightarrow> c_extra_trusted_proxies c = trust \<Longrightarrow>
     c\<lparr>c_log_ignore_regexps := res, c_forward_target := target, c_extra_trusted_proxies := trust\<rparr> = c"
  by (cases c) simp

lemma defaults_valid_eq: "validate env default_config = Inr default_config"
proof -
  have "c_log_ignore_regexps default_config = []" "c_forward_target default_config = None"
    "c_extra_trusted_proxies default_config = []"
    by (simp_all only: default_fields)
  then have same: "default_config\<lparr>c_log_ignore_regexps := [], c_forward_target := None, c_extra_trusted_proxies := []\<rparr>
      = default_config"
    by (rule derived_same)
  then show ?thesis
    by (simp add: validate_def default_checks default_fields default_flags split_non_empty_def forward_target_of_def same)
qed

text \<open>
  The defaults are valid: with no flag, no environment variable and no file the configuration
  validates to itself, whatever the URL and expression parsers.
\<close>
theorem defaults_valid: "validate env default_config = Inr default_config"
  by (rule defaults_valid_eq)

theorem validate_establishes_witness:
  "config_ok default_config"
  using validate_establishes [OF defaults_valid_eq [of "\<lparr>ce_url_parse = Inl, ce_regexp = Inl\<rparr>"]] by blast

definition flag_byte :: "char \<Rightarrow> bool" where
  "flag_byte c \<longleftrightarrow> c \<in> set ''abcdefghijklmnopqrstuvwxyz0123456789-''"

definition env_byte :: "char \<Rightarrow> bool" where
  "env_byte c \<longleftrightarrow>
     (let n = of_char c :: nat in (65 \<le> n \<and> n \<le> 90) \<or> (48 \<le> n \<and> n \<le> 57) \<or> n = 95)"

definition env_char :: "char \<Rightarrow> char" where
  "env_char c = upper_ch (if c = CHR ''-'' then CHR ''_'' else c)"

lemma env_name_map: "env_name = map env_char"
  by (simp add: env_name_def ascii_upper_def env_char_def fun_eq_iff comp_def)

lemma flag_byte_code:
  "flag_byte c \<Longrightarrow>
     (97 \<le> (of_char c :: nat) \<and> (of_char c :: nat) \<le> 122) \<or> (48 \<le> (of_char c :: nat) \<and> (of_char c :: nat) \<le> 57)
     \<or> (of_char c :: nat) = 45"
  unfolding flag_byte_def by auto

lemma of_env_char:
  "(of_char (env_char c) :: nat) =
     (if 97 \<le> (of_char c :: nat) \<and> (of_char c :: nat) \<le> 122 then of_char c - 32
      else if (of_char c :: nat) = 45 then 95 else of_char c)"
proof -
  have "c = CHR ''-'' \<longleftrightarrow> (of_char c :: nat) = 45"
    using char_eqI [of c "CHR ''-''"] by auto
  then show ?thesis by (simp add: env_char_def of_char_upper)
qed

lemma env_code_inj:
  fixes x y :: nat
  assumes "(97 \<le> x \<and> x \<le> 122) \<or> (48 \<le> x \<and> x \<le> 57) \<or> x = 45"
    and "(97 \<le> y \<and> y \<le> 122) \<or> (48 \<le> y \<and> y \<le> 57) \<or> y = 45"
    and "(if 97 \<le> x \<and> x \<le> 122 then x - 32 else if x = 45 then 95 else x)
       = (if 97 \<le> y \<and> y \<le> 122 then y - 32 else if y = 45 then 95 else y)"
  shows "x = y"
  using assms by (auto split: if_splits)

lemma env_char_inj: "inj_on env_char {c. flag_byte c}"
proof (rule inj_onI)
  fix c d assume "c \<in> {c. flag_byte c}" "d \<in> {c. flag_byte c}" "env_char c = env_char d"
  then have "(of_char (env_char c) :: nat) = of_char (env_char d)" "flag_byte c" "flag_byte d" by auto
  then show "c = d"
    unfolding of_env_char
    by (intro char_eqI [OF env_code_inj [OF flag_byte_code flag_byte_code]])
qed

lemma env_char_byte: "flag_byte c \<Longrightarrow> env_byte (env_char c)"
  unfolding env_byte_def Let_def of_env_char by (drule flag_byte_code, elim disjE, simp_all, arith)

lemma env_name_bytes: "list_all flag_byte n \<Longrightarrow> list_all env_byte (env_name n)"
  by (auto simp: env_name_map list_all_iff env_char_byte)

lemma env_name_inj:
  "env_name a = env_name b \<Longrightarrow> list_all flag_byte a \<Longrightarrow> list_all flag_byte b \<Longrightarrow> a = b"
  unfolding env_name_map
  by (rule map_inj_on [OF _ inj_on_subset [OF env_char_inj]]) (auto simp: list_all_iff)

text \<open>
  Every flag but the two read directly has an environment variable of its own: the bindings have
  distinct flags and distinct variables, and each variable consists of upper case letters, digits and underscores.
\<close>
theorem env_bindings_distinct:
  "map fst env_bindings = filter (\<lambda>n. \<not> (n = ''config'' \<or> n = ''version'' \<or> n = ''help'')) (map fst new_flag_set) \<and>
   distinct (map fst env_bindings) \<and> distinct (map snd env_bindings) \<and>
   list_all (list_all env_byte) (map snd env_bindings)"
proof -
  have f: "map fst env_bindings = filter (\<lambda>n. \<not> (n = ''config'' \<or> n = ''version'' \<or> n = ''help'')) (map fst new_flag_set)"
    unfolding env_bindings_def filter_map comp_def map_map by (simp add: case_prod_unfold)
  have s: "map snd env_bindings = map env_name (map fst env_bindings)"
    by (simp add: env_bindings_def case_prod_unfold comp_def)
  have d: "distinct (map fst env_bindings)"
    unfolding f by (rule distinct_filter) code_simp
  have "list_all (list_all flag_byte) (map fst new_flag_set)"
    by code_simp
  then have b: "list_all flag_byte n" if "n \<in> set (map fst env_bindings)" for n
    using that unfolding f by (auto simp: list_all_iff)
  have "inj_on env_name (set (map fst env_bindings))"
    using b by (auto intro!: inj_onI dest: env_name_inj)
  with d have "distinct (map snd env_bindings)"
    by (metis s distinct_map)
  moreover have "list_all (list_all env_byte) (map snd env_bindings)"
    unfolding s list_all_iff [of "list_all env_byte"] using b env_name_bytes by auto
  ultimately show ?thesis
    using f d by simp
qed

lemma load_valid:
  assumes "load ld env args = Inr c"
  shows "c_show_version c \<or> (config_ok c \<and> validate env c = Inr c)"
proof (cases "c_show_version c")
  case False
  have "map_sum ValidationError id x = Inr c \<longleftrightarrow> x = Inr c" for x :: "config_error + config"
    by (cases x) auto
  with assms False obtain cfg0 where "validate env cfg0 = Inr c"
    by (auto simp: load_def Let_def split: sum.splits option.splits if_splits)
  then show ?thesis
    using validate_idem validate_config_ok by blast
qed simp

text \<open>
  Loading: a configuration that is loaded to run has passed validation; the only other result
  is the version request, for which nothing is validated.
\<close>
theorem load_validated:
  assumes "load ld env args = Inr c"
  shows "c_show_version c \<or> (config_ok c \<and> validate env c = Inr c)"
  using assms by (rule load_valid)

definition plain_loader :: loader where
  "plain_loader =
     \<lparr>ld_parse = (\<lambda>_ _. Inr \<lparr>pf_set = [], pf_config = [], pf_version = False\<rparr>), ld_bind = (\<lambda>_. None),
      ld_read_config = Inl, ld_decode = (\<lambda>_ _ _. Inr default_config)\<rparr>"

theorem load_validated_witness: "validate \<lparr>ce_url_parse = Inl, ce_regexp = Inl\<rparr> default_config = Inr default_config"
proof -
  have v: "c_show_version default_config = False"
    by (simp only: default_config_def config.simps)
  have same: "default_config\<lparr>c_show_version := False, c_config_file := []\<rparr> = default_config"
    by (simp only: default_config_def config.simps)
  have "load plain_loader \<lparr>ce_url_parse = Inl, ce_regexp = Inl\<rparr> [] = Inr default_config"
    by (simp add: load_def plain_loader_def same v defaults_valid_eq)
  from load_validated [OF this] v show ?thesis
    by simp
qed

section \<open>Trusted proxy entries\<close>

lemma prefix_from_full: "\<not> has_zone a \<Longrightarrow> prefix_contains (prefix_from a (bit_len a)) b \<longleftrightarrow> b = a"
  by (cases a; cases b) (auto simp: prefix_contains_def prefix_from_def without_zone_def bit_len_def
      has_zone_def xor_eq_0_iff_eq simp del: drop_bit_xor)

text \<open>
  An entry that is an address and not a range trusts exactly that address: the peers and hops
  whose address, an IPv4-mapped one reduced to IPv4, is the entry's.
\<close>
theorem single_proxy_entry:
  assumes "parse_prefix s = None" and "parse_addr s = Some a" and "\<not> has_zone a"
  shows "map_option (\<lambda>p. trusted [p] t) (parse_ip_or_cidr s) = Some (map_option unmap (parse_addr t) = Some a)"
  using assms
  by (auto simp: parse_ip_or_cidr_def trusted_iff prefix_from_full)

theorem single_proxy_entry_witness:
  "map_option (\<lambda>p. trusted [p] ''::ffff:203.0.113.7'') (parse_ip_or_cidr ''203.0.113.7'') = Some True"
proof -
  have "parse_prefix ''203.0.113.7'' = None" by code_simp
  moreover have "parse_addr ''203.0.113.7'' = Some (V4 0xCB007107)"
    by (simp add: go_eval)
  moreover have "map_option unmap (parse_addr ''::ffff:203.0.113.7'') = Some (V4 0xCB007107)"
    by (simp add: go_eval unmap_def)
  ultimately show ?thesis
    using single_proxy_entry [of "''203.0.113.7''" "V4 0xCB007107" "''::ffff:203.0.113.7''"]
    by (simp add: has_zone_def)
qed

text \<open>
  An IPv4-mapped entry is accepted and trusts nobody, not even the address it names: the checker
  reduces every address to IPv4 before it compares.
\<close>
theorem mapped_proxy_entry:
  "\<exists>p. parse_ip_or_cidr ''::ffff:203.0.113.7'' = Some p \<and> (\<forall>t. \<not> trusted [p] t)"
proof -
  have "parse_prefix ''::ffff:203.0.113.7'' = None" by code_simp
  moreover have a: "parse_addr ''::ffff:203.0.113.7'' = Some (V6 0xFFFFCB007107 [])"
    by (simp add: go_eval)
  ultimately have "parse_ip_or_cidr ''::ffff:203.0.113.7'' = Some (prefix_from (V6 0xFFFFCB007107 []) 128)"
    by (simp add: parse_ip_or_cidr_def bit_len_def)
  moreover have "\<not> trusted [prefix_from (V6 0xFFFFCB007107 []) 128] t" for t
    unfolding trusted_iff
    using mapped_prefix_never_matches [of "prefix_from (V6 0xFFFFCB007107 []) 128" "0xFFFFCB007107" "[]"]
    by (auto simp: prefix_from_def without_zone_def)
  ultimately show ?thesis by blast
qed

end
