(* ===== verification/Logging.thy ===== *)
theory Logging
  imports Config
begin

text \<open>
  \<open>internal/logging/logging.go\<close> and \<open>internal/version/version.go\<close>: the levels, the messages the
  program logs, the construction of the logger, and the version line. The logging library is not part of
  the program: its level parser and its \<open>Build\<close> are arguments, and so
  is \<open>%q\<close>, which rests on the Unicode tables.
\<close>

section \<open>Levels and messages\<close>

datatype level = Debug | Info | Warn | Error

instantiation level :: linorder
begin

fun level_rank :: "level \<Rightarrow> nat" where
  "level_rank Debug = 0"
| "level_rank Info = 1"
| "level_rank Warn = 2"
| "level_rank Error = 3"

definition less_eq_level :: "level \<Rightarrow> level \<Rightarrow> bool" where
  "a \<le> b \<longleftrightarrow> level_rank a \<le> level_rank b"

definition less_level :: "level \<Rightarrow> level \<Rightarrow> bool" where
  "a < b \<longleftrightarrow> level_rank a < level_rank b"

instance
proof
  fix a b :: level
  show "a \<le> b \<Longrightarrow> b \<le> a \<Longrightarrow> a = b"
    by (cases a; cases b) (simp_all add: less_eq_level_def)
qed (auto simp: less_eq_level_def less_level_def)

end

datatype log_field = FStr string | FInteger int | FBool bool

text \<open>A message: its level, its text and its fields. A duration or a time is a field of nanoseconds.\<close>

type_synonym message = "level \<times> string \<times> (string \<times> log_field) list"

section \<open>The logger\<close>

datatype encoding = ProductionJson | DevelopmentConsole

record logger =
  lg_level :: level
  lg_encoding :: encoding
  lg_color_levels :: bool
  lg_stacktrace :: bool

record log_env =
  le_parse_level :: "string \<Rightarrow> string + level"
  le_build :: "logger \<Rightarrow> string option"
  le_quote :: "string \<Rightarrow> string"

definition new_logger :: "log_env \<Rightarrow> string \<Rightarrow> string \<Rightarrow> string + logger" where
  "new_logger env lvl format =
     (case le_parse_level env lvl of
        Inl e \<Rightarrow> Inl (''invalid log level '' @ le_quote env lvl @ '': '' @ e)
      | Inr l \<Rightarrow>
          (case (if format = ''json'' then Some (ProductionJson, False)
                 else if format = ''console'' then Some (DevelopmentConsole, True) else None) of
             None \<Rightarrow> Inl (''invalid log format '' @ le_quote env format @ '': must be json or console'')
           | Some (enc, color) \<Rightarrow>
               (let cfg = \<lparr>lg_level = l, lg_encoding = enc, lg_color_levels = color, lg_stacktrace = False\<rparr>
                in case le_build env cfg of
                     Some e \<Rightarrow> Inl (''building logger: '' @ e)
                   | None \<Rightarrow> Inr cfg)))"

text \<open>The names the level parser is documented to take.\<close>

definition parses_levels :: "log_env \<Rightarrow> bool" where
  "parses_levels env \<longleftrightarrow>
     le_parse_level env ''debug'' = Inr Debug \<and> le_parse_level env ''info'' = Inr Info \<and>
     le_parse_level env ''warn'' = Inr Warn \<and> le_parse_level env ''error'' = Inr Error"

lemma new_logger_valid:
  assumes "config_ok c" "parses_levels env"
  shows "\<exists>cfg. new_logger env (c_log_level c) (c_log_format c)
     = (case le_build env cfg of Some e \<Rightarrow> Inl (''building logger: '' @ e) | None \<Rightarrow> Inr cfg) \<and>
    (lg_encoding cfg = ProductionJson \<longleftrightarrow> c_log_format c = ''json'') \<and> le_parse_level env (c_log_level c) = Inr (lg_level cfg)"
proof -
  have "c_log_level c \<in> {''debug'', ''info'', ''warn'', ''error''}" "c_log_format c \<in> {''json'', ''console''}"
    using assms(1) by (simp_all add: config_ok_def)
  then obtain l where l: "le_parse_level env (c_log_level c) = Inr l"
    using assms(2) by (auto simp: parses_levels_def)
  show ?thesis
  proof (cases "c_log_format c = ''json''")
    case True
    with l show ?thesis
      by (intro exI [of _ "\<lparr>lg_level = l, lg_encoding = ProductionJson, lg_color_levels = False, lg_stacktrace = False\<rparr>"])
        (simp add: new_logger_def Let_def)
  next
    case False
    with l \<open>c_log_format c \<in> {''json'', ''console''}\<close> show ?thesis
      by (intro exI [of _ "\<lparr>lg_level = l, lg_encoding = DevelopmentConsole, lg_color_levels = True, lg_stacktrace = False\<rparr>"])
        (simp add: new_logger_def Let_def)
  qed
qed

section \<open>The version\<close>

text \<open>The three values are set by the linker; the defaults are those of a build without it.\<close>

record version_info =
  vi_version :: string
  vi_commit :: string
  vi_date :: string

definition default_version :: version_info where
  "default_version = \<lparr>vi_version = ''dev'', vi_commit = ''none'', vi_date = ''unknown''\<rparr>"

definition version_string :: "version_info \<Rightarrow> string" where
  "version_string v = vi_version v @ '' (commit '' @ vi_commit v @ '', built '' @ vi_date v @ '')''"

end
