(* ===== verification/CertCache.thy ===== *)
theory CertCache
  imports GoHttp "HOL-Library.Multiset"
begin

text \<open>
  \<open>internal/tlsmgr/cache.go\<close>: the LRU cache of leaf certificates with single-flight issuance.
  The state is the code's: a map from the SNI to a list element (elements have identities) and the
  list of elements, most recently used first. \<open>abs_cache\<close> is what it implements, a bounded
  recency list. The locale \<open>cert_store\<close> states what the users of the cache need of it.
  The concurrent use by handshakes is the step relation \<open>flight_step\<close>.
\<close>

section \<open>The cache\<close>

record cache_entry =
  e_key :: string
  e_cert :: tls_cert
  e_leaf :: x509

record cert_cache =
  k_capacity :: int
  k_entries :: "nat gomap"
  k_order :: "(nat \<times> cache_entry) list"
  k_next :: nat

definition new_cert_cache :: "int \<Rightarrow> cert_cache" where
  "new_cert_cache capacity = \<lparr>k_capacity = capacity, k_entries = [], k_order = [], k_next = 0\<rparr>"

text \<open>The default policy, at the time \<open>now\<close>: less than five minutes of validity left.\<close>

definition default_refresh :: "int \<Rightarrow> x509 \<Rightarrow> bool" where
  "default_refresh now leaf \<longleftrightarrow> time_sub (x_not_after leaf) now < 5 * 60 * 1000000000"

definition move_to_front :: "nat \<Rightarrow> (nat \<times> cache_entry) list \<Rightarrow> (nat \<times> cache_entry) list" where
  "move_to_front el order = filter (\<lambda>p. fst p = el) order @ filter (\<lambda>p. fst p \<noteq> el) order"

definition set_value :: "nat \<Rightarrow> cache_entry \<Rightarrow> (nat \<times> cache_entry) list \<Rightarrow> (nat \<times> cache_entry) list" where
  "set_value el v order = map (\<lambda>p. if fst p = el then (el, v) else p) order"

text \<open>The entry of an SNI: the map's element and the value it holds.\<close>

definition cached :: "cert_cache \<Rightarrow> string \<Rightarrow> cache_entry option" where
  "cached c sni = (case lookup (k_entries c) sni of None \<Rightarrow> None | Some el \<Rightarrow> map_of (k_order c) el)"

definition cache_lookup :: "(x509 \<Rightarrow> bool) \<Rightarrow> string \<Rightarrow> cert_cache \<Rightarrow> tls_cert option \<times> cert_cache" where
  "cache_lookup needs_refresh sni c =
     (case lookup (k_entries c) sni of
        None \<Rightarrow> (None, c)
      | Some el \<Rightarrow>
          (case map_of (k_order c) el of
             None \<Rightarrow> (None, c)
           | Some entry \<Rightarrow>
               if needs_refresh (e_leaf entry) then (None, c)
               else (Some (e_cert entry), c\<lparr>k_order := move_to_front el (k_order c)\<rparr>)))"

definition cache_lookup_stale :: "int \<Rightarrow> string \<Rightarrow> cert_cache \<Rightarrow> tls_cert option" where
  "cache_lookup_stale now sni c =
     (case cached c sni of
        None \<Rightarrow> None
      | Some entry \<Rightarrow> if x_not_after (e_leaf entry) < now then None else Some (e_cert entry))"

text \<open>The eviction loop; an empty list with entries left would be the nil element's panic, \<open>None\<close>.\<close>

function evict :: "cert_cache \<Rightarrow> cert_cache option" where
  "evict c =
     (if int (length (k_entries c)) \<le> k_capacity c then Some c
      else if k_order c = [] then None
      else evict (c\<lparr>k_order := butlast (k_order c),
                    k_entries := AList.delete (e_key (snd (last (k_order c)))) (k_entries c)\<rparr>))"
  by pat_completeness auto
termination
  by (relation "measure (\<lambda>c. length (k_order c))") auto

declare evict.simps [simp del]

definition cache_store :: "string \<Rightarrow> tls_cert \<Rightarrow> x509 \<Rightarrow> cert_cache \<Rightarrow> cert_cache option" where
  "cache_store sni cert leaf c =
     (let v = \<lparr>e_key = sni, e_cert = cert, e_leaf = leaf\<rparr> in
      case lookup (k_entries c) sni of
        Some el \<Rightarrow> Some (c\<lparr>k_order := move_to_front el (set_value el v (k_order c))\<rparr>)
      | None \<Rightarrow>
          evict (c\<lparr>k_entries := AList.update sni (k_next c) (k_entries c),
                   k_order := (k_next c, v) # k_order c, k_next := Suc (k_next c)\<rparr>))"

definition cache_len :: "cert_cache \<Rightarrow> nat" where
  "cache_len c = length (k_entries c)"

section \<open>The contract\<close>

type_synonym recency = "(string \<times> tls_cert \<times> x509) list"

definition abs_cache :: "cert_cache \<Rightarrow> recency" where
  "abs_cache c = map (\<lambda>p. (e_key (snd p), e_cert (snd p), e_leaf (snd p))) (k_order c)"

definition touch :: "string \<Rightarrow> recency \<Rightarrow> recency" where
  "touch k l = filter (\<lambda>p. fst p = k) l @ filter (\<lambda>p. fst p \<noteq> k) l"

definition lru_lookup :: "(x509 \<Rightarrow> bool) \<Rightarrow> string \<Rightarrow> recency \<Rightarrow> tls_cert option \<times> recency" where
  "lru_lookup needs_refresh k l =
     (case map_of l k of
        None \<Rightarrow> (None, l)
      | Some (cert, leaf) \<Rightarrow> if needs_refresh leaf then (None, l) else (Some cert, touch k l))"

definition lru_store :: "nat \<Rightarrow> string \<Rightarrow> tls_cert \<Rightarrow> x509 \<Rightarrow> recency \<Rightarrow> recency" where
  "lru_store n k cert leaf l = take n ((k, cert, leaf) # filter (\<lambda>p. fst p \<noteq> k) l)"

text \<open>
  The invariant: the map and the list describe each other, identities and keys are distinct, and
  the bound holds (\<open>cache_link\<close> is the invariant during an insertion, before the eviction).
\<close>

definition cache_link :: "cert_cache \<Rightarrow> bool" where
  "cache_link c \<longleftrightarrow>
     0 < k_capacity c \<and> wf_map (k_entries c) \<and>
     distinct (map fst (k_order c)) \<and> distinct (map (\<lambda>p. e_key (snd p)) (k_order c)) \<and>
     set (k_entries c) = (\<lambda>p. (e_key (snd p), fst p)) ` set (k_order c) \<and>
     (\<forall>p \<in> set (k_order c). fst p < k_next c)"

definition cache_inv :: "cert_cache \<Rightarrow> bool" where
  "cache_inv c \<longleftrightarrow> cache_link c \<and> int (length (k_order c)) \<le> k_capacity c"

section \<open>The code implements the contract\<close>

lemma update_new: "k \<notin> fst ` set m \<Longrightarrow> AList.update k v m = m @ [(k, v)]"
  by (induction m) auto

lemma set_delete: "set (AList.delete k m) = {p \<in> set m. fst p \<noteq> k}"
  by (auto simp: AList.delete_eq)

lemma distinct_of_map: "distinct (map f xs) \<Longrightarrow> distinct xs"
  by (simp add: distinct_map)

lemma cache_linkD:
  assumes "cache_link c"
  shows "0 < k_capacity c" "wf_map (k_entries c)" "distinct (map fst (k_order c))"
    "distinct (map (\<lambda>p. e_key (snd p)) (k_order c))"
    "set (k_entries c) = (\<lambda>p. (e_key (snd p), fst p)) ` set (k_order c)"
    "\<And>p. p \<in> set (k_order c) \<Longrightarrow> fst p < k_next c"
  using assms by (auto simp: cache_link_def)

lemma cache_link_len: "cache_link c \<Longrightarrow> length (k_entries c) = length (k_order c)"
proof -
  assume inv: "cache_link c"
  have "card (set (k_entries c)) = length (k_entries c)"
    using cache_linkD(2) [OF inv] distinct_of_map [of fst "k_entries c"] by (simp add: wf_map_def distinct_card)
  moreover have "inj_on (\<lambda>p. (e_key (snd p), fst p)) (set (k_order c))"
    using cache_linkD(3) [OF inv] by (auto simp: distinct_map inj_on_def)
  then have "card ((\<lambda>p. (e_key (snd p), fst p)) ` set (k_order c)) = length (k_order c)"
    using cache_linkD(3) [OF inv] distinct_of_map [of fst "k_order c"] by (simp add: card_image distinct_card)
  ultimately show ?thesis
    using cache_linkD(5) [OF inv] by simp
qed

lemma entries_lookup:
  assumes "cache_link c"
  shows "lookup (k_entries c) k = Some el \<longleftrightarrow> (\<exists>e. (el, e) \<in> set (k_order c) \<and> e_key e = k)"
proof -
  have "lookup (k_entries c) k = Some el \<longleftrightarrow> (k, el) \<in> set (k_entries c)"
    using cache_linkD(2) [OF assms] by (simp add: wf_map_def)
  also have "\<dots> \<longleftrightarrow> (\<exists>p \<in> set (k_order c). (k, el) = (e_key (snd p), fst p))"
    unfolding cache_linkD(5) [OF assms] image_iff ..
  also have "\<dots> \<longleftrightarrow> (\<exists>e. (el, e) \<in> set (k_order c) \<and> e_key e = k)"
    by force
  finally show ?thesis .
qed

lemma cached_iff:
  assumes "cache_link c"
  shows "cached c k = Some e \<longleftrightarrow> (\<exists>el. (el, e) \<in> set (k_order c) \<and> e_key e = k)"
proof
  assume "cached c k = Some e"
  then obtain el where el: "lookup (k_entries c) k = Some el" "map_of (k_order c) el = Some e"
    by (auto simp: cached_def split: option.splits)
  then obtain e' where "(el, e') \<in> set (k_order c)" "e_key e' = k"
    using entries_lookup [OF assms] by blast
  moreover from this have "map_of (k_order c) el = Some e'"
    using cache_linkD(3) [OF assms] by simp
  ultimately show "\<exists>el. (el, e) \<in> set (k_order c) \<and> e_key e = k"
    using el(2) by auto
next
  assume "\<exists>el. (el, e) \<in> set (k_order c) \<and> e_key e = k"
  then obtain el where el: "(el, e) \<in> set (k_order c)" "e_key e = k" by blast
  then have "lookup (k_entries c) k = Some el"
    using entries_lookup [OF assms] by blast
  moreover have "map_of (k_order c) el = Some e"
    using el cache_linkD(3) [OF assms] by simp
  ultimately show "cached c k = Some e"
    by (simp add: cached_def)
qed

lemma abs_lookup:
  assumes "cache_link c"
  shows "map_of (abs_cache c) k = map_option (\<lambda>e. (e_cert e, e_leaf e)) (cached c k)"
proof -
  have d: "distinct (map fst (abs_cache c))"
    using cache_linkD(4) [OF assms] by (simp add: abs_cache_def comp_def)
  show ?thesis
  proof (cases "cached c k")
    case None
    have "k \<notin> fst ` set (abs_cache c)"
    proof
      assume "k \<in> fst ` set (abs_cache c)"
      then obtain el e where "(el, e) \<in> set (k_order c)" "e_key e = k"
        by (auto simp: abs_cache_def)
      then have "cached c k = Some e"
        using cached_iff [OF assms] by blast
      with None show False by simp
    qed
    with None show ?thesis by (simp add: map_of_eq_None_iff)
  next
    case (Some e)
    then obtain el where "(el, e) \<in> set (k_order c)" "e_key e = k"
      using cached_iff [OF assms] by blast
    then have "(k, e_cert e, e_leaf e) \<in> set (abs_cache c)"
      by (force simp: abs_cache_def)
    with d Some show ?thesis by simp
  qed
qed

lemma mset_move [simp]: "mset (move_to_front el xs) = mset xs"
  by (simp add: move_to_front_def)

lemma set_move [simp]: "set (move_to_front el xs) = set xs"
  by (auto simp: move_to_front_def)

lemma distinct_map_move [simp]: "distinct (map f (move_to_front el xs)) = distinct (map f xs)"
  by (rule mset_eq_imp_distinct_iff) simp

lemma length_move [simp]: "length (move_to_front el xs) = length xs"
  by (metis mset_move size_mset)

lemma cache_link_move: "cache_link c \<Longrightarrow> cache_link (c\<lparr>k_order := move_to_front el (k_order c)\<rparr>)"
  by (simp add: cache_link_def)

lemma el_key_iff:
  assumes "cache_link c" "lookup (k_entries c) k = Some el" "p \<in> set (k_order c)"
  shows "fst p = el \<longleftrightarrow> e_key (snd p) = k"
proof -
  obtain e where e: "(el, e) \<in> set (k_order c)" "e_key e = k"
    using entries_lookup [OF assms(1)] assms(2) by blast
  show ?thesis
  proof
    assume "fst p = el"
    with e(1) assms(3) cache_linkD(3) [OF assms(1)] have "p = (el, e)"
      using inj_onD [of fst "set (k_order c)" p "(el, e)"] by (simp add: distinct_map)
    with e(2) show "e_key (snd p) = k" by simp
  next
    assume "e_key (snd p) = k"
    with e assms(3) cache_linkD(4) [OF assms(1)] have "p = (el, e)"
      using inj_onD [of "\<lambda>p. e_key (snd p)" "set (k_order c)" p "(el, e)"] by (simp add: distinct_map)
    then show "fst p = el" by simp
  qed
qed

lemma abs_move:
  assumes "cache_link c" "lookup (k_entries c) k = Some el"
  shows "abs_cache (c\<lparr>k_order := move_to_front el (k_order c)\<rparr>) = touch k (abs_cache c)"
proof -
  have "filter (\<lambda>p. fst p = el) (k_order c) = filter (\<lambda>p. e_key (snd p) = k) (k_order c)"
    "filter (\<lambda>p. fst p \<noteq> el) (k_order c) = filter (\<lambda>p. e_key (snd p) \<noteq> k) (k_order c)"
    using el_key_iff [OF assms] by (auto intro!: filter_cong)
  then show ?thesis
    by (simp add: abs_cache_def move_to_front_def touch_def filter_map comp_def)
qed

lemma cache_lookup_cached:
  assumes "cache_link c"
  shows "fst (cache_lookup rf k c) =
     (case cached c k of None \<Rightarrow> None | Some e \<Rightarrow> if rf (e_leaf e) then None else Some (e_cert e))"
  by (simp add: cache_lookup_def cached_def split: option.split)

lemma lookup_refines:
  assumes "cache_inv c"
  shows "cache_inv (snd (cache_lookup rf k c)) \<and>
     lru_lookup rf k (abs_cache c) = (fst (cache_lookup rf k c), abs_cache (snd (cache_lookup rf k c)))"
proof (cases "lookup (k_entries c) k")
  case None
  then have "cached c k = None" by (simp add: cached_def)
  with None assms show ?thesis
    by (simp add: cache_lookup_def lru_lookup_def cache_inv_def abs_lookup)
next
  case (Some el)
  have link: "cache_link c" using assms by (simp add: cache_inv_def)
  obtain e where e: "(el, e) \<in> set (k_order c)" "e_key e = k"
    using entries_lookup [OF link] Some by blast
  then have m: "map_of (k_order c) el = Some e"
    using cache_linkD(3) [OF link] by simp
  with Some have "cached c k = Some e" by (simp add: cached_def)
  with Some m assms link show ?thesis
    by (simp add: cache_lookup_def lru_lookup_def abs_lookup abs_move cache_inv_def cache_link_move)
qed

section \<open>Storing\<close>

lemma evict_refines:
  "cache_link c \<Longrightarrow>
     \<exists>c'. evict c = Some c' \<and> cache_inv c' \<and> k_order c' = take (nat (k_capacity c)) (k_order c) \<and>
        k_capacity c' = k_capacity c"
proof (induction c rule: evict.induct)
  case (1 c)
  show ?case
  proof (cases "int (length (k_entries c)) \<le> k_capacity c")
    case True
    with "1.prems" show ?thesis
      using cache_link_len [OF "1.prems"] by (simp add: evict.simps [of c] cache_inv_def)
  next
    case False
    let ?o = "k_order c"
    let ?c = "c\<lparr>k_order := butlast ?o, k_entries := AList.delete (e_key (snd (last ?o))) (k_entries c)\<rparr>"
    have ne: "?o \<noteq> []"
      using False cache_link_len [OF "1.prems"] cache_linkD(1) [OF "1.prems"] by auto
    then obtain ys y where y: "?o = ys @ [y]" by (cases ?o rule: rev_cases) auto
    have keys: "\<forall>p \<in> set ys. e_key (snd p) \<noteq> e_key (snd y)"
    proof -
      have "e_key (snd y) \<notin> (\<lambda>p. e_key (snd p)) ` set ys"
        using cache_linkD(4) [OF "1.prems"] by (simp add: y)
      then show ?thesis by (auto simp: image_iff)
    qed
    have "set (AList.delete (e_key (snd y)) (k_entries c)) = {p \<in> set (k_entries c). fst p \<noteq> e_key (snd y)}"
      by (rule set_delete)
    also have "\<dots> = (\<lambda>p. (e_key (snd p), fst p)) ` set ys"
      using keys unfolding cache_linkD(5) [OF "1.prems"] y by auto
    finally have "cache_link ?c"
      using "1.prems" by (simp add: cache_link_def y)
    with "1.IH" [OF False ne] obtain c' where c': "evict ?c = Some c'" "cache_inv c'"
      "k_order c' = take (nat (k_capacity c)) (butlast ?o)" "k_capacity c' = k_capacity c"
      by auto
    have "nat (k_capacity c) \<le> length ys"
      using False cache_link_len [OF "1.prems"] by (simp add: y)
    then have "take (nat (k_capacity c)) (butlast ?o) = take (nat (k_capacity c)) ?o"
      by (simp add: y)
    with c' False ne show ?thesis
      by (simp add: evict.simps [of c])
  qed
qed

lemma filter_unique: "distinct (map fst xs) \<Longrightarrow> (el, e) \<in> set xs \<Longrightarrow> filter (\<lambda>p. fst p = el) xs = [(el, e)]"
  by (induction xs) (force simp: filter_empty_conv)+

lemma filter_set_value:
  "filter (\<lambda>p. fst p = el) (set_value el v xs) = map (\<lambda>_. (el, v)) (filter (\<lambda>p. fst p = el) xs)"
  "filter (\<lambda>p. fst p \<noteq> el) (set_value el v xs) = filter (\<lambda>p. fst p \<noteq> el) xs"
  by (induction xs) (simp_all add: set_value_def)

lemma store_refines:
  assumes "cache_inv c"
  shows "\<exists>c'. cache_store k cert leaf c = Some c' \<and> cache_inv c' \<and> k_capacity c' = k_capacity c \<and>
     abs_cache c' = lru_store (nat (k_capacity c)) k cert leaf (abs_cache c)"
proof (cases "lookup (k_entries c) k")
  case None
  let ?v = "\<lparr>e_key = k, e_cert = cert, e_leaf = leaf\<rparr>"
  let ?c = "c\<lparr>k_entries := AList.update k (k_next c) (k_entries c),
              k_order := (k_next c, ?v) # k_order c, k_next := Suc (k_next c)\<rparr>"
  have link: "cache_link c" using assms by (simp add: cache_inv_def)
  have new: "k \<notin> (\<lambda>p. e_key (snd p)) ` set (k_order c)"
    using entries_lookup [OF link] None by force
  have "AList.update k (k_next c) (k_entries c) = k_entries c @ [(k, k_next c)]"
    using None by (intro update_new) (simp add: map_of_eq_None_iff)
  moreover have "k_next c \<notin> fst ` set (k_order c)"
    using cache_linkD(6) [OF link] by fastforce
  moreover have "wf_map (AList.update k (k_next c) (k_entries c))"
    using cache_linkD(2) [OF link] by simp
  ultimately have "cache_link ?c"
    using link new by (auto simp: cache_link_def less_Suc_eq)
  from evict_refines [OF this] obtain c' where
    "evict ?c = Some c'" "cache_inv c'" "k_order c' = take (nat (k_capacity c)) ((k_next c, ?v) # k_order c)"
    "k_capacity c' = k_capacity c" by auto
  moreover have "filter (\<lambda>p. fst p \<noteq> k) (abs_cache c) = abs_cache c"
    using new by (intro filter_True) (auto simp: abs_cache_def)
  ultimately show ?thesis
    by (simp add: cache_store_def None lru_store_def abs_cache_def take_map [symmetric])
next
  case (Some el)
  let ?v = "\<lparr>e_key = k, e_cert = cert, e_leaf = leaf\<rparr>"
  let ?o = "set_value el ?v (k_order c)"
  have link: "cache_link c" using assms by (simp add: cache_inv_def)
  note iff = el_key_iff [OF link Some]
  have fst: "map fst ?o = map fst (k_order c)"
    by (simp add: set_value_def comp_def if_distrib [of fst] cong: if_cong)
  have key: "map (\<lambda>p. e_key (snd p)) ?o = map (\<lambda>p. e_key (snd p)) (k_order c)"
    using iff by (auto simp: set_value_def)
  have "map (\<lambda>p. (e_key (snd p), fst p)) ?o = map (\<lambda>p. (e_key (snd p), fst p)) (k_order c)"
    using iff by (auto simp: set_value_def)
  from arg_cong [OF this, of set]
  have pair: "(\<lambda>p. (e_key (snd p), fst p)) ` set ?o = (\<lambda>p. (e_key (snd p), fst p)) ` set (k_order c)"
    by simp
  have ids: "\<forall>p \<in> set ?o. fst p < k_next c"
    using cache_linkD(6) [OF link] by (auto simp: set_value_def)
  have "cache_link (c\<lparr>k_order := ?o\<rparr>)"
    using link by (simp add: cache_link_def fst key pair ids)
  then have "cache_inv (c\<lparr>k_order := move_to_front el ?o\<rparr>)"
    using cache_link_move [of "c\<lparr>k_order := ?o\<rparr>" el] assms
    by (simp add: cache_inv_def set_value_def)
  moreover have "abs_cache (c\<lparr>k_order := move_to_front el ?o\<rparr>) = lru_store (nat (k_capacity c)) k cert leaf (abs_cache c)"
  proof -
    obtain e where "(el, e) \<in> set (k_order c)"
      using entries_lookup [OF link] Some by blast
    with cache_linkD(3) [OF link] have one: "filter (\<lambda>p. fst p = el) (k_order c) = [(el, e)]"
      by (rule filter_unique)
    have rest: "filter (\<lambda>p. e_key (snd p) \<noteq> k) (k_order c) = filter (\<lambda>p. fst p \<noteq> el) (k_order c)"
      using iff by (auto intro!: filter_cong)
    have "length (filter (\<lambda>p. fst p = el) (k_order c)) + length (filter (\<lambda>p. fst p \<noteq> el) (k_order c)) = length (k_order c)"
      by (rule sum_length_filter_compl)
    then have "Suc (length (filter (\<lambda>p. fst p \<noteq> el) (k_order c))) \<le> nat (k_capacity c)"
      using assms one by (simp add: cache_inv_def) linarith
    then show ?thesis
      by (simp add: abs_cache_def move_to_front_def filter_set_value one lru_store_def filter_map comp_def rest)
  qed
  ultimately show ?thesis
    by (simp add: cache_store_def Some)
qed

section \<open>What the users of a store rely on\<close>

text \<open>
  A store of certificates: a certificate put under a name is found there, a put changes no other
  name except by dropping it, and using an entry changes nothing that is found.
\<close>

locale cert_store =
  fixes content :: "'c \<Rightarrow> string \<Rightarrow> (tls_cert \<times> x509) option"
    and put :: "string \<Rightarrow> tls_cert \<Rightarrow> x509 \<Rightarrow> 'c \<Rightarrow> 'c"
    and use :: "string \<Rightarrow> 'c \<Rightarrow> 'c"
    and ok :: "'c \<Rightarrow> bool"
  assumes content_put_same: "ok c \<Longrightarrow> content (put k cert leaf c) k = Some (cert, leaf)"
    and content_put_other: "ok c \<Longrightarrow> j \<noteq> k \<Longrightarrow>
          content (put k cert leaf c) j = None \<or> content (put k cert leaf c) j = content c j"
    and content_use: "ok c \<Longrightarrow> content (use k c) j = content c j"
    and ok_put: "ok c \<Longrightarrow> ok (put k cert leaf c)"
    and ok_use: "ok c \<Longrightarrow> ok (use k c)"
begin

text \<open>Whatever holds of every certificate put in holds of every certificate found.\<close>

lemma put_provenance:
  assumes "ok c" "\<And>j x. content c j = Some x \<Longrightarrow> P j x" "P k (cert, leaf)"
    and "content (put k cert leaf c) j = Some x"
  shows "P j x"
  using assms content_put_same [OF assms(1), of k cert leaf] content_put_other [OF assms(1), of j k cert leaf]
  by (cases "j = k") auto

lemma use_provenance:
  assumes "ok c" "\<And>j x. content c j = Some x \<Longrightarrow> P j x" "content (use k c) j = Some x"
  shows "P j x"
  using assms by (simp add: content_use)

end

definition cache_content :: "cert_cache \<Rightarrow> string \<Rightarrow> (tls_cert \<times> x509) option" where
  "cache_content c k = map_option (\<lambda>e. (e_cert e, e_leaf e)) (cached c k)"

text \<open>Storing when the store does not panic, and the lookup's effect on the order.\<close>

definition cache_put :: "string \<Rightarrow> tls_cert \<Rightarrow> x509 \<Rightarrow> cert_cache \<Rightarrow> cert_cache" where
  "cache_put k cert leaf c = (case cache_store k cert leaf c of Some c' \<Rightarrow> c' | None \<Rightarrow> c)"

definition cache_use :: "string \<Rightarrow> cert_cache \<Rightarrow> cert_cache" where
  "cache_use k c = snd (cache_lookup (\<lambda>_. False) k c)"

lemma cache_content_abs: "cache_inv c \<Longrightarrow> cache_content c = map_of (abs_cache c)"
  by (rule ext) (simp add: cache_content_def abs_lookup cache_inv_def)

lemma map_of_filter_other: "map_of (filter (\<lambda>p. fst p \<noteq> k) l) j = (if j = k then None else map_of l j)"
  by (induction l) auto

lemma map_of_touch: "map_of (touch k l) j = map_of l j"
proof -
  have "map_of (filter (\<lambda>p. fst p = k) l) j = (if j = k then map_of l k else None)"
    by (induction l) auto
  then show ?thesis
    by (auto simp: touch_def map_add_def map_of_filter_other split: option.split)
qed

lemma map_of_take:
  "distinct (map fst l) \<Longrightarrow> map_of (take n l) j = None \<or> map_of (take n l) j = map_of l j"
proof (induction l arbitrary: n)
  case (Cons p l)
  then show ?case by (cases n) auto
qed simp

lemma abs_distinct: "cache_inv c \<Longrightarrow> distinct (map fst (abs_cache c))"
  using cache_linkD(4) [of c] by (simp add: cache_inv_def abs_cache_def comp_def)

interpretation lru: cert_store cache_content cache_put cache_use cache_inv
proof unfold_locales
  fix c k cert leaf j assume inv: "cache_inv c"
  obtain c' where c': "cache_store k cert leaf c = Some c'" "cache_inv c'"
    "abs_cache c' = lru_store (nat (k_capacity c)) k cert leaf (abs_cache c)"
    using store_refines [OF inv] by blast
  then have put: "cache_put k cert leaf c = c'" by (simp add: cache_put_def)
  have pos: "0 < nat (k_capacity c)"
    using inv by (simp add: cache_inv_def cache_link_def)
  have abs: "cache_content c' = map_of (lru_store (nat (k_capacity c)) k cert leaf (abs_cache c))"
    by (simp add: cache_content_abs c')
  show "cache_inv (cache_put k cert leaf c)" using c' put by simp
  show "cache_content (cache_put k cert leaf c) k = Some (cert, leaf)"
    using pos by (cases "nat (k_capacity c)") (simp_all add: put abs lru_store_def)
  assume other: "j \<noteq> k"
  let ?l = "(k, cert, leaf) # filter (\<lambda>p. fst p \<noteq> k) (abs_cache c)"
  have "distinct (map fst ?l)"
    using abs_distinct [OF inv] by (auto simp: distinct_map_filter)
  from map_of_take [OF this, of "nat (k_capacity c)" j] other
  show "cache_content (cache_put k cert leaf c) j = None \<or> cache_content (cache_put k cert leaf c) j = cache_content c j"
    by (simp add: put abs lru_store_def cache_content_abs inv map_of_filter_other)
next
  fix c k j assume inv: "cache_inv c"
  note r = lookup_refines [OF inv, of "\<lambda>_. False" k]
  show u: "cache_inv (cache_use k c)" using r by (simp add: cache_use_def)
  have "abs_cache (cache_use k c) = snd (lru_lookup (\<lambda>_. False) k (abs_cache c))"
    using r by (simp add: cache_use_def)
  moreover have "map_of (snd (lru_lookup (\<lambda>_. False) k l)) j = map_of l j" for l
    by (simp add: lru_lookup_def map_of_touch split: option.split prod.split)
  ultimately show "cache_content (cache_use k c) j = cache_content c j"
    using inv u by (simp add: cache_content_abs)
qed

section \<open>Get\<close>

datatype get_result = Got tls_cert | Failed string | Crashed

text \<open>
  The calls \<open>Get\<close> makes outside: \<open>gc_issue\<close>, the refresh policy at the time of the call, the
  clock, and the certificate parser for a certificate without a parsed leaf.
\<close>

record get_call =
  gc_sni :: string
  gc_issue :: "string \<Rightarrow> string + tls_cert"
  gc_refresh :: "x509 \<Rightarrow> bool"
  gc_now :: int
  gc_parse :: "bytes \<Rightarrow> string + x509"

datatype leaf_result = LeafOk x509 | LeafError string | LeafPanic

definition leaf_of :: "(bytes \<Rightarrow> string + x509) \<Rightarrow> tls_cert \<Rightarrow> leaf_result" where
  "leaf_of parse cert =
     (case tc_leaf cert of
        Some leaf \<Rightarrow> LeafOk leaf
      | None \<Rightarrow>
          (case tc_chain cert of
             [] \<Rightarrow> LeafPanic
           | der # _ \<Rightarrow> (case parse der of Inl e \<Rightarrow> LeafError e | Inr leaf \<Rightarrow> LeafOk leaf)))"

text \<open>The function run under single-flight.\<close>

definition fill :: "get_call \<Rightarrow> cert_cache \<Rightarrow> get_result \<times> cert_cache" where
  "fill g c =
     (case cache_lookup (gc_refresh g) (gc_sni g) c of
        (Some cert, c1) \<Rightarrow> (Got cert, c1)
      | (None, c1) \<Rightarrow>
          (case gc_issue g (gc_sni g) of
             Inl e \<Rightarrow> (Failed e, c1)
           | Inr cert \<Rightarrow>
               (case leaf_of (gc_parse g) cert of
                  LeafPanic \<Rightarrow> (Crashed, c1)
                | LeafError e \<Rightarrow> (Failed e, c1)
                | LeafOk leaf \<Rightarrow>
                    (case cache_store (gc_sni g) cert leaf c1 of
                       None \<Rightarrow> (Crashed, c1)
                     | Some c2 \<Rightarrow> (Got cert, c2)))))"

text \<open>\<open>Get\<close>, with the refresh errors it reports.\<close>

definition cache_get :: "bool \<Rightarrow> get_call \<Rightarrow> cert_cache \<Rightarrow> get_result \<times> cert_cache \<times> (string \<times> string) list" where
  "cache_get stale_ok g c =
     (case cache_lookup (gc_refresh g) (gc_sni g) c of
        (Some cert, c1) \<Rightarrow> (Got cert, c1, [])
      | (None, c1) \<Rightarrow>
          (case fill g c1 of
             (Failed e, c2) \<Rightarrow>
               if stale_ok then
                 (case cache_lookup_stale (gc_now g) (gc_sni g) c2 of
                    Some stale \<Rightarrow> (Got stale, c2, [(gc_sni g, e)])
                  | None \<Rightarrow> (Failed e, c2, []))
               else (Failed e, c2, [])
           | (res, c2) \<Rightarrow> (res, c2, [])))"

lemma cache_lookup_content:
  assumes "cache_inv c"
  shows "fst (cache_lookup rf k c) =
     (case cache_content c k of None \<Rightarrow> None | Some (cert, leaf) \<Rightarrow> if rf leaf then None else Some cert)"
  using assms by (simp add: cache_lookup_cached cache_inv_def cache_content_def split: option.split)

lemma cache_lookup_state: "fst (cache_lookup rf k c) = None \<Longrightarrow> snd (cache_lookup rf k c) = c"
  by (auto simp: cache_lookup_def split: option.splits if_splits)

lemma cache_lookup_use: "fst (cache_lookup rf k c) = Some x \<Longrightarrow> snd (cache_lookup rf k c) = cache_use k c"
  by (auto simp: cache_lookup_def cache_use_def split: option.splits if_splits)

lemma cache_lookup_stale_content:
  "cache_lookup_stale now k c =
     (case cache_content c k of None \<Rightarrow> None | Some (cert, leaf) \<Rightarrow> if x_not_after leaf < now then None else Some cert)"
  by (simp add: cache_lookup_stale_def cache_content_def split: option.split)

lemma store_put: "cache_inv c \<Longrightarrow> cache_store k cert leaf c = Some (cache_put k cert leaf c)"
  using store_refines [of c k cert leaf] by (auto simp: cache_put_def)

lemma cache_get_cases:
  assumes "cache_inv c"
  shows "cache_get stale_ok g c =
    (case cache_content c (gc_sni g) of
       Some (cert, leaf) \<Rightarrow>
         if \<not> gc_refresh g leaf then (Got cert, cache_use (gc_sni g) c, [])
         else (case gc_issue g (gc_sni g) of
             Inl e \<Rightarrow> if stale_ok \<and> gc_now g \<le> x_not_after leaf then (Got cert, c, [(gc_sni g, e)]) else (Failed e, c, [])
           | Inr new \<Rightarrow>
               (case leaf_of (gc_parse g) new of
                  LeafOk l \<Rightarrow> (Got new, cache_put (gc_sni g) new l c, [])
                | LeafError e \<Rightarrow> if stale_ok \<and> gc_now g \<le> x_not_after leaf then (Got cert, c, [(gc_sni g, e)]) else (Failed e, c, [])
                | LeafPanic \<Rightarrow> (Crashed, c, [])))
     | None \<Rightarrow>
         (case gc_issue g (gc_sni g) of
            Inl e \<Rightarrow> (Failed e, c, [])
          | Inr new \<Rightarrow>
              (case leaf_of (gc_parse g) new of
                 LeafOk l \<Rightarrow> (Got new, cache_put (gc_sni g) new l c, [])
               | LeafError e \<Rightarrow> (Failed e, c, [])
               | LeafPanic \<Rightarrow> (Crashed, c, []))))"
proof -
  let ?k = "gc_sni g" and ?rf = "gc_refresh g"
  obtain r c1 where lk: "cache_lookup ?rf ?k c = (r, c1)" by fastforce
  show ?thesis
  proof (cases r)
    case (Some cert)
    with lk cache_lookup_content [OF assms, of ?rf ?k] cache_lookup_use [of ?rf ?k c cert]
    show ?thesis
      by (auto simp: cache_get_def split: option.splits if_splits)
  next
    case None
    then have c1: "c1 = c" using lk cache_lookup_state [of ?rf ?k c] by simp
    have stale: "cache_content c ?k = Some (cert, leaf) \<Longrightarrow> ?rf leaf" for cert leaf
      using lk None cache_lookup_content [OF assms, of ?rf ?k] by (auto split: if_splits)
    show ?thesis
      using lk None c1 stale
      by (auto simp: cache_get_def fill_def store_put [OF assms] cache_lookup_stale_content not_less
          split: option.split sum.split leaf_result.split prod.split)
  qed
qed

text \<open>
  C6: What a handshake gets: a cached certificate that needs no refresh is served without issuing;
  otherwise the certificate issued now is served and cached; when issuing fails, the cached
  certificate is served if stale ones are allowed and it has not expired, and reported, and
  otherwise the error is returned and the cache is as it was.
\<close>
theorem get_spec:
  assumes "cache_inv c"
  shows "cache_get stale_ok g c =
    (case cache_content c (gc_sni g) of
       Some (cert, leaf) \<Rightarrow>
         if \<not> gc_refresh g leaf then (Got cert, cache_use (gc_sni g) c, [])
         else (case gc_issue g (gc_sni g) of
             Inl e \<Rightarrow> if stale_ok \<and> gc_now g \<le> x_not_after leaf then (Got cert, c, [(gc_sni g, e)]) else (Failed e, c, [])
           | Inr new \<Rightarrow>
               (case leaf_of (gc_parse g) new of
                  LeafOk l \<Rightarrow> (Got new, cache_put (gc_sni g) new l c, [])
                | LeafError e \<Rightarrow> if stale_ok \<and> gc_now g \<le> x_not_after leaf then (Got cert, c, [(gc_sni g, e)]) else (Failed e, c, [])
                | LeafPanic \<Rightarrow> (Crashed, c, [])))
     | None \<Rightarrow>
         (case gc_issue g (gc_sni g) of
            Inl e \<Rightarrow> (Failed e, c, [])
          | Inr new \<Rightarrow>
              (case leaf_of (gc_parse g) new of
                 LeafOk l \<Rightarrow> (Got new, cache_put (gc_sni g) new l c, [])
               | LeafError e \<Rightarrow> (Failed e, c, [])
               | LeafPanic \<Rightarrow> (Crashed, c, []))))"
  using assms by (rule cache_get_cases)

lemma new_cache_inv [simp]: "0 < capacity \<Longrightarrow> cache_inv (new_cert_cache capacity)"
  by (simp add: cache_inv_def cache_link_def new_cert_cache_def)

lemma new_cache_capacity [simp]: "k_capacity (new_cert_cache capacity) = capacity"
  by (simp add: new_cert_cache_def)

lemma new_cache_content [simp]: "cache_content (new_cert_cache capacity) k = None"
  by (simp add: cache_content_def cached_def new_cert_cache_def)

definition plain_leaf :: x509 where
  "plain_leaf = \<lparr>x_raw = ''der'', x_subject = [], x_issuer = [], x_serial = [], x_not_before = 0, x_not_after = 100,
     x_dns_names = [], x_ip_addresses = [], x_is_ca = False\<rparr>"

definition plain_cert :: "string \<Rightarrow> tls_cert" where
  "plain_cert sni = \<lparr>tc_chain = [sni], tc_key = [], tc_leaf = Some plain_leaf\<rparr>"

definition plain_get :: "string \<Rightarrow> get_call" where
  "plain_get sni = \<lparr>gc_sni = sni, gc_issue = (\<lambda>k. Inr (plain_cert k)), gc_refresh = (\<lambda>_. False), gc_now = 0, gc_parse = Inl\<rparr>"

theorem get_spec_witness:
  "fst (cache_get True (plain_get ''a.example'') (new_cert_cache 2)) = Got (plain_cert ''a.example'')"
  using get_spec [OF new_cache_inv [of 2], of True "plain_get ''a.example''"]
  by (simp add: plain_get_def leaf_of_def plain_cert_def)

text \<open>
  C5: The cache is an LRU cache: the map and the list it keeps implement a bounded recency list; a
  lookup moves the entry to the front, a store puts it there and drops the least recently used
  entries beyond the capacity, and neither ever hits the nil element of the eviction loop.
\<close>
theorem cache_refines_lru:
  assumes "cache_inv c"
  shows "lru_lookup rf k (abs_cache c) = map_prod id abs_cache (cache_lookup rf k c) \<and>
    map_option abs_cache (cache_store k cert leaf c)
      = Some (lru_store (nat (k_capacity c)) k cert leaf (abs_cache c)) \<and>
    map_option cache_inv (cache_store k cert leaf c) = Some True \<and> cache_inv (snd (cache_lookup rf k c))"
proof -
  have "lru_lookup rf k (abs_cache c) = map_prod id abs_cache (cache_lookup rf k c)"
    using lookup_refines [OF assms, of rf k] by (cases "cache_lookup rf k c") simp
  then show ?thesis
    using lookup_refines [OF assms, of rf k] store_refines [OF assms, of k cert leaf] by auto
qed

theorem cache_refines_lru_witness:
  "map_option abs_cache (cache_store ''a'' (plain_cert ''a'') plain_leaf (new_cert_cache 1))
     = Some [(''a'', plain_cert ''a'', plain_leaf)]"
  using cache_refines_lru [OF new_cache_inv [of 1], of "\<lambda>_. False" "''a''" "plain_cert ''a''" plain_leaf]
  by (simp add: lru_store_def abs_cache_def new_cert_cache_def)

section \<open>A sequence of handshakes\<close>

fun run_gets :: "bool \<Rightarrow> get_call list \<Rightarrow> cert_cache \<Rightarrow> (string \<times> get_result) list \<times> cert_cache" where
  "run_gets stale_ok [] c = ([], c)"
| "run_gets stale_ok (g # gs) c =
     (case cache_get stale_ok g c of (r, c1, _) \<Rightarrow>
        (case run_gets stale_ok gs c1 of (rs, c2) \<Rightarrow> ((gc_sni g, r) # rs, c2)))"

definition prov :: "(string \<Rightarrow> tls_cert \<Rightarrow> bool) \<Rightarrow> cert_cache \<Rightarrow> bool" where
  "prov P c \<longleftrightarrow> (\<forall>k cert leaf. cache_content c k = Some (cert, leaf) \<longrightarrow> P k cert)"

definition issues :: "(string \<Rightarrow> tls_cert \<Rightarrow> bool) \<Rightarrow> get_call \<Rightarrow> bool" where
  "issues P g \<longleftrightarrow> (\<forall>cert. gc_issue g (gc_sni g) = Inr cert \<longrightarrow> P (gc_sni g) cert)"

lemma k_capacity_put: "cache_inv c \<Longrightarrow> k_capacity (cache_put k cert leaf c) = k_capacity c"
  using store_refines [of c k cert leaf] by (auto simp: cache_put_def)

lemma k_capacity_use: "k_capacity (cache_use k c) = k_capacity c"
  by (simp add: cache_use_def cache_lookup_def split: option.split)

lemma prov_put: "cache_inv c \<Longrightarrow> prov P c \<Longrightarrow> P k cert \<Longrightarrow> prov P (cache_put k cert leaf c)"
  unfolding prov_def
  using lru.put_provenance [of c "\<lambda>j x. P j (fst x)" k cert leaf] by force

lemma prov_use: "cache_inv c \<Longrightarrow> prov P c \<Longrightarrow> prov P (cache_use k c)"
  unfolding prov_def by (simp add: lru.content_use)

lemma get_keeps:
  assumes "cache_inv c" "prov P c" "issues P g" "cache_get stale_ok g c = (r, c', errs)"
  shows "cache_inv c' \<and> prov P c' \<and> k_capacity c' = k_capacity c \<and> (\<forall>cert. r = Got cert \<longrightarrow> P (gc_sni g) cert)"
proof -
  have served: "P (gc_sni g) cert" if "cache_content c (gc_sni g) = Some (cert, leaf)" for cert leaf
    using assms(2) that by (auto simp: prov_def)
  have issued: "P (gc_sni g) cert" if "gc_issue g (gc_sni g) = Inr cert" for cert
    using assms(3) that by (simp add: issues_def)
  note keep = lru.ok_put [OF assms(1)] lru.ok_use [OF assms(1)] prov_put [OF assms(1,2)] prov_use [OF assms(1,2)]
    k_capacity_put [OF assms(1)] k_capacity_use
  show ?thesis
    using assms(1,2,4) unfolding cache_get_cases [OF assms(1)]
    by (auto simp: keep served issued split: option.splits if_splits sum.splits leaf_result.splits prod.splits)
qed

text \<open>What is in the cache after a call was there before it, or was issued and served by it.\<close>

lemma get_stores:
  assumes "cache_inv c" "cache_get stale_ok g c = (r, c', errs)" "cache_content c' k = Some (cert, leaf)"
  shows "cache_content c k = Some (cert, leaf) \<or> (k = gc_sni g \<and> gc_issue g k = Inr cert \<and> r = Got cert)"
proof -
  have put: "cache_content (cache_put j new l c) k = Some (cert, leaf) \<Longrightarrow>
      cache_content c k = Some (cert, leaf) \<or> k = j \<and> cert = new" for j new l
    using lru.content_put_same [OF assms(1), of j new l] lru.content_put_other [OF assms(1), of k j new l] by (cases "k = j") auto
  show ?thesis
    using assms(2,3) put unfolding cache_get_cases [OF assms(1)]
    by (auto simp: lru.content_use [OF assms(1)] split: option.splits if_splits sum.splits leaf_result.splits prod.splits)
qed

text \<open>
  No certificate crosses names and the bound holds: over any sequence of handshakes from an
  empty cache, a handshake for a name is only ever given a certificate that was issued for that
  name, and the cache never holds more certificates than its capacity.
\<close>
theorem handshakes_own_certificates:
  assumes "0 < capacity" and "list_all (issues P) gs"
    and "run_gets stale_ok gs (new_cert_cache capacity) = (rs, c')"
  shows "list_all (\<lambda>(sni, r). case r of Got cert \<Rightarrow> P sni cert | _ \<Rightarrow> True) rs \<and> int (cache_len c') \<le> capacity"
proof -
  have "list_all (\<lambda>(sni, r). case r of Got cert \<Rightarrow> P sni cert | _ \<Rightarrow> True) rs \<and> cache_inv c' \<and> k_capacity c' = k_capacity c"
    if "run_gets stale_ok gs c = (rs, c')" "cache_inv c" "prov P c" "list_all (issues P) gs" for c gs rs c'
    using that
  proof (induction gs arbitrary: c rs)
    case Nil
    then show ?case by simp
  next
    case (Cons g gs)
    obtain r c1 errs where get: "cache_get stale_ok g c = (r, c1, errs)" by (cases "cache_get stale_ok g c") auto
    obtain rs1 where run: "run_gets stale_ok gs c1 = (rs1, c')" and rs: "rs = (gc_sni g, r) # rs1"
      using Cons.prems(1) by (auto simp: get split: prod.splits)
    have kept: "cache_inv c1" "prov P c1" "k_capacity c1 = k_capacity c" "\<forall>cert. r = Got cert \<longrightarrow> P (gc_sni g) cert"
      using get_keeps [OF Cons.prems(2,3) _ get] Cons.prems(4) by auto
    show ?case
      using Cons.IH [OF run kept(1,2)] Cons.prems(4) kept(3,4) by (auto simp: rs split: get_result.split)
  qed
  from this [OF assms(3) new_cache_inv [OF assms(1)] _ assms(2)]
  have *: "list_all (\<lambda>(sni, r). case r of Got cert \<Rightarrow> P sni cert | _ \<Rightarrow> True) rs" "cache_inv c'" "k_capacity c' = capacity"
    by (auto simp: prov_def new_cache_capacity)
  then show ?thesis
    using cache_link_len [of c'] by (simp add: cache_inv_def cache_len_def)
qed

theorem handshakes_own_certificates_witness:
  "\<exists>rs c'. run_gets False [plain_get ''a'', plain_get ''b'', plain_get ''a''] (new_cert_cache 1) = (rs, c') \<and>
     list_all (\<lambda>(sni, r). case r of Got cert \<Rightarrow> tc_chain cert = [sni] | _ \<Rightarrow> True) rs \<and> int (cache_len c') \<le> 1"
proof -
  obtain rs c' where run: "run_gets False [plain_get ''a'', plain_get ''b'', plain_get ''a''] (new_cert_cache 1) = (rs, c')"
    by fastforce
  have "list_all (issues (\<lambda>sni cert. tc_chain cert = [sni])) [plain_get ''a'', plain_get ''b'', plain_get ''a'']"
    by (auto simp: issues_def plain_get_def plain_cert_def)
  from handshakes_own_certificates [OF _ this run] run show ?thesis by auto
qed

section \<open>Concurrent handshakes\<close>

text \<open>
  Handshakes run in threads. A thread looks up its name, and on a miss enters the single-flight
  group; the function it then runs looks up again, issues, and stores. \<open>admit\<close> is the group's decision
  to run the function for a thread; what it promises is that it runs one at a time per name.
  Time passes between the steps.
\<close>

datatype flight_phase = Checking | Issuing | Storing tls_cert x509

record flight_sys =
  fs_cache :: cert_cache
  fs_flights :: "nat \<Rightarrow> (string \<times> flight_phase) option"
  fs_now :: int

datatype flight_event =
    Peek string
  | Enter nat string
  | CheckHit nat
  | CheckMiss nat
  | IssueFail nat
  | Mint nat string tls_cert
  | StoreLeaf nat
  | Tick int

type_synonym admission = "(nat \<Rightarrow> (string \<times> flight_phase) option) \<Rightarrow> string \<Rightarrow> bool"

inductive flight_step ::
  "admission \<Rightarrow> (int \<Rightarrow> x509 \<Rightarrow> bool) \<Rightarrow> flight_sys \<Rightarrow> flight_event \<Rightarrow> flight_sys \<Rightarrow> bool"
  for admit :: admission and refresh :: "int \<Rightarrow> x509 \<Rightarrow> bool" where
  peek: "flight_step admit refresh s (Peek k)
     (s\<lparr>fs_cache := snd (cache_lookup (refresh (fs_now s)) k (fs_cache s))\<rparr>)"
| enter: "fs_flights s t = None \<Longrightarrow> admit (fs_flights s) k \<Longrightarrow>
     flight_step admit refresh s (Enter t k) (s\<lparr>fs_flights := (fs_flights s)(t := Some (k, Checking))\<rparr>)"
| check_hit: "fs_flights s t = Some (k, Checking) \<Longrightarrow>
     cache_lookup (refresh (fs_now s)) k (fs_cache s) = (Some cert, c') \<Longrightarrow>
     flight_step admit refresh s (CheckHit t) (s\<lparr>fs_cache := c', fs_flights := (fs_flights s)(t := None)\<rparr>)"
| check_miss: "fs_flights s t = Some (k, Checking) \<Longrightarrow>
     cache_lookup (refresh (fs_now s)) k (fs_cache s) = (None, c') \<Longrightarrow>
     flight_step admit refresh s (CheckMiss t) (s\<lparr>fs_cache := c', fs_flights := (fs_flights s)(t := Some (k, Issuing))\<rparr>)"
| issue_fail: "fs_flights s t = Some (k, Issuing) \<Longrightarrow>
     flight_step admit refresh s (IssueFail t) (s\<lparr>fs_flights := (fs_flights s)(t := None)\<rparr>)"
| mint: "fs_flights s t = Some (k, Issuing) \<Longrightarrow>
     flight_step admit refresh s (Mint t k cert) (s\<lparr>fs_flights := (fs_flights s)(t := Some (k, Storing cert leaf))\<rparr>)"
| store_leaf: "fs_flights s t = Some (k, Storing cert leaf) \<Longrightarrow> cache_store k cert leaf (fs_cache s) = Some c' \<Longrightarrow>
     flight_step admit refresh s (StoreLeaf t) (s\<lparr>fs_cache := c', fs_flights := (fs_flights s)(t := None)\<rparr>)"
| tick: "fs_now s \<le> now' \<Longrightarrow> flight_step admit refresh s (Tick now') (s\<lparr>fs_now := now'\<rparr>)"

inductive_cases mint_stepE: "flight_step admit refresh s (Mint t k cert) s'"

definition init_flights :: "int \<Rightarrow> int \<Rightarrow> flight_sys" where
  "init_flights capacity now =
     \<lparr>fs_cache = new_cert_cache capacity, fs_flights = (\<lambda>_. None), fs_now = now\<rparr>"

inductive flight_reach :: "admission \<Rightarrow> (int \<Rightarrow> x509 \<Rightarrow> bool) \<Rightarrow> flight_sys \<Rightarrow> flight_sys \<Rightarrow> bool"
  for admit :: admission and refresh :: "int \<Rightarrow> x509 \<Rightarrow> bool" and s0 :: flight_sys where
  start: "flight_reach admit refresh s0 s0"
| step: "flight_reach admit refresh s0 s \<Longrightarrow> flight_step admit refresh s ev s' \<Longrightarrow> flight_reach admit refresh s0 s'"

text \<open>What \<open>singleflight.Group.Do\<close> documents: the function runs for a key only while no other run for the key is going on.\<close>

definition one_flight :: "admission \<Rightarrow> bool" where
  "one_flight admit \<longleftrightarrow> (\<forall>fl k. admit fl k \<longrightarrow> (\<forall>t ph. fl t \<noteq> Some (k, ph)))"

definition monotone_policy :: "(int \<Rightarrow> x509 \<Rightarrow> bool) \<Rightarrow> bool" where
  "monotone_policy refresh \<longleftrightarrow> (\<forall>t t' leaf. t \<le> t' \<longrightarrow> refresh t leaf \<longrightarrow> refresh t' leaf)"

definition needs_cert :: "(int \<Rightarrow> x509 \<Rightarrow> bool) \<Rightarrow> int \<Rightarrow> cert_cache \<Rightarrow> string \<Rightarrow> bool" where
  "needs_cert refresh now c k =
     (case cache_content c k of None \<Rightarrow> True | Some (cert, leaf) \<Rightarrow> refresh now leaf)"

definition flight_inv :: "(int \<Rightarrow> x509 \<Rightarrow> bool) \<Rightarrow> flight_sys \<Rightarrow> bool" where
  "flight_inv refresh s \<longleftrightarrow>
     cache_inv (fs_cache s) \<and>
     (\<forall>t t' k ph ph'. fs_flights s t = Some (k, ph) \<longrightarrow> fs_flights s t' = Some (k, ph') \<longrightarrow> t = t') \<and>
     (\<forall>t k. fs_flights s t = Some (k, Issuing) \<longrightarrow> needs_cert refresh (fs_now s) (fs_cache s) k)"

lemma lookup_keeps_need:
  assumes "cache_inv c"
  shows "needs_cert refresh now (snd (cache_lookup rf k c)) j = needs_cert refresh now c j"
    "cache_inv (snd (cache_lookup rf k c))"
proof -
  have "snd (cache_lookup rf k c) = c \<or> snd (cache_lookup rf k c) = cache_use k c"
    by (cases "fst (cache_lookup rf k c)") (auto dest: cache_lookup_state cache_lookup_use)
  then show "needs_cert refresh now (snd (cache_lookup rf k c)) j = needs_cert refresh now c j"
    using lru.content_use [OF assms] by (auto simp: needs_cert_def)
  show "cache_inv (snd (cache_lookup rf k c))"
    using lookup_refines [OF assms] by blast
qed

lemma flight_inv_step:
  assumes "flight_step admit refresh s ev s'" "flight_inv refresh s" "one_flight admit" "monotone_policy refresh"
  shows "flight_inv refresh s'"
  using assms(1)
proof cases
  case (peek k)
  then show ?thesis
    using assms(2) lookup_keeps_need [of "fs_cache s"] by (simp add: flight_inv_def)
next
  case (enter t k)
  then show ?thesis
    using assms(2,3) by (auto simp: flight_inv_def one_flight_def split: if_splits)
next
  case (check_hit t k cert c')
  then have "c' = snd (cache_lookup (refresh (fs_now s)) k (fs_cache s))" by simp
  then show ?thesis
    using check_hit(2) assms(2) lookup_keeps_need [of "fs_cache s"]
    by (auto simp: flight_inv_def split: if_splits)
next
  case (check_miss t k c')
  have inv: "cache_inv (fs_cache s)" using assms(2) by (simp add: flight_inv_def)
  have same: "c' = fs_cache s"
    using cache_lookup_state [of "refresh (fs_now s)" k "fs_cache s"] check_miss by simp
  have "needs_cert refresh (fs_now s) (fs_cache s) k"
    using cache_lookup_content [OF inv, of "refresh (fs_now s)" k] check_miss
    by (auto simp: needs_cert_def split: option.splits if_splits)
  then show ?thesis
    using check_miss assms(2) by (auto simp: flight_inv_def same split: if_splits)
next
  case (issue_fail t k)
  then show ?thesis
    using assms(2) by (auto simp: flight_inv_def split: if_splits)
next
  case (mint t k cert leaf)
  then show ?thesis
    using assms(2) by (auto simp: flight_inv_def split: if_splits)
next
  case (store_leaf t k cert leaf c')
  have inv: "cache_inv (fs_cache s)" using assms(2) by (simp add: flight_inv_def)
  have c': "c' = cache_put k cert leaf (fs_cache s)"
    using store_put [OF inv, of k cert leaf] store_leaf by simp
  have other: "needs_cert refresh (fs_now s) c' j" if "j \<noteq> k" "needs_cert refresh (fs_now s) (fs_cache s) j" for j
    using that lru.content_put_other [OF inv that(1), of cert leaf]
    by (auto simp: needs_cert_def c' split: option.splits)
  have "j \<noteq> k" if "fs_flights s t' = Some (j, Issuing)" for t' j
    using that store_leaf(3) assms(2) unfolding flight_inv_def by fastforce
  with other have "needs_cert refresh (fs_now s) c' j" if "fs_flights s t' = Some (j, Issuing)" for t' j
    using that assms(2) by (auto simp: flight_inv_def)
  then show ?thesis
    using store_leaf(2) assms(2) lru.ok_put [OF inv, of k cert leaf]
    by (auto simp: flight_inv_def c' split: if_splits)
next
  case (tick now')
  then show ?thesis
    using assms(2,4) by (auto simp: flight_inv_def needs_cert_def monotone_policy_def split: option.splits)
qed

lemma flight_inv_reach:
  "flight_reach admit refresh s0 s \<Longrightarrow> flight_inv refresh s0 \<Longrightarrow> one_flight admit \<Longrightarrow> monotone_policy refresh \<Longrightarrow>
     flight_inv refresh s"
  by (induction rule: flight_reach.induct) (auto intro: flight_inv_step)

text \<open>
  C23: No superfluous issuance: however the handshakes of any number of threads interleave, a certificate
  is only ever issued for a name while the cache has none for it that needs no refresh, and no two
  threads are issuing for the same name.
\<close>
theorem mint_only_when_needed:
  assumes "0 < capacity" and "one_flight admit" and "monotone_policy refresh"
    and "flight_reach admit refresh (init_flights capacity now) s"
    and "flight_step admit refresh s (Mint t k cert) s'"
  shows "needs_cert refresh (fs_now s) (fs_cache s) k \<and> (\<forall>t' ph. fs_flights s t' = Some (k, ph) \<longrightarrow> t' = t)"
proof -
  have "flight_inv refresh (init_flights capacity now)"
    using assms(1) by (simp add: flight_inv_def init_flights_def)
  with flight_inv_reach [OF assms(4)] assms(2,3) have "flight_inv refresh s" by blast
  with assms(5) show ?thesis
    by (elim mint_stepE) (auto simp: flight_inv_def)
qed

lemma time_sub_mono: "t \<le> t' \<Longrightarrow> time_sub u t' \<le> time_sub u t"
  by (auto simp: time_sub_def)

lemma default_refresh_monotone: "monotone_policy default_refresh"
  unfolding monotone_policy_def default_refresh_def by (blast intro: le_less_trans time_sub_mono)

definition lone_flight :: admission where
  "lone_flight fl k \<longleftrightarrow> (\<forall>t ph. fl t \<noteq> Some (k, ph))"

theorem mint_only_when_needed_witness:
  "\<exists>s. flight_reach lone_flight default_refresh (init_flights 4 0) s \<and> needs_cert default_refresh (fs_now s) (fs_cache s) ''a''"
proof -
  let ?s1 = "(init_flights 4 0)\<lparr>fs_flights := (fs_flights (init_flights 4 0))(7 := Some (''a'', Checking))\<rparr>"
  let ?s2 = "?s1\<lparr>fs_cache := fs_cache ?s1, fs_flights := (fs_flights ?s1)(7 := Some (''a'', Issuing))\<rparr>"
  have "flight_step lone_flight default_refresh (init_flights 4 0) (Enter 7 ''a'') ?s1"
    by (rule flight_step.enter) (simp_all add: init_flights_def lone_flight_def)
  then have r1: "flight_reach lone_flight default_refresh (init_flights 4 0) ?s1"
    by (rule flight_reach.step [OF flight_reach.start])
  have "flight_step lone_flight default_refresh ?s1 (CheckMiss 7) ?s2"
    by (rule flight_step.check_miss) (simp_all add: init_flights_def cache_lookup_def new_cert_cache_def)
  with r1 have r2: "flight_reach lone_flight default_refresh (init_flights 4 0) ?s2"
    by (rule flight_reach.step)
  have "flight_step lone_flight default_refresh ?s2 (Mint 7 ''a'' (plain_cert ''a''))
      (?s2\<lparr>fs_flights := (fs_flights ?s2)(7 := Some (''a'', Storing (plain_cert ''a'') plain_leaf))\<rparr>)"
    by (rule flight_step.mint) simp
  from mint_only_when_needed [OF _ _ default_refresh_monotone r2 this] r2 show ?thesis
    by (auto simp: one_flight_def lone_flight_def)
qed

end
