(* ===== verification/AutoCA.thy ===== *)
theory AutoCA
  imports GoNet Logging
begin

text \<open>
  \<open>internal/tlsmgr/autoca/autoca.go\<close>: the local certificate authority. Keys and DER bytes are
  opaque; generating keys, signing, and the parsers and printers of X.509, PKCS #8 and PEM are arguments
  (\<open>ca_env\<close>), with what the program relies on stated as \<open>ca_crypto_ok\<close>. The file system is a
  map from paths to contents and modes, with the operations it refuses as arguments of the state.
  Shown: which stored pairs are accepted, that a persisted authority is loaded back, and for
  which names and how long a minted certificate is valid.
\<close>

section \<open>Files\<close>

text \<open>An error of a file operation; the program asks only whether it is \<open>fs.ErrNotExist\<close>.\<close>

datatype io_error = NotExist string | IOError string

fun io_text :: "io_error \<Rightarrow> string" where
  "io_text (NotExist e) = e"
| "io_text (IOError e) = e"

record fsys =
  fs_files :: "(bytes \<times> int) gomap"
  fs_dirs :: "string list"
  fs_read_err :: "string \<Rightarrow> string option"
  fs_mkdir_err :: "string \<Rightarrow> string option"
  fs_write_err :: "string \<Rightarrow> string option"

definition read_file :: "fsys \<Rightarrow> string \<Rightarrow> io_error + bytes" where
  "read_file fs path =
     (case fs_read_err fs path of
        Some e \<Rightarrow> Inl (IOError e)
      | None \<Rightarrow> (case lookup (fs_files fs) path of
          None \<Rightarrow> Inl (NotExist (''open '' @ path @ '': no such file or directory''))
        | Some (b, _) \<Rightarrow> Inr b))"

text \<open>\<open>os.WriteFile\<close>: the mode is given to a new file only; an existing one keeps its own.\<close>

definition write_file :: "string \<Rightarrow> bytes \<Rightarrow> int \<Rightarrow> fsys \<Rightarrow> (io_error option) \<times> fsys" where
  "write_file path b mode fs =
     (case fs_write_err fs path of
        Some e \<Rightarrow> (Some (IOError e), fs)
      | None \<Rightarrow>
          (let m = (case lookup (fs_files fs) path of None \<Rightarrow> mode | Some (_, old) \<Rightarrow> old)
           in (None, fs\<lparr>fs_files := AList.update path (b, m) (fs_files fs)\<rparr>)))"

definition mkdir_all :: "string \<Rightarrow> fsys \<Rightarrow> (io_error option) \<times> fsys" where
  "mkdir_all dir fs =
     (case fs_mkdir_err fs dir of
        Some e \<Rightarrow> (Some (IOError e), fs)
      | None \<Rightarrow> (None, if dir \<in> set (fs_dirs fs) then fs else fs\<lparr>fs_dirs := fs_dirs fs @ [dir]\<rparr>))"

text \<open>\<open>filepath.Dir\<close>: the cleaned path up to the last slash.\<close>

fun clean_parts :: "bool \<Rightarrow> string list \<Rightarrow> string list \<Rightarrow> string list" where
  "clean_parts rooted acc [] = rev acc"
| "clean_parts rooted acc (p # ps) =
     (if p = [] \<or> p = ''.'' then clean_parts rooted acc ps
      else if p = ''..'' then
        (case acc of
           a # as \<Rightarrow> if a = ''..'' then clean_parts rooted (p # acc) ps else clean_parts rooted as ps
         | [] \<Rightarrow> clean_parts rooted (if rooted then [] else [p]) ps)
      else clean_parts rooted (p # acc) ps)"

definition clean_path :: "string \<Rightarrow> string" where
  "clean_path path =
     (let rooted = has_prefix path ''/'';
          body = join ''/'' (clean_parts rooted [] (split_on CHR ''/'' path))
      in if rooted then CHR ''/'' # body else if body = [] then ''.'' else body)"

definition dir_of :: "string \<Rightarrow> string" where
  "dir_of path =
     clean_path (case last_index CHR ''/'' path of None \<Rightarrow> [] | Some i \<Rightarrow> take (Suc i) path)"

section \<open>Certificates and keys\<close>

datatype public_key = EcPublic bytes | OtherPublic bytes

datatype private_key = EcPrivate bytes | OtherPrivate bytes

datatype key_usage = CertSign | CRLSign | DigitalSignature

datatype ext_key_usage = ServerAuth

record cert_template =
  ct_serial :: nat
  ct_common_name :: string
  ct_not_before :: int
  ct_not_after :: int
  ct_is_ca :: bool
  ct_basic_constraints :: bool
  ct_key_usage :: "key_usage list"
  ct_ext_key_usage :: "ext_key_usage list"
  ct_dns_names :: "string list"
  ct_ip_addresses :: "ip_addr list"

record ca =
  ca_cert :: x509
  ca_key :: bytes
  ca_pem :: bytes

text \<open>
  \<open>CreateCertificate\<close> takes the parent as a template or as a certificate. \<open>ce_parse\<close> gives the parsed certificate with
  its public key.
\<close>

datatype parent = SelfSigned cert_template | SignedBy x509

record ca_env =
  ce_generate_key :: "string + bytes"
  ce_random :: "nat \<Rightarrow> string + nat"
  ce_now :: int
  ce_hostname :: "string option"
  ce_public_of :: "bytes \<Rightarrow> bytes"
  ce_create :: "cert_template \<Rightarrow> parent \<Rightarrow> bytes \<Rightarrow> bytes \<Rightarrow> string + bytes"
  ce_parse :: "bytes \<Rightarrow> string + x509 \<times> public_key"
  ce_pem_encode :: "string \<Rightarrow> bytes \<Rightarrow> bytes"
  ce_pem_decode :: "bytes \<Rightarrow> (string \<times> bytes) option"
  ce_marshal_pkcs8 :: "bytes \<Rightarrow> string + bytes"
  ce_parse_pkcs8 :: "bytes \<Rightarrow> string + private_key"
  ce_parse_ec :: "bytes \<Rightarrow> string + bytes"
  ce_quote :: "string \<Rightarrow> string"

definition ca_common_name :: string where
  "ca_common_name = ''https-echo-server Root CA''"

definition ca_validity :: int where
  "ca_validity = 10 * 365 * 24 * 3600 * 1000000000"

definition not_before_skew :: int where
  "not_before_skew = 5 * 60 * 1000000000"

section \<open>Making an authority\<close>

definition random_serial :: "ca_env \<Rightarrow> string + nat" where
  "random_serial env =
     (case ce_random env (2 ^ 128) of Inl e \<Rightarrow> Inl (''generating serial: '' @ e) | Inr n \<Rightarrow> Inr n)"

definition ca_template :: "ca_env \<Rightarrow> nat \<Rightarrow> cert_template" where
  "ca_template env serial =
     \<lparr>ct_serial = serial, ct_common_name = ca_common_name, ct_not_before = ce_now env - not_before_skew,
      ct_not_after = ce_now env + ca_validity, ct_is_ca = True, ct_basic_constraints = True,
      ct_key_usage = [CertSign, CRLSign, DigitalSignature], ct_ext_key_usage = [],
      ct_dns_names = [], ct_ip_addresses = []\<rparr>"

definition new_ca :: "ca_env \<Rightarrow> string + ca" where
  "new_ca env =
     (case ce_generate_key env of
        Inl e \<Rightarrow> Inl (''generating CA key: '' @ e)
      | Inr key \<Rightarrow>
          (case random_serial env of
             Inl e \<Rightarrow> Inl e
           | Inr serial \<Rightarrow>
               (let tmpl = ca_template env serial in
                case ce_create env tmpl (SelfSigned tmpl) (ce_public_of env key) key of
                  Inl e \<Rightarrow> Inl (''creating CA certificate: '' @ e)
                | Inr der \<Rightarrow>
                    (case ce_parse env der of
                       Inl e \<Rightarrow> Inl e
                     | Inr (cert, _) \<Rightarrow>
                         Inr \<lparr>ca_cert = cert, ca_key = key, ca_pem = ce_pem_encode env ''CERTIFICATE'' der\<rparr>))))"

section \<open>Loading one\<close>

text \<open>The errors of \<open>Load\<close>: those of the two files as they are, and the others by their text.\<close>

datatype load_error = FileError io_error | BadPair string

definition parse_ec_key :: "ca_env \<Rightarrow> bytes \<Rightarrow> string + bytes" where
  "parse_ec_key env key_pem =
     (case ce_pem_decode env key_pem of
        None \<Rightarrow> Inl ''no PEM block in key file''
      | Some (_, b) \<Rightarrow>
          (case ce_parse_pkcs8 env b of
             Inr (EcPrivate key) \<Rightarrow> Inr key
           | Inr (OtherPrivate _) \<Rightarrow> Inl ''CA key is not an ECDSA key''
           | Inl _ \<Rightarrow> ce_parse_ec env b))"

definition load_pair :: "ca_env \<Rightarrow> bytes \<Rightarrow> bytes \<Rightarrow> string + ca" where
  "load_pair env cert_pem key_pem =
     (case ce_pem_decode env cert_pem of
        None \<Rightarrow> Inl ''no CERTIFICATE block in CA cert file''
      | Some (typ, der) \<Rightarrow>
          if typ \<noteq> ''CERTIFICATE'' then Inl ''no CERTIFICATE block in CA cert file''
          else
            (case ce_parse env der of
               Inl e \<Rightarrow> Inl (''parsing CA certificate: '' @ e)
             | Inr (cert, pub) \<Rightarrow>
                 if \<not> x_is_ca cert then Inl ''stored certificate is not a CA''
                 else
                   (case parse_ec_key env key_pem of
                      Inl e \<Rightarrow> Inl (''parsing CA key: '' @ e)
                    | Inr key \<Rightarrow>
                        if pub \<noteq> EcPublic (ce_public_of env key)
                        then Inl ''CA private key does not match the CA certificate''
                        else Inr \<lparr>ca_cert = cert, ca_key = key, ca_pem = cert_pem\<rparr>)))"

definition load_ca :: "ca_env \<Rightarrow> fsys \<Rightarrow> string \<Rightarrow> string \<Rightarrow> load_error + ca" where
  "load_ca env fs cert_file key_file =
     (case read_file fs cert_file of
        Inl e \<Rightarrow> Inl (FileError e)
      | Inr cert_pem \<Rightarrow>
          (case read_file fs key_file of
             Inl e \<Rightarrow> Inl (FileError e)
           | Inr key_pem \<Rightarrow> (case load_pair env cert_pem key_pem of Inl e \<Rightarrow> Inl (BadPair e) | Inr a \<Rightarrow> Inr a)))"

section \<open>Persisting one\<close>

definition persist :: "ca_env \<Rightarrow> ca \<Rightarrow> string \<Rightarrow> string \<Rightarrow> fsys \<Rightarrow> (string option) \<times> fsys" where
  "persist env a cert_file key_file fs =
     (case ce_marshal_pkcs8 env (ca_key a) of
        Inl e \<Rightarrow> (Some e, fs)
      | Inr der \<Rightarrow>
          (let key_pem = ce_pem_encode env ''PRIVATE KEY'' der in
           case mkdir_all (dir_of cert_file) fs of
             (Some e, fs1) \<Rightarrow> (Some (io_text e), fs1)
           | (None, fs1) \<Rightarrow>
               (case mkdir_all (dir_of key_file) fs1 of
                  (Some e, fs2) \<Rightarrow> (Some (io_text e), fs2)
                | (None, fs2) \<Rightarrow>
                    (case write_file cert_file (ca_pem a) 0x1A4 fs2 of
                       (Some e, fs3) \<Rightarrow> (Some (io_text e), fs3)
                     | (None, fs3) \<Rightarrow> map_prod (map_option io_text) id (write_file key_file key_pem 0x180 fs3)))))"

section \<open>Minting\<close>

definition leaf_common_name :: "ca_env \<Rightarrow> string \<Rightarrow> string" where
  "leaf_common_name env sni =
     (if sni \<noteq> [] then sni else case ce_hostname env of Some h \<Rightarrow> h | None \<Rightarrow> ''localhost'')"

text \<open>\<open>net.ParseIP\<close>: an address without a zone.\<close>

definition parse_ip :: "string \<Rightarrow> ip_addr option" where
  "parse_ip s = (case parse_addr s of Some a \<Rightarrow> if has_zone a then None else Some a | None \<Rightarrow> None)"

definition leaf_names :: "ca_env \<Rightarrow> string \<Rightarrow> string list \<times> ip_addr list" where
  "leaf_names env sni =
     (if sni \<noteq> [] then (case parse_ip sni of Some ip \<Rightarrow> ([], [ip]) | None \<Rightarrow> ([sni], []))
      else
        (''localhost'' # (case ce_hostname env of Some h \<Rightarrow> if h \<noteq> ''localhost'' then [h] else [] | None \<Rightarrow> []),
         [V4 0x7F000001, V6 1 []]))"

definition leaf_template :: "ca_env \<Rightarrow> nat \<Rightarrow> string \<Rightarrow> int \<Rightarrow> cert_template" where
  "leaf_template env serial sni ttl =
     \<lparr>ct_serial = serial, ct_common_name = leaf_common_name env sni,
      ct_not_before = ce_now env - not_before_skew, ct_not_after = ce_now env + ttl,
      ct_is_ca = False, ct_basic_constraints = False,
      ct_key_usage = [DigitalSignature], ct_ext_key_usage = [ServerAuth],
      ct_dns_names = fst (leaf_names env sni), ct_ip_addresses = snd (leaf_names env sni)\<rparr>"

definition mint :: "ca_env \<Rightarrow> ca \<Rightarrow> string \<Rightarrow> int \<Rightarrow> string + tls_cert" where
  "mint env a sni ttl =
     (case ce_generate_key env of
        Inl e \<Rightarrow> Inl (''generating leaf key: '' @ e)
      | Inr key \<Rightarrow>
          (case random_serial env of
             Inl e \<Rightarrow> Inl e
           | Inr serial \<Rightarrow>
               (case ce_create env (leaf_template env serial sni ttl) (SignedBy (ca_cert a)) (ce_public_of env key) (ca_key a) of
                  Inl e \<Rightarrow> Inl (''minting certificate for '' @ ce_quote env sni @ '': '' @ e)
                | Inr der \<Rightarrow>
                    (case ce_parse env der of
                       Inl e \<Rightarrow> Inl e
                     | Inr (leaf, _) \<Rightarrow> Inr \<lparr>tc_chain = [der], tc_key = key, tc_leaf = Some leaf\<rparr>))))"

section \<open>Which pairs are accepted\<close>

lemma parse_ec_key_iff:
  "parse_ec_key env key_pem = Inr key \<longleftrightarrow>
     (\<exists>typ b. ce_pem_decode env key_pem = Some (typ, b) \<and>
        (ce_parse_pkcs8 env b = Inr (EcPrivate key) \<or> (\<exists>e. ce_parse_pkcs8 env b = Inl e) \<and> ce_parse_ec env b = Inr key))"
  by (auto simp: parse_ec_key_def split: option.splits sum.splits private_key.splits)

lemma load_pair_iff:
  "load_pair env cert_pem key_pem = Inr a \<longleftrightarrow>
     (\<exists>der. ce_pem_decode env cert_pem = Some (''CERTIFICATE'', der) \<and>
        ce_parse env der = Inr (ca_cert a, EcPublic (ce_public_of env (ca_key a))) \<and> x_is_ca (ca_cert a) \<and>
        parse_ec_key env key_pem = Inr (ca_key a) \<and> ca_pem a = cert_pem)"
  by (cases a) (auto simp: load_pair_def split: option.splits sum.splits if_splits)

text \<open>
  C21: What \<open>Load\<close> accepts: exactly a certificate file whose first PEM block is of type \<open>CERTIFICATE\<close> and parses as a CA
  certificate with an ECDSA key, with a key file whose first PEM block, of any type, is that key: in PKCS #8 form, or, if it
  does not parse as PKCS #8 at all, in the form of SEC 1. The authority then has that certificate, that key, and the
  certificate file as it is. A key of another algorithm or of another certificate is not accepted.
\<close>
theorem load_accepts_iff:
  "load_ca env fs cert_file key_file = Inr a \<longleftrightarrow>
     (\<exists>key_pem der typ b. read_file fs cert_file = Inr (ca_pem a) \<and> read_file fs key_file = Inr key_pem \<and>
        ce_pem_decode env (ca_pem a) = Some (''CERTIFICATE'', der) \<and>
        ce_parse env der = Inr (ca_cert a, EcPublic (ce_public_of env (ca_key a))) \<and> x_is_ca (ca_cert a) \<and>
        ce_pem_decode env key_pem = Some (typ, b) \<and>
        (ce_parse_pkcs8 env b = Inr (EcPrivate (ca_key a)) \<or>
         (\<exists>e. ce_parse_pkcs8 env b = Inl e) \<and> ce_parse_ec env b = Inr (ca_key a)))"
proof -
  have "load_ca env fs cert_file key_file = Inr a \<longleftrightarrow>
     (\<exists>cp kp. read_file fs cert_file = Inr cp \<and> read_file fs key_file = Inr kp \<and> load_pair env cp kp = Inr a)"
    by (auto simp: load_ca_def split: sum.splits)
  then show ?thesis
    unfolding load_pair_iff parse_ec_key_iff by blast
qed

section \<open>What the program relies on of the cryptographic library\<close>

text \<open>
  A certificate created from a template has the template's fields: its times in whole seconds, and its addresses in four
  bytes where they are IPv4.
\<close>

definition whole_seconds :: "int \<Rightarrow> int" where
  "whole_seconds t = t div 1000000000 * 1000000000"

definition ca_crypto_ok :: "ca_env \<Rightarrow> bool" where
  "ca_crypto_ok env \<longleftrightarrow>
     (\<forall>typ b. ce_pem_decode env (ce_pem_encode env typ b) = Some (typ, b)) \<and>
     (\<forall>key der. ce_marshal_pkcs8 env key = Inr der \<longrightarrow> ce_parse_pkcs8 env der = Inr (EcPrivate key)) \<and>
     (\<forall>tmpl par pub key der cert p. ce_create env tmpl par pub key = Inr der \<longrightarrow> ce_parse env der = Inr (cert, p) \<longrightarrow>
        p = EcPublic pub \<and> x_is_ca cert = ct_is_ca tmpl \<and> x_dns_names cert = ct_dns_names tmpl \<and>
        x_ip_addresses cert = map unmap (ct_ip_addresses tmpl) \<and>
        x_not_before cert = whole_seconds (ct_not_before tmpl) \<and> x_not_after cert = whole_seconds (ct_not_after tmpl))"

lemma crypto_pem: "ca_crypto_ok env \<Longrightarrow> ce_pem_decode env (ce_pem_encode env typ b) = Some (typ, b)"
  by (simp add: ca_crypto_ok_def)

lemma crypto_pkcs8: "ca_crypto_ok env \<Longrightarrow> ce_marshal_pkcs8 env key = Inr der \<Longrightarrow> ce_parse_pkcs8 env der = Inr (EcPrivate key)"
  by (simp add: ca_crypto_ok_def)

lemma crypto_create:
  assumes "ca_crypto_ok env" "ce_create env tmpl par pub key = Inr der" "ce_parse env der = Inr (cert, p)"
  shows "p = EcPublic pub \<and> x_is_ca cert = ct_is_ca tmpl \<and> x_dns_names cert = ct_dns_names tmpl \<and>
    x_ip_addresses cert = map unmap (ct_ip_addresses tmpl) \<and>
    x_not_before cert = whole_seconds (ct_not_before tmpl) \<and> x_not_after cert = whole_seconds (ct_not_after tmpl)"
  using assms unfolding ca_crypto_ok_def by blast

lemma mkdir_files: "mkdir_all d fs = (r, fs') \<Longrightarrow> fs_files fs' = fs_files fs \<and> fs_read_err fs' = fs_read_err fs \<and> fs_write_err fs' = fs_write_err fs"
  by (auto simp: mkdir_all_def split: option.splits if_splits)

text \<open>A successful \<open>Persist\<close> writes the two files and nothing else.\<close>

lemma persist_files:
  assumes "persist env a cert_file key_file fs = (None, fs')"
  obtains der fs2 where "ce_marshal_pkcs8 env (ca_key a) = Inr der" "fs_files fs2 = fs_files fs" "fs_read_err fs2 = fs_read_err fs"
    "write_file cert_file (ca_pem a) 0x1A4 fs2 = (None, snd (write_file cert_file (ca_pem a) 0x1A4 fs2))"
    "write_file key_file (ce_pem_encode env ''PRIVATE KEY'' der) 0x180 (snd (write_file cert_file (ca_pem a) 0x1A4 fs2)) = (None, fs')"
proof -
  from assms obtain der where der: "ce_marshal_pkcs8 env (ca_key a) = Inr der"
    by (auto simp: persist_def Let_def split: sum.splits)
  from assms der obtain fs1 where d1: "mkdir_all (dir_of cert_file) fs = (None, fs1)"
    by (auto simp: persist_def Let_def split: prod.splits option.splits)
  from assms der d1 obtain fs2 where d2: "mkdir_all (dir_of key_file) fs1 = (None, fs2)"
    by (auto simp: persist_def Let_def split: prod.splits option.splits)
  from assms der d1 d2 obtain fs3 where w: "write_file cert_file (ca_pem a) 0x1A4 fs2 = (None, fs3)"
    by (auto simp: persist_def Let_def split: prod.splits option.splits)
  have "write_file key_file (ce_pem_encode env ''PRIVATE KEY'' der) 0x180 fs3 = (None, fs')"
    using assms der d1 d2 w
    by (cases "write_file key_file (ce_pem_encode env ''PRIVATE KEY'' der) 0x180 fs3") (simp add: persist_def Let_def)
  then show ?thesis
    using der w mkdir_files [OF d1] mkdir_files [OF d2] by (intro that [of der fs2]) simp_all
qed

lemma write_file_done:
  "write_file path b mode fs = (None, fs') \<Longrightarrow>
     lookup (fs_files fs') p = (if p = path then Some (b, case lookup (fs_files fs) path of None \<Rightarrow> mode | Some (_, old) \<Rightarrow> old)
       else lookup (fs_files fs) p) \<and> fs_read_err fs' = fs_read_err fs"
  by (auto simp: write_file_def Let_def split: option.splits)

lemma persist_load:
  assumes "ca_crypto_ok env" "new_ca env = Inr a" "persist env a cert_file key_file fs = (None, fs')"
    and "cert_file \<noteq> key_file" "fs_read_err fs cert_file = None" "fs_read_err fs key_file = None"
  shows "load_ca env fs' cert_file key_file = Inr a"
proof -
  obtain key der serial where key: "ca_key a = key" "ca_pem a = ce_pem_encode env ''CERTIFICATE'' der"
    "ce_create env (ca_template env serial) (SelfSigned (ca_template env serial)) (ce_public_of env key) key = Inr der"
    and parsed: "\<exists>p. ce_parse env der = Inr (ca_cert a, p)"
    using assms(2) by (auto simp: new_ca_def Let_def split: sum.splits)
  then have cert: "ce_parse env der = Inr (ca_cert a, EcPublic (ce_public_of env key))" "x_is_ca (ca_cert a)"
    using crypto_create [OF assms(1) key(3)] by (auto simp: ca_template_def)
  obtain kder fs2 where w: "ce_marshal_pkcs8 env (ca_key a) = Inr kder" "fs_files fs2 = fs_files fs" "fs_read_err fs2 = fs_read_err fs"
    "write_file cert_file (ca_pem a) 0x1A4 fs2 = (None, snd (write_file cert_file (ca_pem a) 0x1A4 fs2))"
    "write_file key_file (ce_pem_encode env ''PRIVATE KEY'' kder) 0x180 (snd (write_file cert_file (ca_pem a) 0x1A4 fs2)) = (None, fs')"
    by (rule persist_files [OF assms(3)])
  note w1 = write_file_done [OF w(4)] and w2 = write_file_done [OF w(5)]
  have "read_file fs' cert_file = Inr (ca_pem a)"
    "read_file fs' key_file = Inr (ce_pem_encode env ''PRIVATE KEY'' kder)"
    using w1 [of cert_file] w2 [of cert_file] w2 [of key_file] w(3) assms(4-6) by (simp_all add: read_file_def)
  moreover have "ce_pem_decode env (ca_pem a) = Some (''CERTIFICATE'', der)"
    "parse_ec_key env (ce_pem_encode env ''PRIVATE KEY'' kder) = Inr (ca_key a)"
    using crypto_pem [OF assms(1)] crypto_pkcs8 [OF assms(1) w(1)] by (simp_all add: key(2) parse_ec_key_def)
  then have "load_pair env (ca_pem a) (ce_pem_encode env ''PRIVATE KEY'' kder) = Inr a"
    using cert by (simp add: load_pair_def key(1))
  ultimately show ?thesis by (simp add: load_ca_def)
qed

text \<open>
  A generated authority survives a restart: once \<open>Persist\<close> has succeeded for two different files that
  can be read, \<open>Load\<close> gives the same authority, so the clients that trust it go on doing so.
\<close>
theorem persisted_ca_loads:
  assumes "ca_crypto_ok env" "new_ca env = Inr a" "persist env a cert_file key_file fs = (None, fs')"
    and "cert_file \<noteq> key_file" "fs_read_err fs cert_file = None" "fs_read_err fs key_file = None"
  shows "load_ca env fs' cert_file key_file = Inr a"
  using assms by (rule persist_load)

text \<open>
  The mode of the key file: a key file that \<open>Persist\<close> creates is readable by its owner only, but one
  that exists keeps the mode it had, however open, with the new key in it.
\<close>
theorem persisted_key_mode:
  assumes "persist env a cert_file key_file fs = (None, fs')" "cert_file \<noteq> key_file"
  shows "map_option snd (lookup (fs_files fs') key_file) =
    Some (case lookup (fs_files fs) key_file of None \<Rightarrow> 0x180 | Some (_, old) \<Rightarrow> old)"
proof -
  obtain kder fs2 where w: "ce_marshal_pkcs8 env (ca_key a) = Inr kder" "fs_files fs2 = fs_files fs" "fs_read_err fs2 = fs_read_err fs"
    "write_file cert_file (ca_pem a) 0x1A4 fs2 = (None, snd (write_file cert_file (ca_pem a) 0x1A4 fs2))"
    "write_file key_file (ce_pem_encode env ''PRIVATE KEY'' kder) 0x180 (snd (write_file cert_file (ca_pem a) 0x1A4 fs2)) = (None, fs')"
    by (rule persist_files [OF assms(1)])
  show ?thesis
    using write_file_done [OF w(4), of key_file] write_file_done [OF w(5), of key_file] w(2) assms(2)
    by (simp split: option.split)
qed

section \<open>What is minted\<close>

lemma mint_leaf:
  assumes "ca_crypto_ok env" "mint env a sni ttl = Inr c"
  shows "\<exists>leaf der. tc_leaf c = Some leaf \<and> tc_chain c = [der] \<and> ce_generate_key env = Inr (tc_key c) \<and>
    (case parse_ip sni of
       Some ip \<Rightarrow> x_dns_names leaf = [] \<and> x_ip_addresses leaf = [unmap ip]
     | None \<Rightarrow>
         if sni \<noteq> [] then x_dns_names leaf = [sni] \<and> x_ip_addresses leaf = []
         else x_dns_names leaf = ''localhost'' # filter (\<lambda>h. h \<noteq> ''localhost'') (case ce_hostname env of None \<Rightarrow> [] | Some h \<Rightarrow> [h]) \<and>
           x_ip_addresses leaf = [V4 0x7F000001, V6 1 []]) \<and>
    \<not> x_is_ca leaf \<and> x_not_before leaf = whole_seconds (ce_now env - 300000000000) \<and>
    x_not_after leaf = whole_seconds (ce_now env + ttl)"
proof -
  obtain serial der leaf p where m: "ce_generate_key env = Inr (tc_key c)" "tc_chain c = [der]" "tc_leaf c = Some leaf"
    "ce_create env (leaf_template env serial sni ttl) (SignedBy (ca_cert a)) (ce_public_of env (tc_key c)) (ca_key a) = Inr der"
    "ce_parse env der = Inr (leaf, p)"
    using assms(2) by (auto simp: mint_def split: sum.splits)
  have names: "x_dns_names leaf = fst (leaf_names env sni)" "x_ip_addresses leaf = map unmap (snd (leaf_names env sni))"
    "\<not> x_is_ca leaf" "x_not_before leaf = whole_seconds (ce_now env - 300000000000)" "x_not_after leaf = whole_seconds (ce_now env + ttl)"
    using crypto_create [OF assms(1) m(4,5)] by (simp_all add: leaf_template_def not_before_skew_def)
  have "parse_ip [] = None" by (simp add: parse_ip_def parse_addr_def)
  then show ?thesis
    using m names by (cases "sni = []") (auto simp: leaf_names_def unmap_def split: option.split)
qed

text \<open>
  C22: Minted certificates: a certificate minted for a name is valid for exactly that DNS name and for no address, one for an
  address for exactly that address and no DNS name, and one minted without SNI for localhost, the host's name, 127.0.0.1
  and ::1; it is no CA, it has the new key, it is valid from five minutes before now for the configured time (in whole
  seconds), and it carries its parsed leaf.
\<close>
theorem minted_leaf:
  assumes "ca_crypto_ok env" "mint env a sni ttl = Inr c"
  shows "\<exists>leaf der. tc_leaf c = Some leaf \<and> tc_chain c = [der] \<and> ce_generate_key env = Inr (tc_key c) \<and>
    (case parse_ip sni of
       Some ip \<Rightarrow> x_dns_names leaf = [] \<and> x_ip_addresses leaf = [unmap ip]
     | None \<Rightarrow>
         if sni \<noteq> [] then x_dns_names leaf = [sni] \<and> x_ip_addresses leaf = []
         else x_dns_names leaf = ''localhost'' # filter (\<lambda>h. h \<noteq> ''localhost'') (case ce_hostname env of None \<Rightarrow> [] | Some h \<Rightarrow> [h]) \<and>
           x_ip_addresses leaf = [V4 0x7F000001, V6 1 []]) \<and>
    \<not> x_is_ca leaf \<and> x_not_before leaf = whole_seconds (ce_now env - 300000000000) \<and>
    x_not_after leaf = whole_seconds (ce_now env + ttl)"
  using assms by (rule mint_leaf)

section \<open>The properties at work\<close>

text \<open>A library that signs three certificates, and a PEM format with a length in unary.\<close>

definition unary_encode :: "string \<Rightarrow> bytes \<Rightarrow> bytes" where
  "unary_encode typ b = replicate (length typ) CHR ''1'' @ CHR ''0'' # typ @ b"

definition unary_decode :: "bytes \<Rightarrow> (string \<times> bytes) option" where
  "unary_decode s =
     (let n = length (takeWhile (\<lambda>c. c = CHR ''1'') s)
      in Some (take n (drop (Suc n) s), drop n (drop (Suc n) s)))"

lemma unary_roundtrip: "unary_decode (unary_encode typ b) = Some (typ, b)"
proof -
  have "takeWhile (\<lambda>c. c = CHR ''1'') (unary_encode typ b) = replicate (length typ) CHR ''1''"
    by (simp add: unary_encode_def takeWhile_append)
  then show ?thesis
    by (simp add: unary_decode_def Let_def) (simp add: unary_encode_def)
qed

definition blank_ca_env :: ca_env where
  "blank_ca_env =
     \<lparr>ce_generate_key = Inr ''key'', ce_random = (\<lambda>_. Inr 7), ce_now = 1000000000000, ce_hostname = Some ''box'',
      ce_public_of = (\<lambda>k. k), ce_create = (\<lambda>_ _ _ _. Inl ''no''), ce_parse = (\<lambda>_. Inl ''no''),
      ce_pem_encode = unary_encode, ce_pem_decode = unary_decode, ce_marshal_pkcs8 = Inr,
      ce_parse_pkcs8 = (\<lambda>b. Inr (EcPrivate b)), ce_parse_ec = Inl, ce_quote = (\<lambda>s. s)\<rparr>"

definition sample_x509 :: "bool \<Rightarrow> string list \<Rightarrow> int \<Rightarrow> x509" where
  "sample_x509 is_ca names not_after =
     \<lparr>x_raw = [], x_subject = [], x_issuer = [], x_serial = [], x_not_before = 700000000000, x_not_after = not_after,
      x_dns_names = names, x_ip_addresses = [], x_is_ca = is_ca\<rparr>"

definition sample_ca_env :: ca_env where
  "sample_ca_env = blank_ca_env\<lparr>
     ce_create := (\<lambda>tmpl _ pub _.
        if tmpl = ca_template blank_ca_env 7 \<and> pub = ''key'' then Inr ''root''
        else if tmpl = leaf_template blank_ca_env 7 ''a.example'' 3600000000000 \<and> pub = ''key'' then Inr ''leaf''
        else if tmpl = leaf_template blank_ca_env 7 ''192.0.2.1'' 3600000000000 \<and> pub = ''key'' then Inr ''leaf4'' else Inl ''no''),
     ce_parse := (\<lambda>der.
        if der = ''root'' then Inr (sample_x509 True [] 315361000000000000, EcPublic ''key'')
        else if der = ''leaf'' then Inr (sample_x509 False [''a.example''] 4600000000000, EcPublic ''key'')
        else if der = ''leaf4'' then
          Inr (sample_x509 False [] 4600000000000\<lparr>x_ip_addresses := [V4 0xC0000201]\<rparr>, EcPublic ''key'') else Inl ''no'')\<rparr>"

lemma sample_ca_simps [simp]:
  "ca_template sample_ca_env n = ca_template blank_ca_env n"
  "leaf_template sample_ca_env n sni ttl = leaf_template blank_ca_env n sni ttl"
  "random_serial sample_ca_env = Inr 7" "ce_generate_key sample_ca_env = Inr ''key''" "ce_public_of sample_ca_env = (\<lambda>k. k)"
  "ce_pem_encode sample_ca_env = unary_encode" "ce_pem_decode sample_ca_env = unary_decode"
  "ce_marshal_pkcs8 sample_ca_env = Inr" "ce_parse_pkcs8 sample_ca_env = (\<lambda>b. Inr (EcPrivate b))"
  by (simp_all add: sample_ca_env_def blank_ca_env_def ca_template_def leaf_template_def leaf_names_def leaf_common_name_def
      random_serial_def)

lemma sample_parse_ip: "parse_ip ''a.example'' = None" "parse_ip ''192.0.2.1'' = Some (V4 0xC0000201)"
  by code_simp+

lemma sample_crypto: "ca_crypto_ok sample_ca_env"
proof -
  note sample_parse_ip
  then show ?thesis
    unfolding ca_crypto_ok_def
    by (auto simp: unary_roundtrip) (auto simp: sample_ca_env_def blank_ca_env_def sample_x509_def ca_template_def leaf_template_def
        leaf_names_def unmap_def ca_validity_def not_before_skew_def whole_seconds_def split: if_splits)
qed

definition sample_ca :: ca where
  "sample_ca = \<lparr>ca_cert = sample_x509 True [] 315361000000000000, ca_key = ''key'', ca_pem = unary_encode ''CERTIFICATE'' ''root''\<rparr>"

lemma sample_new: "new_ca sample_ca_env = Inr sample_ca"
  by (simp add: new_ca_def sample_ca_def) (simp add: sample_ca_env_def blank_ca_env_def)

definition empty_fs :: fsys where
  "empty_fs = \<lparr>fs_files = [], fs_dirs = [], fs_read_err = (\<lambda>_. None), fs_mkdir_err = (\<lambda>_. None), fs_write_err = (\<lambda>_. None)\<rparr>"

lemma sample_persist:
  "persist sample_ca_env sample_ca ''/d/ca.pem'' ''/d/ca.key'' (empty_fs\<lparr>fs_files := files\<rparr>)
     = (None, snd (persist sample_ca_env sample_ca ''/d/ca.pem'' ''/d/ca.key'' (empty_fs\<lparr>fs_files := files\<rparr>)))"
  by (simp add: persist_def mkdir_all_def write_file_def empty_fs_def Let_def)

theorem persisted_ca_loads_witness:
  "load_ca sample_ca_env (snd (persist sample_ca_env sample_ca ''/d/ca.pem'' ''/d/ca.key'' (empty_fs\<lparr>fs_files := []\<rparr>)))
     ''/d/ca.pem'' ''/d/ca.key'' = Inr sample_ca"
  by (rule persisted_ca_loads [OF sample_crypto sample_new sample_persist]) (simp_all add: empty_fs_def)

theorem persisted_key_mode_witness:
  "map_option snd (lookup (fs_files (snd (persist sample_ca_env sample_ca ''/d/ca.pem'' ''/d/ca.key''
     (empty_fs\<lparr>fs_files := [(''/d/ca.key'', ([], 0x1A4))]\<rparr>)))) ''/d/ca.key'') = Some 0x1A4"
  using persisted_key_mode [OF sample_persist, of "[(''/d/ca.key'', ([], 0x1A4))]"] by simp

lemma sample_mints:
  "\<exists>c. mint sample_ca_env sample_ca ''a.example'' 3600000000000 = Inr c"
  "\<exists>c. mint sample_ca_env sample_ca ''192.0.2.1'' 3600000000000 = Inr c"
  by (simp add: mint_def, simp add: sample_ca_env_def ca_template_def leaf_template_def leaf_common_name_def)+

lemma sample_ca_now [simp]: "ce_now sample_ca_env = 1000000000000"
  by (simp add: sample_ca_env_def blank_ca_env_def)

theorem minted_leaf_witness:
  "\<exists>c leaf. mint sample_ca_env sample_ca ''192.0.2.1'' 3600000000000 = Inr c \<and> tc_leaf c = Some leaf \<and>
     x_dns_names leaf = [] \<and> x_ip_addresses leaf = [V4 0xC0000201] \<and> \<not> x_is_ca leaf \<and> x_not_after leaf = 4600000000000"
proof -
  obtain c where c: "mint sample_ca_env sample_ca ''192.0.2.1'' 3600000000000 = Inr c"
    using sample_mints by blast
  then show ?thesis
    using minted_leaf [OF sample_crypto c] by (auto simp: whole_seconds_def sample_parse_ip sample_ca_now unmap_def)
qed

text \<open>A key file in the older form: the PKCS #8 parser rejects it and the other one does not.\<close>

theorem load_accepts_iff_witness:
  "load_ca (sample_ca_env\<lparr>ce_parse_pkcs8 := (\<lambda>_. Inl ''not PKCS #8''), ce_parse_ec := Inr\<rparr>)
     (empty_fs\<lparr>fs_files := [(''/c'', (ca_pem sample_ca, 0x1A4)), (''/k'', (unary_encode ''EC PRIVATE KEY'' ''key'', 0x180))]\<rparr>)
     ''/c'' ''/k'' = Inr sample_ca \<and>
   load_ca (sample_ca_env\<lparr>ce_parse_pkcs8 := (\<lambda>_. Inr (OtherPrivate ''key'')), ce_parse_ec := Inr\<rparr>)
     (empty_fs\<lparr>fs_files := [(''/c'', (ca_pem sample_ca, 0x1A4)), (''/k'', (unary_encode ''PRIVATE KEY'' ''key'', 0x180))]\<rparr>)
     ''/c'' ''/k'' \<noteq> Inr sample_ca"
proof -
  have parse: "ce_parse sample_ca_env ''root'' = Inr (sample_x509 True [] 315361000000000000, EcPublic ''key'')"
    by (simp add: sample_ca_env_def)
  show ?thesis
    unfolding load_accepts_iff
    by (simp add: read_file_def empty_fs_def sample_ca_def unary_roundtrip parse) (simp add: sample_x509_def)
qed

end
