(* ===== verification/VaultPKI.thy ===== *)
theory VaultPKI
  imports Json
begin

text \<open>
  \<open>internal/tlsmgr/vaultpki/vaultpki.go\<close>: the client of Vault's PKI engine. The HTTP exchange, the decoding
  of Vault's JSON replies and the assembly of a key pair are arguments (\<open>vault_env\<close>); the requests, the checks on the
  replies and the errors are modelled. Shown: what is sent, and from which replies a certificate is made.
\<close>

section \<open>The client\<close>

record vault_config =
  vc_addr :: string
  vc_token :: string
  vc_namespace :: string
  vc_mount :: string
  vc_role :: string
  vc_ttl :: int
  vc_ca_cert :: string
  vc_skip_verify :: bool

record vault_http =
  vh_min_version :: nat
  vh_insecure_skip_verify :: bool
  vh_root_pem :: "bytes option"
  vh_timeout :: int

record vault_client =
  vl_cfg :: vault_config
  vl_http :: vault_http

record vault_request =
  vr_method :: string
  vr_url :: string
  vr_header :: header
  vr_body :: bytes

text \<open>A reply has its status line's text and code, and what reading its body gives.\<close>

record vault_reply =
  vp_status :: string
  vp_code :: int
  vp_body :: "string + bytes"

record issue_data =
  is_certificate :: string
  is_private_key :: string
  is_ca_chain :: "string list"
  is_issuing_ca :: string

record vault_env =
  ve_read_file :: "string \<Rightarrow> string + bytes"
  ve_has_certs :: "bytes \<Rightarrow> bool"
  ve_hostname :: "string option"
  ve_new_request :: "string \<Rightarrow> string \<Rightarrow> string option"
  ve_do :: "vault_http \<Rightarrow> vault_request \<Rightarrow> string + vault_reply"
  ve_decode_issue :: "bytes \<Rightarrow> string + issue_data"
  ve_decode_errors :: "bytes \<Rightarrow> string list option"
  ve_key_pair :: "bytes \<Rightarrow> bytes \<Rightarrow> string + tls_cert"
  ve_parse :: "bytes \<Rightarrow> string + x509"

definition request_timeout :: int where
  "request_timeout = 5 * 1000000000"

definition new_vault :: "vault_env \<Rightarrow> vault_config \<Rightarrow> string + vault_client" where
  "new_vault env cfg =
     (let http = \<lparr>vh_min_version = 0x0303, vh_insecure_skip_verify = vc_skip_verify cfg, vh_root_pem = None,
                  vh_timeout = request_timeout\<rparr>
      in if vc_ca_cert cfg \<noteq> [] then
           (case ve_read_file env (vc_ca_cert cfg) of
              Inl e \<Rightarrow> Inl (''reading VAULT_CACERT: '' @ e)
            | Inr pem \<Rightarrow>
                if \<not> ve_has_certs env pem then Inl (''no certificates found in VAULT_CACERT '' @ vc_ca_cert cfg)
                else Inr \<lparr>vl_cfg = cfg, vl_http = http\<lparr>vh_root_pem := Some pem\<rparr>\<rparr>)
         else Inr \<lparr>vl_cfg = cfg, vl_http = http\<rparr>)"

section \<open>Durations\<close>

text \<open>
  \<open>Duration.String\<close>: a unit below one second chosen by size, hours, minutes and seconds above, and a fraction without
  trailing zeros.
\<close>

definition pad_left :: "nat \<Rightarrow> string \<Rightarrow> string" where
  "pad_left n s = replicate (n - length s) CHR ''0'' @ s"

definition fraction :: "nat \<Rightarrow> nat \<Rightarrow> string" where
  "fraction digits n =
     (let f = trim_right_set (pad_left digits (nat_dec n)) {CHR ''0''} in if f = [] then [] else CHR ''.'' # f)"

definition duration_string :: "int \<Rightarrow> string" where
  "duration_string d =
     (let u = nat \<bar>d\<bar>;
          body =
            (if u = 0 then ''0s''
             else if u < 1000 then nat_dec u @ ''ns''
             else if u < 1000000 then nat_dec (u div 1000) @ fraction 3 (u mod 1000) @ [CHR 0xC2, CHR 0xB5, CHR ''s'']
             else if u < 1000000000 then nat_dec (u div 1000000) @ fraction 6 (u mod 1000000) @ ''ms''
             else
               (let s = u div 1000000000
                in (if 3600 \<le> s then nat_dec (s div 3600) @ ''h'' else [])
                   @ (if 60 \<le> s then nat_dec (s div 60 mod 60) @ ''m'' else [])
                   @ nat_dec (s mod 60) @ fraction 9 (u mod 1000000000) @ ''s''))
      in if d < 0 then CHR ''-'' # body else body)"

section \<open>Requests\<close>

definition auth :: "vault_config \<Rightarrow> header \<Rightarrow> header" where
  "auth cfg h =
     (let h1 = h_set h ''X-Vault-Token'' (vc_token cfg)
      in if vc_namespace cfg \<noteq> [] then h_set h1 ''X-Vault-Namespace'' (vc_namespace cfg) else h1)"

definition no_sni_alt_names :: "string \<Rightarrow> string" where
  "no_sni_alt_names hostname = (if hostname = ''localhost'' then ''localhost'' else ''localhost,'' @ hostname)"

definition issue_payload :: "vault_env \<Rightarrow> vault_config \<Rightarrow> string \<Rightarrow> json gomap" where
  "issue_payload env cfg sni =
     (let p0 = [(''ttl'', JStr (duration_string (vc_ttl cfg)))] in
      if sni \<noteq> [] then AList.update ''common_name'' (JStr sni) p0
      else
        (let hostname = (case ve_hostname env of None \<Rightarrow> ''localhost'' | Some h \<Rightarrow> if h = [] then ''localhost'' else h);
             p1 = AList.update ''common_name'' (JStr hostname) p0;
             p2 = AList.update ''alt_names'' (JStr (no_sni_alt_names hostname)) p1
         in AList.update ''ip_sans'' (JStr ''127.0.0.1,::1'') p2))"

definition issue_url :: "vault_config \<Rightarrow> string" where
  "issue_url cfg = trim_suffix (vc_addr cfg) ''/'' @ ''/v1/'' @ vc_mount cfg @ ''/issue/'' @ vc_role cfg"

definition issue_request :: "vault_env \<Rightarrow> vault_config \<Rightarrow> string \<Rightarrow> vault_request" where
  "issue_request env cfg sni =
     \<lparr>vr_method = ''POST'', vr_url = issue_url cfg, vr_header = auth cfg (h_set [] ''Content-Type'' ''application/json''),
      vr_body = json_compact (json_map (issue_payload env cfg sni))\<rparr>"

section \<open>Replies\<close>

definition vault_errors :: "vault_env \<Rightarrow> bytes \<Rightarrow> string" where
  "vault_errors env body =
     (case ve_decode_errors env body of
        Some (e # es) \<Rightarrow> join ''; '' (e # es)
      | _ \<Rightarrow> trim_space body)"

text \<open>The exchange both calls have: the body of a reply with a status of success, or the error.\<close>

definition vault_exchange :: "vault_env \<Rightarrow> vault_client \<Rightarrow> string \<Rightarrow> vault_request \<Rightarrow> string + bytes" where
  "vault_exchange env c what req =
     (case ve_new_request env (vr_method req) (vr_url req) of
        Some e \<Rightarrow> Inl e
      | None \<Rightarrow>
          (case ve_do env (vl_http c) req of
             Inl e \<Rightarrow> Inl (''vault '' @ what @ '' request: '' @ e)
           | Inr reply \<Rightarrow>
               (case vp_body reply of
                  Inl e \<Rightarrow> Inl e
                | Inr body \<Rightarrow>
                    if vp_code reply < 200 \<or> 299 < vp_code reply
                    then Inl (''vault '' @ what @ '' failed: '' @ vp_status reply @ '': '' @ vault_errors env body)
                    else Inr body)))"

definition chain_text :: "issue_data \<Rightarrow> string" where
  "chain_text d = foldl (\<lambda>chain ca. chain @ [CHR 0x0A] @ trim_space ca) (is_certificate d) (is_ca_chain d)"

text \<open>\<open>X509KeyPair\<close> gives at least one certificate, so its first exists.\<close>

definition with_leaf :: "vault_env \<Rightarrow> tls_cert \<Rightarrow> tls_cert" where
  "with_leaf env cert =
     (case (tc_leaf cert, tc_chain cert) of
        (None, der # _) \<Rightarrow> (case ve_parse env der of Inr leaf \<Rightarrow> cert\<lparr>tc_leaf := Some leaf\<rparr> | Inl _ \<Rightarrow> cert)
      | _ \<Rightarrow> cert)"

definition issue :: "vault_env \<Rightarrow> vault_client \<Rightarrow> string \<Rightarrow> string + tls_cert" where
  "issue env c sni =
     (case vault_exchange env c ''issue'' (issue_request env (vl_cfg c) sni) of
        Inl e \<Rightarrow> Inl e
      | Inr body \<Rightarrow>
          (case ve_decode_issue env body of
             Inl e \<Rightarrow> Inl (''decoding vault issue response: '' @ e)
           | Inr d \<Rightarrow>
               if is_certificate d = [] \<or> is_private_key d = []
               then Inl ''vault issue response missing certificate or private_key''
               else
                 (case ve_key_pair env (chain_text d) (is_private_key d) of
                    Inl e \<Rightarrow> Inl (''assembling vault certificate: '' @ e)
                  | Inr cert \<Rightarrow> Inr (with_leaf env cert))))"

definition ca_chain_request :: "vault_config \<Rightarrow> vault_request" where
  "ca_chain_request cfg =
     \<lparr>vr_method = ''GET'', vr_url = trim_suffix (vc_addr cfg) ''/'' @ ''/v1/'' @ vc_mount cfg @ ''/ca_chain'',
      vr_header = auth cfg [], vr_body = []\<rparr>"

text \<open>\<open>bytes.Contains\<close>.\<close>

definition contains :: "string \<Rightarrow> string \<Rightarrow> bool" where
  "contains s sub \<longleftrightarrow> list_ex (\<lambda>i. has_prefix (drop i s) sub) [0..<Suc (length s)]"

definition ca_chain :: "vault_env \<Rightarrow> vault_client \<Rightarrow> string + bytes" where
  "ca_chain env c =
     (case vault_exchange env c ''ca_chain'' (ca_chain_request (vl_cfg c)) of
        Inl e \<Rightarrow> Inl e
      | Inr body \<Rightarrow>
          if \<not> contains body ''BEGIN CERTIFICATE'' then Inl ''vault ca_chain returned no PEM data'' else Inr body)"

section \<open>What is sent\<close>

lemma canon_vault [simp]:
  "canon ''X-Vault-Token'' = ''X-Vault-Token''" "canon ''X-Vault-Namespace'' = ''X-Vault-Namespace''"
  "canon ''Content-Type'' = ''Content-Type''"
  by code_simp+

text \<open>
  What Vault is asked: the request for a certificate goes to the configured role under the configured
  address, with one slash between them, carries the token and, when one is configured, the namespace, and no other
  header than its content type; its JSON object asks for the SNI as common name and the configured
  lifetime and, only without an SNI, for the host's name with localhost and the loopback addresses.
\<close>
theorem issue_request_exact:
  "lookup (vr_header (issue_request env cfg sni)) k =
     (if k = ''X-Vault-Token'' then Some [vc_token cfg]
      else if k = ''X-Vault-Namespace'' \<and> vc_namespace cfg \<noteq> [] then Some [vc_namespace cfg]
      else if k = ''Content-Type'' then Some [''application/json''] else None) \<and>
   vr_url (issue_request env cfg sni) =
     (if has_suffix (vc_addr cfg) ''/'' then butlast (vc_addr cfg) else vc_addr cfg)
     @ ''/v1/'' @ vc_mount cfg @ ''/issue/'' @ vc_role cfg \<and>
   lookup (issue_payload env cfg sni) m =
     (let host = (case ve_hostname env of Some (c # cs) \<Rightarrow> c # cs | _ \<Rightarrow> ''localhost'') in
      if m = ''ttl'' then Some (JStr (duration_string (vc_ttl cfg)))
      else if m = ''common_name'' then Some (JStr (if sni = [] then host else sni))
      else if sni = [] \<and> m = ''alt_names''
      then Some (JStr (join '','' (if host = ''localhost'' then [host] else [''localhost'', host])))
      else if sni = [] \<and> m = ''ip_sans'' then Some (JStr ''127.0.0.1,::1'') else None)"
proof -
  have "trim_suffix a ''/'' = (if has_suffix a ''/'' then butlast a else a)" for a :: string
    by (simp add: trim_suffix_def butlast_conv_take)
  then show ?thesis
    by (intro conjI) (simp_all add: issue_request_def auth_def issue_url_def issue_payload_def no_sni_alt_names_def hdr Let_def
        split: option.split list.split)
qed

section \<open>What a certificate is made of\<close>

lemma vault_exchange_ok:
  "vault_exchange env c what req = Inr body \<longleftrightarrow>
     ve_new_request env (vr_method req) (vr_url req) = None \<and>
     (\<exists>reply. ve_do env (vl_http c) req = Inr reply \<and> vp_body reply = Inr body \<and> 200 \<le> vp_code reply \<and> vp_code reply \<le> 299)"
  by (auto simp: vault_exchange_def split: option.splits sum.splits)

lemma chain_text_join: "chain_text d = join [CHR 0x0A] (is_certificate d # map trim_space (is_ca_chain d))"
proof -
  have "foldl (\<lambda>chain ca. chain @ [CHR 0x0A] @ trim_space ca) s cas = join [CHR 0x0A] (s # map trim_space cas)" for s cas
  proof (induction cas arbitrary: s)
    case (Cons ca cas)
    from Cons.IH [of "s @ [CHR 0x0A] @ trim_space ca"] show ?case by (cases cas) auto
  qed simp
  then show ?thesis by (simp add: chain_text_def)
qed

lemma with_leaf_parsed:
  "with_leaf env pair =
     (if tc_leaf pair = None \<and> tc_chain pair \<noteq> []
      then (case ve_parse env (hd (tc_chain pair)) of Inr leaf \<Rightarrow> pair\<lparr>tc_leaf := Some leaf\<rparr> | Inl _ \<Rightarrow> pair) else pair)"
  by (auto simp: with_leaf_def split: option.split list.split)

text \<open>
  C20: Where a certificate comes from: \<open>Issue\<close> succeeds exactly when Vault replied to the request with a status of success and
  an object with a certificate and a key, and these with the rest of the chain, one per line, form a key pair. It then
  returns that pair; where the library did not parse its leaf, with the leaf parsed from the first certificate of the
  chain, or still without one when that does not parse.
\<close>
theorem issue_succeeds_iff:
  "issue env c sni = Inr cert \<longleftrightarrow>
     (\<exists>reply body d pair.
        ve_new_request env ''POST'' (issue_url (vl_cfg c)) = None \<and>
        ve_do env (vl_http c) (issue_request env (vl_cfg c) sni) = Inr reply \<and>
        vp_body reply = Inr body \<and> 200 \<le> vp_code reply \<and> vp_code reply \<le> 299 \<and>
        ve_decode_issue env body = Inr d \<and> is_certificate d \<noteq> [] \<and> is_private_key d \<noteq> [] \<and>
        ve_key_pair env (join [CHR 0x0A] (is_certificate d # map trim_space (is_ca_chain d))) (is_private_key d) = Inr pair \<and>
        cert =
          (if tc_leaf pair = None \<and> tc_chain pair \<noteq> []
           then (case ve_parse env (hd (tc_chain pair)) of Inr leaf \<Rightarrow> pair\<lparr>tc_leaf := Some leaf\<rparr> | Inl _ \<Rightarrow> pair) else pair))"
proof -
  have "issue env c sni = Inr cert \<longleftrightarrow>
     (\<exists>body d pair. vault_exchange env c ''issue'' (issue_request env (vl_cfg c) sni) = Inr body \<and>
        ve_decode_issue env body = Inr d \<and> is_certificate d \<noteq> [] \<and> is_private_key d \<noteq> [] \<and>
        ve_key_pair env (chain_text d) (is_private_key d) = Inr pair \<and> cert = with_leaf env pair)"
    by (auto simp: issue_def split: sum.splits)
  moreover have "vr_method (issue_request env cfg sni) = ''POST''" "vr_url (issue_request env cfg sni) = issue_url cfg" for cfg
    by (simp_all add: issue_request_def)
  ultimately show ?thesis
    unfolding vault_exchange_ok chain_text_join with_leaf_parsed by (metis (no_types, lifting))
qed

text \<open>A Vault that issues, for every request, a certificate with the given leaf, the leaf left to be parsed.\<close>

definition issuing_vault :: "x509 \<Rightarrow> vault_env" where
  "issuing_vault leaf =
     \<lparr>ve_read_file = Inl, ve_has_certs = (\<lambda>_. False), ve_hostname = None, ve_new_request = (\<lambda>_ _. None),
      ve_do = (\<lambda>_ _. Inr \<lparr>vp_status = ''200 OK'', vp_code = 200, vp_body = Inr ''{}''\<rparr>),
      ve_decode_issue = (\<lambda>_. Inr \<lparr>is_certificate = ''leaf'', is_private_key = ''key'', is_ca_chain = ['' ca''], is_issuing_ca = []\<rparr>),
      ve_decode_errors = (\<lambda>_. None),
      ve_key_pair = (\<lambda>chain key. Inr \<lparr>tc_chain = [chain], tc_key = key, tc_leaf = None\<rparr>),
      ve_parse = (\<lambda>_. Inr leaf)\<rparr>"

definition issued_cert :: "x509 \<Rightarrow> tls_cert" where
  "issued_cert leaf = \<lparr>tc_chain = [''leaf'' @ [CHR 0x0A] @ ''ca''], tc_key = ''key'', tc_leaf = Some leaf\<rparr>"

lemma trim_ca: "trim_space '' ca'' = ''ca''"
  by code_simp

lemma issuing_vault_issues: "issue (issuing_vault leaf) c sni = Inr (issued_cert leaf)"
  by (simp add: issue_def vault_exchange_def issuing_vault_def chain_text_def trim_ca with_leaf_def issued_cert_def)

definition vault_leaf :: x509 where
  "vault_leaf =
     \<lparr>x_raw = [], x_subject = [], x_issuer = [], x_serial = [], x_not_before = 0, x_not_after = 2000000000000,
      x_dns_names = [''a.example''], x_ip_addresses = [], x_is_ca = False\<rparr>"

definition blank_vault :: vault_client where
  "blank_vault =
     \<lparr>vl_cfg = \<lparr>vc_addr = ''https://v'', vc_token = ''t'', vc_namespace = [], vc_mount = ''pki'', vc_role = ''r'', vc_ttl = 1,
        vc_ca_cert = [], vc_skip_verify = False\<rparr>,
      vl_http = \<lparr>vh_min_version = 0x0303, vh_insecure_skip_verify = False, vh_root_pem = None, vh_timeout = request_timeout\<rparr>\<rparr>"

theorem issue_succeeds_iff_witness:
  "issue (issuing_vault vault_leaf) blank_vault ''a.example'' = Inr (issued_cert vault_leaf) \<and>
   issue ((issuing_vault vault_leaf)\<lparr>ve_key_pair := (\<lambda>_ _. Inl ''no match'')\<rparr>) blank_vault ''a.example'' \<noteq> Inr (issued_cert vault_leaf)"
  unfolding issue_succeeds_iff by (simp add: issuing_vault_def trim_ca issued_cert_def)

lemma with_leaf_keeps: "tc_chain (with_leaf env cert) = tc_chain cert" "tc_key (with_leaf env cert) = tc_key cert"
  by (auto simp: with_leaf_def split: option.split list.split sum.split)

lemma duration_examples:
  "duration_string 86400000000000 = ''24h0m0s''" "duration_string 90000000000 = ''1m30s''"
  "duration_string 1500000000 = ''1.5s''" "duration_string 0 = ''0s''" "duration_string 250000000 = ''250ms''"
  by (simp_all add: duration_string_def fraction_def pad_left_def trim_right_set_def nat_dec.simps char_of_def bit_0 Let_def)

end
