(* ===== verification/TlsMgr.thy ===== *)
theory TlsMgr
  imports AutoCA VaultPKI CertCache
begin

text \<open>
  \<open>internal/tlsmgr/tlsmgr.go\<close>: the TLS configuration of the listener, for each of the three modes,
  and what a handshake does with it: \<open>GetCertificate\<close> over the certificate cache, which issues from the local
  authority or from Vault. The locale \<open>issuer\<close> states what the cache's clients need of either.
\<close>

section \<open>The TLS configuration\<close>

text \<open>Where a handshake's certificate comes from; the two dynamic sources come with their cache.\<close>

datatype cert_source = NoSource | StaticPair tls_cert | AutoSource ca | VaultSource vault_client

record tls_config =
  tl_min_version :: nat
  tl_next_protos :: "string list"
  tl_request_client_cert :: bool
  tl_source :: cert_source
  tl_cache :: "cert_cache option"

record tls_result =
  tr_config :: tls_config
  tr_ca_pem :: "bytes option"

text \<open>
  The clock of \<open>te_ca\<close> is the clock of a handshake; \<open>te_took\<close> is how long its issuance takes.
\<close>

record tls_env =
  te_ca :: ca_env
  te_vault :: vault_env
  te_load_pair :: "string \<Rightarrow> string \<Rightarrow> string + tls_cert"
  te_quote :: "string \<Rightarrow> string"
  te_took :: int

definition vault_config_of :: "config \<Rightarrow> vault_config" where
  "vault_config_of cfg =
     \<lparr>vc_addr = c_vault_addr cfg, vc_token = c_vault_token cfg, vc_namespace = c_vault_namespace cfg,
      vc_mount = c_vault_pki_mount cfg, vc_role = c_vault_pki_role cfg, vc_ttl = c_vault_pki_ttl cfg,
      vc_ca_cert = c_vault_cacert cfg, vc_skip_verify = c_vault_skip_verify cfg\<rparr>"

definition load_error_text :: "load_error \<Rightarrow> string" where
  "load_error_text e = (case e of FileError io \<Rightarrow> io_text io | BadPair t \<Rightarrow> t)"

definition is_not_exist :: "load_error \<Rightarrow> bool" where
  "is_not_exist e = (case e of FileError (NotExist _) \<Rightarrow> True | _ \<Rightarrow> False)"

definition load_or_create_ca ::
  "ca_env \<Rightarrow> config \<Rightarrow> fsys \<Rightarrow> (string + ca) \<times> message list \<times> fsys" where
  "load_or_create_ca env cfg fs =
     (let cert_file = c_tls_ca_cert_file cfg; key_file = c_tls_ca_key_file cfg in
      case load_ca env fs cert_file key_file of
        Inr a \<Rightarrow> (Inr a, [(Info, ''loaded existing CA'', [(''cert'', FStr cert_file)])], fs)
      | Inl load_err \<Rightarrow>
          (let warn = (if \<not> is_not_exist load_err
                       then [(Warn, ''existing CA is unusable, generating a new one'',
                              [(''cert'', FStr cert_file), (''key'', FStr key_file),
                               (''error'', FStr (load_error_text load_err))])]
                       else [])
           in case new_ca env of
                Inl e \<Rightarrow> (Inl (''generating CA: '' @ e), warn, fs)
              | Inr a \<Rightarrow>
                  (case persist env a cert_file key_file fs of
                     (Some e, fs') \<Rightarrow>
                       (Inr a, warn @ [(Warn, ''persisting CA failed, continuing in-memory'',
                          [(''cert'', FStr cert_file), (''error'', FStr e)])], fs')
                   | (None, fs') \<Rightarrow>
                       (Inr a, warn @ [(Info, ''generated new CA'',
                          [(''cert'', FStr cert_file), (''key'', FStr key_file)])], fs'))))"

definition base_tls :: "config \<Rightarrow> tls_config" where
  "base_tls cfg =
     \<lparr>tl_min_version = 0x0303,
      tl_next_protos = (if c_http2_enabled cfg then [''h2'', ''http/1.1''] else [''http/1.1'']),
      tl_request_client_cert = c_mtls_enable cfg, tl_source = NoSource, tl_cache = None\<rparr>"

definition build :: "tls_env \<Rightarrow> config \<Rightarrow> fsys \<Rightarrow> (string + tls_result) \<times> message list \<times> fsys" where
  "build env cfg fs =
     (let tls = base_tls cfg; cache = Some (new_cert_cache (c_tls_cert_cache_size cfg)) in
      if c_tls_mode cfg = tls_mode_static then
        (case te_load_pair env (c_https_cert_file cfg) (c_https_key_file cfg) of
           Inl e \<Rightarrow> (Inl (''loading static certificate pair: '' @ e), [], fs)
         | Inr pair \<Rightarrow> (Inr \<lparr>tr_config = tls\<lparr>tl_source := StaticPair pair\<rparr>, tr_ca_pem = None\<rparr>, [], fs))
      else if c_tls_mode cfg = tls_mode_auto then
        (case load_or_create_ca (te_ca env) cfg fs of
           (Inl e, logs, fs') \<Rightarrow> (Inl e, logs, fs')
         | (Inr a, logs, fs') \<Rightarrow>
             (Inr \<lparr>tr_config = tls\<lparr>tl_source := AutoSource a, tl_cache := cache\<rparr>, tr_ca_pem = Some (ca_pem a)\<rparr>,
              logs, fs'))
      else if c_tls_mode cfg = tls_mode_vault then
        (case new_vault (te_vault env) (vault_config_of cfg) of
           Inl e \<Rightarrow> (Inl (''building vault client: '' @ e), [], fs)
         | Inr client \<Rightarrow>
             (let (pem, logs) =
                (case ca_chain (te_vault env) client of
                   Inl e \<Rightarrow> (None, [(Warn, ''fetching vault CA chain failed'', [(''error'', FStr e)])])
                 | Inr chain \<Rightarrow> (Some chain, []))
              in (Inr \<lparr>tr_config = tls\<lparr>tl_source := VaultSource client, tl_cache := cache\<rparr>, tr_ca_pem = pem\<rparr>, logs, fs)))
      else (Inl (''unknown TLS mode '' @ te_quote env (c_tls_mode cfg)), [], fs))"

section \<open>Handshakes\<close>

text \<open>The refresh policy for Vault's certificates; the product wraps around.\<close>

definition vault_refresh :: "int \<Rightarrow> x509 \<Rightarrow> bool" where
  "vault_refresh now leaf \<longleftrightarrow>
     (let lifetime = time_sub (x_not_after leaf) (x_not_before leaf)
      in quot (i64 (lifetime * 2)) 3 < time_sub now (x_not_before leaf))"

definition auto_call :: "tls_env \<Rightarrow> config \<Rightarrow> ca \<Rightarrow> string \<Rightarrow> get_call" where
  "auto_call env cfg a sni =
     \<lparr>gc_sni = sni, gc_issue = (\<lambda>s. mint (te_ca env) a s (c_tls_cert_ttl cfg)),
      gc_refresh = default_refresh (ce_now (te_ca env)), gc_now = ce_now (te_ca env),
      gc_parse = (\<lambda>der. map_sum id fst (ce_parse (te_ca env) der))\<rparr>"

definition vault_call :: "tls_env \<Rightarrow> vault_client \<Rightarrow> string \<Rightarrow> get_call" where
  "vault_call env client sni =
     \<lparr>gc_sni = sni, gc_issue = issue (te_vault env) client,
      gc_refresh = vault_refresh (ce_now (te_ca env)), gc_now = ce_now (te_ca env),
      gc_parse = ve_parse (te_vault env)\<rparr>"

definition issued_log :: "string \<Rightarrow> tls_env \<Rightarrow> string \<Rightarrow> string + tls_cert \<Rightarrow> message list" where
  "issued_log what env sni issued =
     (case issued of
        Inl _ \<Rightarrow> []
      | Inr cert \<Rightarrow>
          [(Debug, what, [(''sni'', FStr sni),
             (''notAfter'', FInteger (case tc_leaf cert of Some leaf \<Rightarrow> x_not_after leaf | None \<Rightarrow> 0)),
             (''took'', FInteger (te_took env))])])"

text \<open>
  \<open>GetCertificate\<close> with the logs of the issuing function, which runs only when the cache has nothing to serve, and
  panics on an issued certificate without a parsed leaf.
\<close>

definition get_certificate ::
  "bool \<Rightarrow> (string + tls_cert \<Rightarrow> message list) \<Rightarrow> get_call \<Rightarrow> cert_cache \<Rightarrow> get_result \<times> cert_cache \<times> message list" where
  "get_certificate stale_ok logs g cache =
     (let sni = gc_sni g; called = (fst (cache_lookup (gc_refresh g) sni cache) = None); issued = gc_issue g sni;
          issue_logs = (if called then logs issued else [])
      in if called \<and> (case issued of Inr cert \<Rightarrow> tc_leaf cert = None | Inl _ \<Rightarrow> False) then (Crashed, cache, logs (Inl []))
         else
           (case cache_get stale_ok g cache of (res, cache', stale) \<Rightarrow>
              (res, cache',
               issue_logs
               @ map (\<lambda>(s, e). (Warn, ''vault re-issuance failed, serving cached certificate'',
                        [(''sni'', FStr s), (''error'', FStr e)])) stale
               @ (case res of
                    Failed e \<Rightarrow> [(Error, ''certificate issuance failed'', [(''sni'', FStr sni), (''error'', FStr e)])]
                  | _ \<Rightarrow> []))))"

definition auto_handshake ::
  "tls_env \<Rightarrow> config \<Rightarrow> ca \<Rightarrow> string \<Rightarrow> cert_cache \<Rightarrow> get_result \<times> cert_cache \<times> message list" where
  "auto_handshake env cfg a sni cache =
     get_certificate False (issued_log ''minted certificate'' env sni) (auto_call env cfg a sni) cache"

definition vault_handshake ::
  "tls_env \<Rightarrow> config \<Rightarrow> vault_client \<Rightarrow> string \<Rightarrow> cert_cache \<Rightarrow> get_result \<times> cert_cache \<times> message list" where
  "vault_handshake env cfg client sni cache =
     get_certificate True
       (\<lambda>issued. (Debug, ''requesting certificate from vault'',
            [(''sni'', FStr sni), (''mount'', FStr (c_vault_pki_mount cfg)), (''role'', FStr (c_vault_pki_role cfg))])
          # issued_log ''vault issued certificate'' env sni issued)
       (vault_call env client sni) cache"

section \<open>Issuers\<close>

text \<open>A sequence of handshakes over one cache, each with its surroundings and its name, and what each is given.\<close>

fun run_handshakes ::
  "('e \<Rightarrow> string \<Rightarrow> cert_cache \<Rightarrow> get_result \<times> cert_cache \<times> message list) \<Rightarrow> ('e \<times> string) list \<Rightarrow> cert_cache \<Rightarrow>
     (string \<times> get_result) list \<times> cert_cache" where
  "run_handshakes shake [] c = ([], c)"
| "run_handshakes shake ((env, sni) # hs) c =
     (case shake env sni c of (r, c1, _) \<Rightarrow>
        (case run_handshakes shake hs c1 of (rs, c2) \<Rightarrow> ((sni, r) # rs, c2)))"

definition served_well :: "(string \<Rightarrow> tls_cert \<Rightarrow> bool) \<Rightarrow> string \<times> get_result \<Rightarrow> bool" where
  "served_well good = (\<lambda>(sni, r). case r of Got cert \<Rightarrow> good sni cert | _ \<Rightarrow> True)"

lemma get_certificate_cases:
  assumes "get_certificate stale logs g c = (r, c', ms)"
  shows "(r = Crashed \<and> c' = c) \<or> (\<exists>errs. cache_get stale g c = (r, c', errs))"
  using assms by (auto simp: get_certificate_def Let_def split: if_splits prod.splits)

text \<open>
  A source of certificates as the handshakes use it: \<open>shake\<close> is the handshake that asks \<open>iss\<close> over a cache.
\<close>

locale handshakes =
  fixes iss :: "'e \<Rightarrow> string \<Rightarrow> string + tls_cert"
    and stale :: bool
    and call :: "'e \<Rightarrow> string \<Rightarrow> get_call"
    and logs :: "'e \<Rightarrow> string \<Rightarrow> string + tls_cert \<Rightarrow> message list"
    and shake :: "'e \<Rightarrow> string \<Rightarrow> cert_cache \<Rightarrow> get_result \<times> cert_cache \<times> message list"
  assumes call_sni: "gc_sni (call e sni) = sni"
    and call_issue: "gc_issue (call e sni) = iss e"
    and shake_get: "shake e sni c = get_certificate stale (logs e sni) (call e sni) c"
begin

lemma shake_keeps:
  assumes "cache_inv c" "shake e sni c = (r, c', ms)"
  shows "cache_inv c'" "k_capacity c' = k_capacity c"
    and "r = Got cert \<Longrightarrow> (\<exists>leaf. cache_content c sni = Some (cert, leaf)) \<or> iss e sni = Inr cert"
    and "cache_content c' k = Some (cert, leaf) \<Longrightarrow>
      cache_content c k = Some (cert, leaf) \<or> k = sni \<and> iss e k = Inr cert \<and> r = Got cert"
proof -
  let ?P = "\<lambda>k x. (\<exists>leaf. cache_content c k = Some (x, leaf)) \<or> k = sni \<and> iss e k = Inr x"
  have p: "prov ?P c" "issues ?P (call e sni)"
    by (auto simp: prov_def issues_def call_sni call_issue)
  from assms(2) have "(r = Crashed \<and> c' = c) \<or> (\<exists>errs. cache_get stale (call e sni) c = (r, c', errs))"
    unfolding shake_get by (rule get_certificate_cases)
  then consider "r = Crashed" "c' = c" | errs where "cache_get stale (call e sni) c = (r, c', errs)" by blast
  note step = this
  show "cache_inv c'" "k_capacity c' = k_capacity c"
    using step by (cases; use assms(1) get_keeps [OF assms(1) p] in auto)+
  show "r = Got cert \<Longrightarrow> (\<exists>leaf. cache_content c sni = Some (cert, leaf)) \<or> iss e sni = Inr cert"
    using step by (cases; use get_keeps [OF assms(1) p] in \<open>auto simp: call_sni\<close>)
  show "cache_content c' k = Some (cert, leaf) \<Longrightarrow>
      cache_content c k = Some (cert, leaf) \<or> k = sni \<and> iss e k = Inr cert \<and> r = Got cert"
    using step by (cases; use get_stores [OF assms(1)] in \<open>force simp: call_sni call_issue\<close>)
qed

text \<open>What is served was in the cache at the start, or was issued at that or an earlier handshake, for the same name.\<close>

lemma run_traced:
  assumes "cache_inv c" "run_handshakes shake hs c = (rs, c')" "i < length rs" "rs ! i = (sni, Got cert)"
  shows "(\<exists>leaf. cache_content c sni = Some (cert, leaf)) \<or>
    (\<exists>j\<le>i. \<exists>e. hs ! j = (e, sni) \<and> iss e sni = Inr cert \<and> rs ! j = (sni, Got cert))"
  using assms
proof (induction hs arbitrary: c rs i)
  case (Cons h hs)
  obtain e name where h: "h = (e, name)" by (cases h)
  obtain r c1 ms where s: "shake e name c = (r, c1, ms)" by (cases "shake e name c")
  obtain rs1 where run: "run_handshakes shake hs c1 = (rs1, c')" and rs: "rs = (name, r) # rs1"
    using Cons.prems(2) by (auto simp: h s split: prod.splits)
  note k = shake_keeps [OF Cons.prems(1) s]
  show ?case
  proof (cases i)
    case 0
    with k(3) [of cert] Cons.prems(4) show ?thesis by (auto simp: h rs)
  next
    case (Suc m)
    with Cons.prems(3,4) have m: "m < length rs1" "rs1 ! m = (sni, Got cert)" by (simp_all add: rs)
    from Cons.IH [OF k(1) run m] show ?thesis
    proof
      assume "\<exists>leaf. cache_content c1 sni = Some (cert, leaf)"
      with k(4) [of sni cert] show ?thesis by (auto simp: h rs)
    next
      assume "\<exists>j\<le>m. \<exists>e. hs ! j = (e, sni) \<and> iss e sni = Inr cert \<and> rs1 ! j = (sni, Got cert)"
      then obtain j e where "j \<le> m" "hs ! j = (e, sni)" "iss e sni = Inr cert" "rs1 ! j = (sni, Got cert)" by blast
      then show ?thesis by (intro disjI2 exI [of _ "Suc j"]) (simp add: rs Suc)
    qed
  qed
qed simp

lemma run_shape:
  assumes "cache_inv c" "run_handshakes shake hs c = (rs, c')"
  shows "cache_inv c' \<and> k_capacity c' = k_capacity c \<and> map fst rs = map snd hs"
  using assms
proof (induction hs arbitrary: c rs)
  case (Cons h hs)
  obtain e name where h: "h = (e, name)" by (cases h)
  obtain r c1 ms where s: "shake e name c = (r, c1, ms)" by (cases "shake e name c")
  obtain rs1 where run: "run_handshakes shake hs c1 = (rs1, c')" and rs: "rs = (name, r) # rs1"
    using Cons.prems(2) by (auto simp: h s split: prod.splits)
  note k = shake_keeps [OF Cons.prems(1) s]
  show ?case using Cons.IH [OF k(1) run] k(2) by (simp add: h rs)
qed simp

text \<open>From the empty cache of a new listener.\<close>

lemma fresh_run:
  assumes "0 < capacity" "run_handshakes shake hs (new_cert_cache capacity) = (rs, c')"
  shows "map fst rs = map snd hs" "int (cache_len c') \<le> capacity"
    and "i < length rs \<Longrightarrow> rs ! i = (sni, Got cert) \<Longrightarrow>
      \<exists>j\<le>i. \<exists>e. hs ! j = (e, sni) \<and> iss e sni = Inr cert \<and> rs ! j = (sni, Got cert)"
proof -
  note inv = new_cache_inv [OF assms(1)]
  show "map fst rs = map snd hs" "int (cache_len c') \<le> capacity"
    using run_shape [OF inv assms(2)] cache_link_len [of c'] by (simp_all add: cache_inv_def cache_len_def)
  show "i < length rs \<Longrightarrow> rs ! i = (sni, Got cert) \<Longrightarrow>
      \<exists>j\<le>i. \<exists>e. hs ! j = (e, sni) \<and> iss e sni = Inr cert \<and> rs ! j = (sni, Got cert)"
    using run_traced [OF inv assms(2)] by simp
qed

end

text \<open>An issuer whose certificates for a name satisfy \<open>good\<close> of that name, whenever its surroundings are \<open>usable\<close>.\<close>

locale issuer = handshakes iss stale call logs shake
  for iss :: "'e \<Rightarrow> string \<Rightarrow> string + tls_cert" and stale call logs shake +
  fixes usable :: "'e \<Rightarrow> bool"
    and good :: "string \<Rightarrow> tls_cert \<Rightarrow> bool"
  assumes issued_good: "usable e \<Longrightarrow> iss e sni = Inr cert \<Longrightarrow> good sni cert"
begin

lemma fresh_run_good:
  assumes "0 < capacity" "list_all (\<lambda>(e, _). usable e) hs" "run_handshakes shake hs (new_cert_cache capacity) = (rs, c')"
  shows "list_all (served_well good) rs"
  unfolding list_all_length
proof (intro allI impI)
  fix i assume i: "i < length rs"
  obtain sni r where r: "rs ! i = (sni, r)" by (cases "rs ! i")
  have len: "length rs = length hs"
    using arg_cong [OF fresh_run(1) [OF assms(1,3)], of length] by simp
  have "good sni cert" if got: "r = Got cert" for cert
  proof -
    obtain j e where j: "j \<le> i" "hs ! j = (e, sni)" "iss e sni = Inr cert"
      using fresh_run(3) [OF assms(1,3) i, of sni cert] r got by auto
    have "usable e"
      using assms(2) i j(1,2) by (auto simp: list_all_length len dest!: spec [of _ j])
    then show ?thesis using issued_good j(3) by blast
  qed
  then show "served_well good (rs ! i)"
    by (simp add: served_well_def r split: get_result.split)
qed

end

definition covers_name :: "string \<Rightarrow> tls_cert \<Rightarrow> bool" where
  "covers_name sni cert \<longleftrightarrow>
     (case tc_leaf cert of
        None \<Rightarrow> False
      | Some leaf \<Rightarrow> \<not> x_is_ca leaf \<and>
          (case parse_ip sni of
             Some ip \<Rightarrow> x_dns_names leaf = [] \<and> x_ip_addresses leaf = [unmap ip]
           | None \<Rightarrow>
               if sni = [] then ''localhost'' \<in> set (x_dns_names leaf) \<and> x_ip_addresses leaf = [V4 0x7F000001, V6 1 []]
               else x_dns_names leaf = [sni] \<and> x_ip_addresses leaf = []))"

interpretation auto_issuer: issuer "\<lambda>env sni. mint (te_ca env) a sni (c_tls_cert_ttl cfg)" False "\<lambda>env. auto_call env cfg a"
  "\<lambda>env sni. issued_log ''minted certificate'' env sni" "\<lambda>env. auto_handshake env cfg a" "\<lambda>env. ca_crypto_ok (te_ca env)"
  covers_name for cfg a
proof unfold_locales
  fix env :: tls_env and sni cert
  assume "ca_crypto_ok (te_ca env)" "mint (te_ca env) a sni (c_tls_cert_ttl cfg) = Inr cert"
  from mint_leaf [OF this] show "covers_name sni cert" by (auto simp: covers_name_def split: option.splits if_splits)
qed (simp_all add: auto_call_def auto_handshake_def)

interpretation vault_shakes: handshakes "\<lambda>env. issue (te_vault env) client" True "\<lambda>env. vault_call env client"
  "\<lambda>env sni issued. (Debug, ''requesting certificate from vault'',
            [(''sni'', FStr sni), (''mount'', FStr (c_vault_pki_mount cfg)), (''role'', FStr (c_vault_pki_role cfg))])
          # issued_log ''vault issued certificate'' env sni issued"
  "\<lambda>env. vault_handshake env cfg client" for cfg client
  by unfold_locales (auto simp: vault_call_def vault_handshake_def)

text \<open>
  C12: Local certificates fit their names: over any sequence of handshakes on a listener that was built in the auto
  mode, each either is given a certificate for exactly its own name or address, which is no CA certificate, or
  fails, and the cache never holds more certificates than configured. A handshake without a name is given one for
  localhost and the loopback addresses.
\<close>
theorem auto_serves_own_names:
  assumes "build env0 cfg fs = (Inr res, ms, fs')" "c_tls_mode cfg = tls_mode_auto" "0 < c_tls_cert_cache_size cfg"
    and "list_all (\<lambda>(env, _). ca_crypto_ok (te_ca env)) hs"
    and "tl_source (tr_config res) = AutoSource a" "tl_cache (tr_config res) = Some c0"
    and "run_handshakes (\<lambda>env. auto_handshake env cfg a) hs c0 = (rs, c')"
  shows "list_all (served_well covers_name) rs \<and> map fst rs = map snd hs \<and> int (cache_len c') \<le> c_tls_cert_cache_size cfg"
proof -
  have "c0 = new_cert_cache (c_tls_cert_cache_size cfg)"
    using assms(1,2,6) tls_modes_distinct by (auto simp: build_def Let_def split: prod.splits sum.splits)
  with auto_issuer.fresh_run_good [OF assms(3,4)] auto_issuer.fresh_run [OF assms(3)] assms(7) show ?thesis by blast
qed

text \<open>
  C27: Vault's certificates are for their names: over any sequence of handshakes on a listener that was built in the vault
  mode, through outages and refreshes, a certificate that is served, be it a stale one, is one that Vault issued to this
  client at that handshake or an earlier one of the sequence, for the very name of the handshake, which was served it then;
  and the cache never holds more than configured.
\<close>
theorem vault_serves_issued:
  assumes "build env0 cfg fs = (Inr res, ms, fs')" "c_tls_mode cfg = tls_mode_vault" "0 < c_tls_cert_cache_size cfg"
    and "tl_source (tr_config res) = VaultSource client" "tl_cache (tr_config res) = Some c0"
    and "run_handshakes (\<lambda>env. vault_handshake env cfg client) hs c0 = (rs, c')"
  shows "map fst rs = map snd hs \<and> int (cache_len c') \<le> c_tls_cert_cache_size cfg \<and>
    (\<forall>i < length rs. \<forall>sni cert. rs ! i = (sni, Got cert) \<longrightarrow>
       (\<exists>j \<le> i. \<exists>env. hs ! j = (env, sni) \<and> issue (te_vault env) client sni = Inr cert \<and> rs ! j = (sni, Got cert)))"
proof -
  have "c0 = new_cert_cache (c_tls_cert_cache_size cfg)"
    using assms(1,2,5) tls_modes_distinct by (auto simp: build_def Let_def split: prod.splits sum.splits)
  with assms(6) have run: "run_handshakes (\<lambda>env. vault_handshake env cfg client) hs (new_cert_cache (c_tls_cert_cache_size cfg)) = (rs, c')"
    by simp
  show ?thesis
    using vault_shakes.fresh_run [OF assms(3) run] by blast
qed

lemma build_base:
  assumes "build env cfg fs = (Inr res, ms, fs')"
  shows "tl_min_version (tr_config res) = 0x0303 \<and>
    (''h2'' \<in> set (tl_next_protos (tr_config res)) \<longleftrightarrow> c_http2_enabled cfg) \<and>
    ''http/1.1'' \<in> set (tl_next_protos (tr_config res)) \<and>
    tl_request_client_cert (tr_config res) = c_mtls_enable cfg"
  using assms
  by (auto simp: build_def base_tls_def Let_def split: if_splits sum.splits prod.splits)

text \<open>
  The shape of the configuration: whatever the mode, a configuration that is built requires TLS 1.2, offers HTTP/2
  exactly when it is enabled, asks for client certificates exactly when mutual TLS is, has a source
  for its certificates, and has a CA to publish in no static mode.
\<close>
theorem build_shape:
  assumes "build env cfg fs = (Inr res, ms, fs')"
  shows "tl_min_version (tr_config res) = 0x0303 \<and>
    (''h2'' \<in> set (tl_next_protos (tr_config res)) \<longleftrightarrow> c_http2_enabled cfg) \<and>
    ''http/1.1'' \<in> set (tl_next_protos (tr_config res)) \<and>
    tl_request_client_cert (tr_config res) = c_mtls_enable cfg \<and>
    (case tl_source (tr_config res) of
       StaticPair _ \<Rightarrow> c_tls_mode cfg = tls_mode_static \<and> tr_ca_pem res = None
     | AutoSource a \<Rightarrow> c_tls_mode cfg = tls_mode_auto \<and> tr_ca_pem res = Some (ca_pem a)
     | VaultSource _ \<Rightarrow> c_tls_mode cfg = tls_mode_vault
     | NoSource \<Rightarrow> False)"
  using build_base [OF assms] assms tls_modes_distinct
  by (auto simp: build_def Let_def split: if_splits sum.splits prod.splits)

section \<open>Refreshing\<close>

text \<open>
  C29: Two thirds of the lifetime: for a certificate whose lifetime is below \<open>2 ^ 62\<close> nanoseconds (146 years),
  the wrapping and truncating arithmetic of the policy decides exactly whether more than
  two thirds of the lifetime have passed.
\<close>
theorem vault_refresh_two_thirds:
  assumes "x_not_before leaf \<le> x_not_after leaf" "x_not_after leaf - x_not_before leaf < 2 ^ 62"
    and "is_i64 (now - x_not_before leaf)"
  shows "vault_refresh now leaf \<longleftrightarrow> 2 * (x_not_after leaf - x_not_before leaf) < 3 * (now - x_not_before leaf)"
proof -
  let ?l = "x_not_after leaf - x_not_before leaf"
  have l: "time_sub (x_not_after leaf) (x_not_before leaf) = ?l"
    using assms(1,2) by (simp add: time_sub_def min_i64_def max_i64_def)
  have "i64 (?l * 2) = ?l * 2"
    using assms(1,2) by (intro i64_id) (simp add: is_i64_def min_i64_def max_i64_def)
  moreover have "time_sub now (x_not_before leaf) = now - x_not_before leaf"
    using assms(3) by (auto simp: time_sub_def is_i64_def)
  moreover have "quot (?l * 2) 3 = (?l * 2) div 3"
    using assms(1) by (intro quot_nonneg) auto
  ultimately have "vault_refresh now leaf \<longleftrightarrow> (?l * 2) div 3 < now - x_not_before leaf"
    by (simp only: vault_refresh_def l Let_def)
  moreover have "(?l * 2) div 3 < e \<longleftrightarrow> 2 * ?l < 3 * e" for e
    by presburger
  ultimately show ?thesis by simp
qed

text \<open>Beyond that the product wraps around and a fresh certificate is refreshed at every handshake.\<close>

lemma vault_refresh_overflow:
  "vault_refresh 0 (sample_x509 False [] 0\<lparr>x_not_before := 0, x_not_after := 2 ^ 62\<rparr>)"
  by (simp add: vault_refresh_def time_sub_def i64_def quot_def min_i64_def max_i64_def)

text \<open>
  C19: An outage of Vault: while a certificate for the name is cached and has not expired, a handshake during which
  Vault gives none is served the cached one, nothing found in the cache changes, and
  the only trace of the outage above debug level is one warning, when a refresh was due.
\<close>
theorem vault_outage_survived:
  assumes "cache_inv c" "cache_content c sni = Some (cert, leaf)" "issue (te_vault env) client sni = Inl e"
    and "ce_now (te_ca env) \<le> x_not_after leaf" "vault_handshake env cfg client sni c = (r, c', ms)"
  shows "r = Got cert \<and> cache_content c' = cache_content c \<and>
    filter (\<lambda>m. Debug < fst m) ms =
      (if vault_refresh (ce_now (te_ca env)) leaf
       then [(Warn, ''vault re-issuance failed, serving cached certificate'', [(''sni'', FStr sni), (''error'', FStr e)])]
       else [])"
proof -
  let ?g = "vault_call env client sni"
  have g: "gc_sni ?g = sni" "gc_issue ?g sni = Inl e" "gc_now ?g = ce_now (te_ca env)"
    "gc_refresh ?g = vault_refresh (ce_now (te_ca env))"
    using assms(3) by (simp_all add: vault_call_def)
  have lk: "fst (cache_lookup (vault_refresh (ce_now (te_ca env))) sni c) = None
      \<longleftrightarrow> vault_refresh (ce_now (te_ca env)) leaf"
    using cache_lookup_content [OF assms(1)] assms(2) by simp
  have lt: "Debug < Warn" "\<not> Debug < Debug" by (simp_all add: less_level_def)
  show ?thesis
    using assms(1,2,4,5) cache_get_cases [OF assms(1), of True ?g] lru.content_use [OF assms(1)]
    by (auto simp: vault_handshake_def get_certificate_def g lk lt issued_log_def Let_def fun_eq_iff split: if_splits)
qed

text \<open>
  Short lifetimes are never cached: with a configured lifetime of less than five minutes, which validation accepts,
  the cache serves none of the certificates it holds, from the moment they are
  minted, so every handshake mints a new one.
\<close>
theorem short_ttl_never_cached:
  assumes "ca_crypto_ok env0" "mint env0 a sni ttl = Inr cert" "0 < ttl" "ttl < 300000000000"
    and "cache_inv c" "cache_content c sni = Some (cert, leaf)" "tc_leaf cert = Some leaf" "ce_now env0 \<le> now"
  shows "fst (cache_lookup (default_refresh now) sni c) = None"
proof -
  have "x_not_after leaf = whole_seconds (ce_now env0 + ttl)"
    using mint_leaf [OF assms(1,2)] assms(7) by auto
  moreover have "whole_seconds t \<le> t" for t
    using mult_div_mod_eq [of 1000000000 t] pos_mod_sign [of 1000000000 t] by (simp add: whole_seconds_def)
  ultimately have "x_not_after leaf - now < 300000000000"
    using assms(4,8) by (smt (verit))
  then have "default_refresh now leaf"
    by (auto simp: default_refresh_def time_sub_def min_i64_def max_i64_def)
  then show ?thesis
    using cache_lookup_content [OF assms(5)] assms(6) by simp
qed

section \<open>Restarts\<close>

text \<open>
  C18: The authority survives restarts: if a start ended with an authority and did not warn that it could not be
  persisted, the next start on the files it left, at whatever time and with whatever randomness,
  loads the same authority.
\<close>
theorem ca_survives_restart:
  assumes "ca_crypto_ok env" "load_or_create_ca env cfg fs = (Inr a, ms, fs')"
    and "''persisting CA failed, continuing in-memory'' \<notin> (fst \<circ> snd) ` set ms"
    and "c_tls_ca_cert_file cfg \<noteq> c_tls_ca_key_file cfg"
    and "fs_read_err fs (c_tls_ca_cert_file cfg) = None" "fs_read_err fs (c_tls_ca_key_file cfg) = None"
  shows "load_or_create_ca (env\<lparr>ce_now := t, ce_generate_key := k, ce_random := rnd\<rparr>) cfg fs'
      = (Inr a, [(Info, ''loaded existing CA'', [(''cert'', FStr (c_tls_ca_cert_file cfg))])], fs')"
proof -
  have again: "load_ca (env\<lparr>ce_now := t, ce_generate_key := k, ce_random := rnd\<rparr>) fs1 p q = load_ca env fs1 p q" for fs1 p q
  proof -
    have same: "ce_pem_decode (env\<lparr>ce_now := t, ce_generate_key := k, ce_random := rnd\<rparr>) = ce_pem_decode env"
      "ce_parse (env\<lparr>ce_now := t, ce_generate_key := k, ce_random := rnd\<rparr>) = ce_parse env"
      "ce_parse_pkcs8 (env\<lparr>ce_now := t, ce_generate_key := k, ce_random := rnd\<rparr>) = ce_parse_pkcs8 env"
      "ce_parse_ec (env\<lparr>ce_now := t, ce_generate_key := k, ce_random := rnd\<rparr>) = ce_parse_ec env"
      "ce_public_of (env\<lparr>ce_now := t, ce_generate_key := k, ce_random := rnd\<rparr>) = ce_public_of env"
      by simp_all
    show ?thesis
      unfolding load_ca_def load_pair_def parse_ec_key_def same ..
  qed
  have "load_ca env fs' (c_tls_ca_cert_file cfg) (c_tls_ca_key_file cfg) = Inr a"
  proof (cases "load_ca env fs (c_tls_ca_cert_file cfg) (c_tls_ca_key_file cfg)")
    case (Inr b)
    with assms(2) show ?thesis by (simp add: load_or_create_ca_def)
  next
    case (Inl e)
    with assms(2) have new: "new_ca env = Inr a"
      by (auto simp: load_or_create_ca_def Let_def split: sum.splits prod.splits option.splits)
    obtain r fs1 where p: "persist env a (c_tls_ca_cert_file cfg) (c_tls_ca_key_file cfg) fs = (r, fs1)"
      by (cases "persist env a (c_tls_ca_cert_file cfg) (c_tls_ca_key_file cfg) fs")
    have "r = None \<and> fs1 = fs'"
      using assms(2,3) Inl new p by (cases r) (auto simp: load_or_create_ca_def Let_def)
    then show ?thesis
      using persist_load [OF assms(1) new _ assms(4-6)] p by simp
  qed
  then show ?thesis by (simp add: load_or_create_ca_def again)
qed

text \<open>
  A missing key replaces the authority without a warning: when the certificate file is there and the key
  file is not, a start generates a new authority, overwrites the certificate file with it, and logs only
  that it generated one.
\<close>
theorem missing_key_regenerates:
  assumes "read_file fs (c_tls_ca_cert_file cfg) = Inr old" "fs_read_err fs (c_tls_ca_key_file cfg) = None"
    and "lookup (fs_files fs) (c_tls_ca_key_file cfg) = None" "new_ca env = Inr a"
    and "persist env a (c_tls_ca_cert_file cfg) (c_tls_ca_key_file cfg) fs = (None, fs')"
  shows "load_or_create_ca env cfg fs = (Inr a, [(Info, ''generated new CA'',
      [(''cert'', FStr (c_tls_ca_cert_file cfg)), (''key'', FStr (c_tls_ca_key_file cfg))])], fs') \<and>
    (c_tls_ca_cert_file cfg \<noteq> c_tls_ca_key_file cfg \<longrightarrow>
       map_option fst (lookup (fs_files fs') (c_tls_ca_cert_file cfg)) = Some (ca_pem a))"
proof -
  have "load_or_create_ca env cfg fs = (Inr a, [(Info, ''generated new CA'',
      [(''cert'', FStr (c_tls_ca_cert_file cfg)), (''key'', FStr (c_tls_ca_key_file cfg))])], fs')"
  proof -
    have "\<exists>m. load_ca env fs (c_tls_ca_cert_file cfg) (c_tls_ca_key_file cfg) = Inl (FileError (NotExist m))"
      using assms(1-3) by (simp add: load_ca_def read_file_def)
    then show ?thesis
      using assms(4,5) by (auto simp: load_or_create_ca_def is_not_exist_def Let_def)
  qed
  moreover obtain kder fs2 where w:
    "write_file (c_tls_ca_cert_file cfg) (ca_pem a) 0x1A4 fs2 = (None, snd (write_file (c_tls_ca_cert_file cfg) (ca_pem a) 0x1A4 fs2))"
    "write_file (c_tls_ca_key_file cfg) (ce_pem_encode env ''PRIVATE KEY'' kder) 0x180
       (snd (write_file (c_tls_ca_cert_file cfg) (ca_pem a) 0x1A4 fs2)) = (None, fs')"
    by (rule persist_files [OF assms(5)])
  ultimately show ?thesis
    using write_file_done [OF w(1), of "c_tls_ca_cert_file cfg"] write_file_done [OF w(2), of "c_tls_ca_cert_file cfg"]
    by simp
qed

section \<open>The properties at work\<close>

definition auto_cfg :: config where
  "auto_cfg = default_config\<lparr>c_tls_mode := tls_mode_auto, c_tls_ca_cert_file := ''/d/ca.pem'',
     c_tls_ca_key_file := ''/d/ca.key'', c_tls_cert_cache_size := 1, c_tls_cert_ttl := 3600000000000\<rparr>"

lemma auto_cfg_simps [simp]:
  "c_tls_mode auto_cfg = tls_mode_auto" "c_tls_ca_cert_file auto_cfg = ''/d/ca.pem''" "c_tls_ca_key_file auto_cfg = ''/d/ca.key''"
  "c_tls_cert_cache_size auto_cfg = 1" "c_tls_cert_ttl auto_cfg = 3600000000000"
  by (simp_all add: auto_cfg_def)

definition down_vault :: vault_env where
  "down_vault = \<lparr>ve_read_file = Inl, ve_has_certs = (\<lambda>_. False), ve_hostname = None, ve_new_request = (\<lambda>_ _. None),
     ve_do = (\<lambda>_ _. Inl ''refused''), ve_decode_issue = Inl, ve_decode_errors = (\<lambda>_. None),
     ve_key_pair = (\<lambda>_ _. Inl ''none''), ve_parse = Inl\<rparr>"

definition sample_tls :: tls_env where
  "sample_tls = \<lparr>te_ca = sample_ca_env, te_vault = down_vault, te_load_pair = (\<lambda>_ _. Inl ''none''), te_quote = id, te_took = 1\<rparr>"

lemma sample_tls_simps [simp]: "te_ca sample_tls = sample_ca_env" "te_vault sample_tls = down_vault"
  by (simp_all add: sample_tls_def)

definition ca_only_fs :: fsys where
  "ca_only_fs = empty_fs\<lparr>fs_files := [(''/d/ca.pem'', (''old'', 0x1A4))]\<rparr>"

definition after_start :: "fsys \<Rightarrow> fsys" where
  "after_start fs = snd (persist sample_ca_env sample_ca ''/d/ca.pem'' ''/d/ca.key'' fs)"

lemma persist_start: "persist sample_ca_env sample_ca ''/d/ca.pem'' ''/d/ca.key'' ca_only_fs = (None, after_start ca_only_fs)"
  using sample_persist [of "[(''/d/ca.pem'', (''old'', 0x1A4))]"] by (simp add: after_start_def ca_only_fs_def)

lemma ca_only_reads [simp]: "fs_read_err ca_only_fs = (\<lambda>_. None)" "fs_files ca_only_fs = [(''/d/ca.pem'', (''old'', 0x1A4))]"
  "read_file ca_only_fs ''/d/ca.pem'' = Inr ''old''"
  by (simp_all add: ca_only_fs_def empty_fs_def read_file_def)

theorem missing_key_regenerates_witness:
  "load_or_create_ca sample_ca_env auto_cfg ca_only_fs = (Inr sample_ca, [(Info, ''generated new CA'',
      [(''cert'', FStr ''/d/ca.pem''), (''key'', FStr ''/d/ca.key'')])], after_start ca_only_fs)"
  using missing_key_regenerates [of ca_only_fs auto_cfg "''old''" sample_ca_env sample_ca "after_start ca_only_fs"]
    persist_start sample_new by simp

lemma first_start:
  "load_or_create_ca sample_ca_env auto_cfg ca_only_fs = (Inr sample_ca, [(Info, ''generated new CA'',
      [(''cert'', FStr ''/d/ca.pem''), (''key'', FStr ''/d/ca.key'')])], after_start ca_only_fs)"
  using persist_start sample_new
  by (simp add: load_or_create_ca_def load_ca_def is_not_exist_def Let_def)
    (simp add: read_file_def load_ca_def is_not_exist_def Let_def)

theorem ca_survives_restart_witness:
  "load_or_create_ca (sample_ca_env\<lparr>ce_now := 5, ce_generate_key := Inl ''no entropy'', ce_random := (\<lambda>_. Inl ''no entropy'')\<rparr>)
     auto_cfg (after_start ca_only_fs)
   = (Inr sample_ca, [(Info, ''loaded existing CA'', [(''cert'', FStr ''/d/ca.pem'')])], after_start ca_only_fs)"
  using ca_survives_restart [OF sample_crypto first_start,
    where t = 5 and k = "Inl ''no entropy''" and rnd = "\<lambda>_. Inl ''no entropy''"] by simp

lemma first_build:
  "build sample_tls auto_cfg ca_only_fs =
     (Inr \<lparr>tr_config = (base_tls auto_cfg)\<lparr>tl_source := AutoSource sample_ca, tl_cache := Some (new_cert_cache 1)\<rparr>,
           tr_ca_pem = Some (ca_pem sample_ca)\<rparr>,
      [(Info, ''generated new CA'', [(''cert'', FStr ''/d/ca.pem''), (''key'', FStr ''/d/ca.key'')])], after_start ca_only_fs)"
  using tls_modes_distinct by (auto simp: build_def first_start Let_def)

theorem build_shape_witness:
  "tl_min_version ((base_tls auto_cfg)\<lparr>tl_source := AutoSource sample_ca, tl_cache := Some (new_cert_cache 1)\<rparr>) = 0x0303"
  using build_shape [OF first_build] by simp

lemma sample_serves:
  assumes "sni = ''a.example'' \<or> sni = ''192.0.2.1''"
  shows "\<exists>cert. fst (auto_handshake sample_tls auto_cfg sample_ca sni (new_cert_cache 1)) = Got cert"
proof -
  obtain cert where mint: "mint sample_ca_env sample_ca sni 3600000000000 = Inr cert"
    using assms sample_mints by blast
  then obtain leaf where leaf: "tc_leaf cert = Some leaf"
    using mint_leaf [OF sample_crypto] by blast
  show ?thesis
    using mint leaf cache_lookup_content [OF new_cache_inv [of 1]] cache_get_cases [OF new_cache_inv [of 1]]
    by (simp add: auto_handshake_def get_certificate_def auto_call_def leaf_of_def Let_def)
qed

text \<open>Two names that are served, one of them an address, and one that the library cannot sign for.\<close>

theorem auto_serves_own_names_witness:
  "\<exists>cert r rs c'. run_handshakes (\<lambda>env. auto_handshake env auto_cfg sample_ca)
     [(sample_tls, ''192.0.2.1''), (sample_tls, ''b.example''), (sample_tls, ''a.example'')] (new_cert_cache 1)
       = ((''192.0.2.1'', Got cert) # rs, c') \<and>
     covers_name ''192.0.2.1'' cert \<and> map fst rs = [''b.example'', ''a.example''] \<and> list_all (served_well covers_name) rs \<and>
     int (cache_len c') \<le> 1"
proof -
  obtain rs c' where run: "run_handshakes (\<lambda>env. auto_handshake env auto_cfg sample_ca)
     [(sample_tls, ''192.0.2.1''), (sample_tls, ''b.example''), (sample_tls, ''a.example'')] (new_cert_cache 1) = (rs, c')"
    by (metis prod.exhaust)
  obtain cert where "fst (auto_handshake sample_tls auto_cfg sample_ca ''192.0.2.1'' (new_cert_cache 1)) = Got cert"
    using sample_serves by blast
  with run obtain rs1 where "rs = (''192.0.2.1'', Got cert) # rs1"
    by (auto split: prod.splits)
  with auto_serves_own_names [OF first_build _ _ _ _ _ run] run show ?thesis
    by (simp add: sample_crypto served_well_def)
qed

theorem vault_refresh_two_thirds_witness:
  "\<not> vault_refresh 66 plain_leaf \<and> vault_refresh 67 plain_leaf"
  using vault_refresh_two_thirds [of plain_leaf 66] vault_refresh_two_thirds [of plain_leaf 67]
  by (simp add: plain_leaf_def is_i64_def min_i64_def max_i64_def)

definition cached_leaf :: x509 where
  "cached_leaf = sample_x509 False [''a.example''] 1010000000000"

definition cached_cert :: tls_cert where
  "cached_cert = \<lparr>tc_chain = [''leaf''], tc_key = ''key'', tc_leaf = Some cached_leaf\<rparr>"

definition one_cached :: cert_cache where
  "one_cached = cache_put ''a.example'' cached_cert cached_leaf (new_cert_cache 1)"

lemma one_cached_ok: "cache_inv one_cached" "cache_content one_cached ''a.example'' = Some (cached_cert, cached_leaf)"
  using lru.ok_put [of "new_cert_cache 1"] lru.content_put_same [of "new_cert_cache 1"] by (simp_all add: one_cached_def)

definition sample_client :: vault_client where
  "sample_client = \<lparr>vl_cfg = vault_config_of auto_cfg, vl_http = \<lparr>vh_min_version = 0x0303, vh_insecure_skip_verify = False,
     vh_root_pem = None, vh_timeout = request_timeout\<rparr>\<rparr>"

lemma sample_client_fails: "issue (te_vault sample_tls) sample_client sni = Inl ''vault issue request: refused''"
  by (simp add: issue_def vault_exchange_def down_vault_def)

theorem vault_outage_survived_witness:
  "fst (vault_handshake sample_tls auto_cfg sample_client ''a.example'' one_cached) = Got cached_cert"
proof -
  obtain r c' ms where run: "vault_handshake sample_tls auto_cfg sample_client ''a.example'' one_cached = (r, c', ms)"
    by (cases "vault_handshake sample_tls auto_cfg sample_client ''a.example'' one_cached")
  have "r = Got cached_cert"
    using vault_outage_survived [OF one_cached_ok sample_client_fails _ run]
    by (simp add: cached_leaf_def sample_x509_def)
  with run show ?thesis by simp
qed

theorem short_ttl_never_cached_witness:
  "\<exists>leaf cert. tc_leaf cert = Some leaf \<and>
     fst (cache_lookup (default_refresh 1000000000000) ''a.example'' (cache_put ''a.example'' cert leaf (new_cert_cache 1))) = None"
proof -
  define env where "env = blank_ca_env\<lparr>
     ce_create := (\<lambda>tmpl _ pub _. if tmpl = leaf_template blank_ca_env 7 ''a.example'' 10000000000 \<and> pub = ''key''
        then Inr ''leaf'' else Inl ''no''),
     ce_parse := (\<lambda>der. if der = ''leaf'' then Inr (cached_leaf, EcPublic ''key'') else Inl ''no'')\<rparr>"
  have ip: "parse_ip ''a.example'' = None" by (simp add: parse_ip_def, code_simp)
  have tmpl: "leaf_template env n sni ttl = leaf_template blank_ca_env n sni ttl" for n sni ttl
    by (simp add: env_def leaf_template_def leaf_names_def leaf_common_name_def)
  have crypto: "ca_crypto_ok env"
    unfolding ca_crypto_ok_def
    by (auto simp: env_def blank_ca_env_def unary_roundtrip cached_leaf_def sample_x509_def leaf_template_def
        leaf_names_def ip not_before_skew_def whole_seconds_def split: if_splits)
  have parts: "ce_generate_key env = Inr ''key''" "random_serial env = Inr 7" "ce_public_of env = (\<lambda>k. k)"
    "ce_create env (leaf_template blank_ca_env 7 ''a.example'' 10000000000) p ''key'' k = Inr ''leaf''"
    "ce_parse env ''leaf'' = Inr (cached_leaf, EcPublic ''key'')" for p k
    by (simp_all add: env_def random_serial_def blank_ca_env_def)
  have "mint env sample_ca ''a.example'' 10000000000 = Inr cached_cert"
    by (simp add: mint_def tmpl parts cached_cert_def)
  from short_ttl_never_cached [OF crypto this _ _ one_cached_ok, of 1000000000000] show ?thesis
    by (intro exI [of _ cached_leaf] exI [of _ cached_cert]) (simp add: cached_cert_def env_def blank_ca_env_def one_cached_def)
qed

definition vault_cfg :: config where
  "vault_cfg = auto_cfg\<lparr>c_tls_mode := tls_mode_vault\<rparr>"

lemma vault_build:
  "\<exists>res ms client. build sample_tls vault_cfg empty_fs = (Inr res, ms, empty_fs) \<and> tl_source (tr_config res) = VaultSource client \<and>
     tl_cache (tr_config res) = Some (new_cert_cache 1)"
proof -
  have "c_vault_cacert auto_cfg = []"
    by (simp add: auto_cfg_def)
      (simp only: default_config_def config.simps flag_string_def new_flag_set_def map_of.simps fun_upd_apply fst_conv snd_conv, simp)
  then obtain client where client: "new_vault down_vault (vault_config_of vault_cfg) = Inr client"
    by (simp add: new_vault_def vault_config_of_def vault_cfg_def Let_def)
  have "c_tls_mode vault_cfg = tls_mode_vault" "c_tls_cert_cache_size vault_cfg = 1"
    by (simp_all add: vault_cfg_def)
  with tls_modes_distinct client show ?thesis
    by (auto simp: build_def Let_def split: sum.split)
qed

definition up_tls :: tls_env where
  "up_tls = sample_tls\<lparr>te_vault := issuing_vault vault_leaf\<rparr>"

lemma vault_first_served:
  "\<exists>ms. vault_handshake up_tls vault_cfg client ''a.example'' (new_cert_cache 1)
     = (Got (issued_cert vault_leaf), cache_put ''a.example'' (issued_cert vault_leaf) vault_leaf (new_cert_cache 1), ms)"
  using cache_lookup_content [OF new_cache_inv [of 1]] cache_get_cases [OF new_cache_inv [of 1]]
  by (simp add: vault_handshake_def get_certificate_def vault_call_def leaf_of_def up_tls_def issuing_vault_issues Let_def)
    (simp add: issued_cert_def)

lemma vault_then_served:
  "fst (vault_handshake sample_tls vault_cfg client ''a.example''
     (cache_put ''a.example'' (issued_cert vault_leaf) vault_leaf (new_cert_cache 1))) = Got (issued_cert vault_leaf)"
proof -
  let ?c = "cache_put ''a.example'' (issued_cert vault_leaf) vault_leaf (new_cert_cache 1)"
  have c: "cache_inv ?c" "cache_content ?c ''a.example'' = Some (issued_cert vault_leaf, vault_leaf)"
    using lru.ok_put [of "new_cert_cache 1"] lru.content_put_same [of "new_cert_cache 1"] by simp_all
  have "issue down_vault client ''a.example'' = Inl ''vault issue request: refused''"
    by (simp add: issue_def vault_exchange_def down_vault_def)
  moreover have "1000000000000 \<le> x_not_after vault_leaf" by (simp add: vault_leaf_def)
  ultimately show ?thesis
    using cache_lookup_content [OF c(1)] cache_get_cases [OF c(1)] c(2)
    by (simp add: vault_handshake_def get_certificate_def vault_call_def issued_log_def Let_def)
qed

text \<open>Vault issues at the first handshake and is down at the second, which is served the cached certificate.\<close>

theorem vault_serves_issued_witness:
  "\<exists>client rs c'. run_handshakes (\<lambda>env. vault_handshake env vault_cfg client) [(up_tls, ''a.example''), (sample_tls, ''a.example'')]
      (new_cert_cache 1) = (rs, c') \<and>
     rs = [(''a.example'', Got (issued_cert vault_leaf)), (''a.example'', Got (issued_cert vault_leaf))] \<and>
     issue (te_vault up_tls) client ''a.example'' = Inr (issued_cert vault_leaf) \<and> int (cache_len c') \<le> 1"
proof -
  obtain res ms client where b: "build sample_tls vault_cfg empty_fs = (Inr res, ms, empty_fs)"
    "tl_source (tr_config res) = VaultSource client" "tl_cache (tr_config res) = Some (new_cert_cache 1)"
    using vault_build by blast
  let ?hs = "[(up_tls, ''a.example''), (sample_tls, ''a.example'')]"
  obtain rs c' where run: "run_handshakes (\<lambda>env. vault_handshake env vault_cfg client) ?hs (new_cert_cache 1) = (rs, c')"
    by (metis prod.exhaust)
  have rs: "rs = [(''a.example'', Got (issued_cert vault_leaf)), (''a.example'', Got (issued_cert vault_leaf))]"
    using run vault_first_served [of client] vault_then_served [of client] by (auto split: prod.splits)
  have cfg: "c_tls_mode vault_cfg = tls_mode_vault" "0 < c_tls_cert_cache_size vault_cfg" "c_tls_cert_cache_size vault_cfg = 1"
    by (simp_all add: vault_cfg_def)
  note claim = vault_serves_issued [OF b(1) cfg(1,2) b(2,3) run]
  then have len: "int (cache_len c') \<le> 1" unfolding cfg(3) by blast
  have "1 < length rs" "rs ! 1 = (''a.example'', Got (issued_cert vault_leaf))" by (simp_all add: rs)
  then obtain j env where j: "j \<le> 1" "?hs ! j = (env, ''a.example'')" "issue (te_vault env) client ''a.example'' = Inr (issued_cert vault_leaf)"
    using claim by blast
  have "issue (te_vault sample_tls) client ''a.example'' \<noteq> Inr (issued_cert vault_leaf)"
    by (simp add: issue_def vault_exchange_def down_vault_def)
  with j have "issue (te_vault up_tls) client ''a.example'' = Inr (issued_cert vault_leaf)"
    by (cases j) auto
  with run rs len show ?thesis by blast
qed

end
