(* ===== verification/Handler.thy ===== *)
theory Handler
  imports Echo Config Forward Recorder Verbose Metrics Logging
begin

text \<open>
  \<open>internal/server/handler.go\<close> without the dispatch of \<open>serve\<close> (theory \<open>Serve\<close>): the
  handler and its construction, the echo with response shaping and CORS, forwarding, and the
  bookkeeping at the end of a request. A request's state (\<open>srv\<close>) is the recorder with the
  wire behind it, the calls made on the logger and on the collectors, and the verbose printer.
  \<open>sv_crashed\<close> is a panic, which ends the request; the calls after it are not made.
\<close>

section \<open>The handler\<close>

definition header_status_code :: string where
  "header_status_code = ''X-Set-Response-Status-Code''"

definition header_content_type :: string where
  "header_content_type = ''X-Set-Response-Content-Type''"

definition header_delay_ms :: string where
  "header_delay_ms = ''X-Set-Response-Delay-Ms''"

definition query_body_only :: string where
  "query_body_only = ''response_body_only''"

record handler =
  h_cfg :: config
  h_metrics :: "metrics option"
  h_verbose :: bool
  h_fwd :: "forwarder option"
  h_ca_pem :: "bytes option"
  h_echo_opts :: echo_options
  h_dump_cap :: int
  h_cors_origins :: "string list"
  h_cors_all :: bool

text \<open>A nil \<open>corsOrigins\<close> is the empty list: the code appends to it or leaves it nil.\<close>

definition new_handler ::
  "config \<Rightarrow> metrics option \<Rightarrow> bool \<Rightarrow> forwarder option \<Rightarrow> bytes option \<Rightarrow> handler" where
  "new_handler cfg m vp fwd ca_pem =
     \<lparr>h_cfg = cfg, h_metrics = m, h_verbose = vp, h_fwd = fwd, h_ca_pem = ca_pem,
      h_echo_opts =
        \<lparr>eo_jwt_header = c_jwt_header cfg, eo_cookie_secret = c_cookie_secret cfg,
         eo_include_env = c_echo_include_env_vars cfg,
         eo_proxies = Some (new_proxy_checker (c_extra_trusted_proxies cfg))\<rparr>,
      h_dump_cap = (if vp then i64 (c_max_body_size cfg + 1) else 0),
      h_cors_origins =
        (if c_cors_allow_origin cfg = ''*'' then []
         else filter (\<lambda>p. p \<noteq> []) (map trim_space (split_on CHR '','' (c_cors_allow_origin cfg)))),
      h_cors_all = (c_cors_allow_origin cfg = ''*'')\<rparr>"

section \<open>Logs and the request's state\<close>

record forward_log =
  fl_url :: string
  fl_status :: int
  fl_headers :: "collapsed gomap"
  fl_body :: string
  fl_body_truncated :: bool
  fl_error :: string

datatype log_entry =
    Message level string "(string \<times> log_field) list"
  | RequestLog level echo_response int int "forward_log option"

record srv =
  sv_rec :: recorder
  sv_log :: "log_entry list"
  sv_obs :: "metric_call list"
  sv_printer :: "printer option"
  sv_crashed :: bool

definition log_msg :: "level \<Rightarrow> string \<Rightarrow> (string \<times> log_field) list \<Rightarrow> srv \<Rightarrow> srv" where
  "log_msg l m fs s = s\<lparr>sv_log := sv_log s @ [Message l m fs]\<rparr>"

definition on_rec :: "(recorder \<Rightarrow> recorder) \<Rightarrow> srv \<Rightarrow> srv" where
  "on_rec f s = (let r = f (sv_rec s) in s\<lparr>sv_rec := r, sv_crashed := (sv_crashed s \<or> w_panic (rec_wire r))\<rparr>)"

definition set_header :: "string \<Rightarrow> string \<Rightarrow> srv \<Rightarrow> srv" where
  "set_header k v = on_rec (rec_edit (\<lambda>h. h_set h k v))"

definition add_header :: "string \<Rightarrow> string \<Rightarrow> srv \<Rightarrow> srv" where
  "add_header k v = on_rec (rec_edit (\<lambda>h. h_add h k v))"

text \<open>The next call, unless the request has ended in a panic.\<close>

definition andthen :: "srv \<Rightarrow> (srv \<Rightarrow> srv) \<Rightarrow> srv" where
  "andthen s f = (if sv_crashed s then s else f s)"

text \<open>
  What a request asks of its surroundings: the libraries, the override file, whether the client goes
  away during a wait of the given milliseconds, the clock at the four times it is read, and what the metrics
  endpoint of the Prometheus client does with the response writer.
\<close>

record srv_env =
  se_echo :: echo_env
  se_fwd :: fwd_env
  se_contains_token :: "string list \<Rightarrow> string \<Rightarrow> bool"
  se_read_file :: "string \<Rightarrow> string + bytes"
  se_client_gone :: "int \<Rightarrow> bool"
  se_start :: int
  se_dump_start :: int
  se_responded :: int
  se_finished :: int
  se_metrics_page :: "collector list \<Rightarrow> writer_op list"

section \<open>Small functions\<close>

definition scheme_of :: "bool \<Rightarrow> string" where
  "scheme_of is_tls = (if is_tls then ''https'' else ''http'')"

definition cap_body :: "bytes \<Rightarrow> int \<Rightarrow> bytes \<times> bool" where
  "cap_body body limit = (if limit < int (length body) then (take (nat limit) body, True) else (body, False))"

definition shape_value :: "request \<Rightarrow> string \<Rightarrow> string" where
  "shape_value r name =
     (if h_get (r_header r) name \<noteq> [] then h_get (r_header r) name
      else q_get (parse_query (u_raw_query (r_url r))) (ascii_lower name))"

definition is_web_socket_upgrade :: "srv_env \<Rightarrow> request \<Rightarrow> bool" where
  "is_web_socket_upgrade env r \<longleftrightarrow>
     equal_fold (h_get (r_header r) ''Upgrade'') ''websocket'' \<and>
     se_contains_token env (h_values (r_header r) ''Connection'') ''Upgrade''"

definition body_limit :: "handler \<Rightarrow> int" where
  "body_limit h = (if h_fwd h \<noteq> None then 2 ^ 40 else i64 (c_max_body_size (h_cfg h) + 1))"

definition ignored :: "handler \<Rightarrow> string \<Rightarrow> bool" where
  "ignored h path \<longleftrightarrow> list_ex (\<lambda>re. re path) (c_log_ignore_regexps (h_cfg h))"

definition request_info_of :: "srv_env \<Rightarrow> request \<Rightarrow> bool \<Rightarrow> bytes \<Rightarrow> request_info" where
  "request_info_of env r is_tls body =
     \<lparr>ri_remote_addr = r_remote_addr r, ri_scheme = scheme_of is_tls, ri_proto = r_proto r,
      ri_tls_version = (case r_tls r of Some t \<Rightarrow> tls_version_name (se_echo env) (t_version t) | None \<Rightarrow> []),
      ri_sni = (case r_tls r of Some t \<Rightarrow> t_server_name t | None \<Rightarrow> []),
      ri_method = r_method r, ri_request_uri = request_uri (r_url r), ri_host = r_host r,
      ri_header = r_header r, ri_body = body\<rparr>"

section \<open>The end of a request\<close>

definition finish ::
  "srv_env \<Rightarrow> handler \<Rightarrow> request \<Rightarrow> echo_response option \<Rightarrow> bool \<Rightarrow> forward_log option \<Rightarrow> bool \<Rightarrow> srv \<Rightarrow> srv" where
  "finish env h r ec is_tls fl reserved s =
     (let duration = time_sub (se_finished env) (se_start env);
          status = rec_get_status (sv_rec s);
          s1 = (case h_metrics h of
                  None \<Rightarrow> s
                | Some m \<Rightarrow>
                    (case observe m (r_method r) (u_path (r_url r)) status duration of
                       Some calls \<Rightarrow> s\<lparr>sv_obs := sv_obs s @ calls\<rparr>
                     | None \<Rightarrow> s\<lparr>sv_crashed := True\<rparr>))
      in andthen s1 (\<lambda>s1.
         if c_disable_request_logs (h_cfg h) \<or> ignored h (u_path (r_url r)) then s1
         else
           (let e = (case ec of Some e \<Rightarrow> e
                     | None \<Rightarrow> capture (se_echo env) r [] False is_tls (h_echo_opts h))
            in s1\<lparr>sv_log := sv_log s1 @
                    [RequestLog (if reserved then Debug else Info) e status (millis duration) fl]\<rparr>)))"

section \<open>The echo\<close>

definition apply_cors :: "handler \<Rightarrow> request \<Rightarrow> srv \<Rightarrow> bool \<times> srv" where
  "apply_cors h r s =
     (let cfg = h_cfg h;
          origin = h_get (r_header r) ''Origin'';
          (allowed, s1) =
            (if h_cors_all h then (''*'', s)
             else if origin \<noteq> [] \<and> origin \<in> set (h_cors_origins h)
             then (origin, add_header ''Vary'' ''Origin'' s)
             else ([], s));
          s2 = (if allowed \<noteq> [] then
                  (let s' = set_header ''Access-Control-Allow-Origin'' allowed s1 in
                   if c_cors_allow_credentials cfg
                   then set_header ''Access-Control-Allow-Credentials'' ''true'' s' else s')
                else s1)
      in if r_method r = ''OPTIONS'' \<and> h_get (r_header r) ''Access-Control-Request-Method'' \<noteq> [] then
           (let methods = (if c_cors_allow_methods cfg = [] then ''GET, POST, PUT, PATCH, DELETE, HEAD, OPTIONS''
                           else c_cors_allow_methods cfg);
                s3 = set_header ''Access-Control-Allow-Methods'' methods s2;
                headers = (if c_cors_allow_headers cfg = []
                           then h_get (r_header r) ''Access-Control-Request-Headers'' else c_cors_allow_headers cfg);
                s4 = (if headers \<noteq> [] then set_header ''Access-Control-Allow-Headers'' headers s3 else s3);
                s5 = log_msg Debug ''answered CORS preflight''
                       [(''origin'', FStr origin),
                        (''requestMethod'', FStr (h_get (r_header r) ''Access-Control-Request-Method''))] s4
            in (True, on_rec (rec_write_header 204) s5))
         else (False, s2))"

text \<open>The wait in milliseconds, with the logs of its parsing; 0 is no wait.\<close>

definition delay_of :: "request \<Rightarrow> srv \<Rightarrow> int \<times> srv" where
  "delay_of r s =
     (let v = shape_value r header_delay_ms in
      if v = [] then (0, s)
      else (case atoi v of
              None \<Rightarrow> (0, log_msg Warn ''ignoring invalid x-set-response-delay-ms'' [(''value'', FStr v)] s)
            | Some ms \<Rightarrow>
                if ms < 0 then (0, log_msg Warn ''ignoring invalid x-set-response-delay-ms'' [(''value'', FStr v)] s)
                else if max_delay_ms < ms then
                  (max_delay_ms, log_msg Debug ''capping shaped delay''
                     [(''requestedMs'', FInteger ms), (''cappedMs'', FInteger max_delay_ms)] s)
                else (ms, s)))"

definition delay :: "srv_env \<Rightarrow> request \<Rightarrow> srv \<Rightarrow> bool \<times> srv" where
  "delay env r s =
     (case delay_of r s of (ms, s1) \<Rightarrow>
        if ms = 0 then (True, s1)
        else (\<not> se_client_gone env ms,
              log_msg Debug ''delaying response'' [(''delayMs'', FInteger ms), (''path'', FStr (u_path (r_url r)))] s1))"

definition shaped_status :: "request \<Rightarrow> srv \<Rightarrow> int \<times> srv" where
  "shaped_status r s =
     (let v = shape_value r header_status_code in
      if v = [] then (200, s)
      else (case atoi v of
              Some code \<Rightarrow>
                if 100 \<le> code \<and> code \<le> 599 then (code, s)
                else (200, log_msg Warn ''ignoring invalid x-set-response-status-code'' [(''value'', FStr v)] s)
            | None \<Rightarrow> (200, log_msg Warn ''ignoring invalid x-set-response-status-code'' [(''value'', FStr v)] s)))"

text \<open>The body and whether it is the rendered echo.\<close>

definition echo_body :: "srv_env \<Rightarrow> handler \<Rightarrow> request \<Rightarrow> bytes \<Rightarrow> echo_response \<Rightarrow> srv \<Rightarrow> bytes \<times> bool \<times> srv" where
  "echo_body env h r body ec s =
     (let cfg = h_cfg h; file = c_override_response_body_file_path cfg in
      if \<not> c_echo_back_to_client cfg then ([], False, s)
      else if file \<noteq> [] then
        (case se_read_file env file of
           Inl e \<Rightarrow> (render_response ec, True,
              log_msg Warn ''reading override response body file failed, echoing instead''
                [(''path'', FStr file), (''error'', FStr e)] s)
         | Inr b \<Rightarrow> (b, False, s))
      else if q_get (parse_query (u_raw_query (r_url r))) query_body_only = ''true'' then (body, False, s)
      else (render_response ec, True, s))"

definition handle_echo :: "srv_env \<Rightarrow> handler \<Rightarrow> request \<Rightarrow> bytes \<Rightarrow> echo_response \<Rightarrow> srv \<Rightarrow> srv" where
  "handle_echo env h r body ec s =
     (let (answered, s0) =
        (if h_cors_all h \<or> h_cors_origins h \<noteq> [] then apply_cors h r s else (False, s))
      in if answered then s0
         else
           (let (status, s1) = shaped_status r s0;
                content_type = shape_value r header_content_type;
                (waited, s2) = delay env r s1
            in if \<not> waited then
                 on_rec (rec_abort status_client_closed_request)
                   (log_msg Debug ''client disconnected during shaped delay'' [(''path'', FStr (u_path (r_url r)))] s2)
               else
                 (let (resp_body, is_json, s3) = echo_body env h r body ec s2;
                      ct = (if content_type = [] \<and> is_json then ''application/json; charset=utf-8'' else content_type);
                      s4 = (if ct \<noteq> [] then set_header ''Content-Type'' ct s3 else s3)
                  in andthen (on_rec (rec_write_header status) s4) (on_rec (rec_write resp_body)))))"

section \<open>Forwarding\<close>

definition on_exchange :: "(exchange \<Rightarrow> exchange) \<Rightarrow> exchange option \<Rightarrow> exchange option" where
  "on_exchange f ex = map_option f ex"

text \<open>The dump of the upstream leg.\<close>

definition dump_forward :: "request \<Rightarrow> bytes \<Rightarrow> fwd_result \<Rightarrow> exchange \<Rightarrow> exchange" where
  "dump_forward r body res e =
     (let e1 = ex_forward (fr_url res) (r_method r) (fr_sent_host res) (fr_sent_header res) body e in
      case fr_err res of
        Some err \<Rightarrow> ex_forward_error err e1
      | None \<Rightarrow> ex_forward_response (fr_proto res) (fr_status res) (fr_header res) (fr_body res) e1)"

definition handle_forward ::
  "srv_env \<Rightarrow> handler \<Rightarrow> forwarder \<Rightarrow> request \<Rightarrow> bytes \<Rightarrow> exchange option \<Rightarrow> bool \<Rightarrow> srv \<Rightarrow>
     forward_log \<times> exchange option \<times> srv" where
  "handle_forward env h fwd r body ex is_tls s =
     (let s0 = log_msg Debug ''forwarding request''
                 [(''method'', FStr (r_method r)), (''path'', FStr (request_uri (r_url r))),
                  (''bodyBytes'', FInteger (int (length body)))] s;
          res = forward_do (se_fwd env) fwd r body (peer_ip (r_remote_addr r)) (scheme_of is_tls);
          ex1 = on_exchange (dump_forward r body res) ex;
          fl = \<lparr>fl_url = fr_url res, fl_status = 0, fl_headers = [], fl_body = [],
                fl_body_truncated = False, fl_error = []\<rparr>
      in case fr_err res of
           Some err \<Rightarrow>
             (let s1 = log_msg Error ''forward failed'' [(''url'', FStr (fr_url res)), (''error'', FStr err)] s0;
                  s2 = set_header ''Content-Type'' ''application/json; charset=utf-8'' s1;
                  s3 = on_rec (rec_write_header 502) s2;
                  msg = json_compact (JObj [(''error'', JStr err), (''target'', JStr (fr_url res))])
              in (fl\<lparr>fl_error := err\<rparr>, ex1, andthen s3 (on_rec (rec_write (msg @ [CHR 0x0A])))))
         | None \<Rightarrow>
             (let (log_body, log_truncated) = cap_body (fr_body res) (c_max_body_size (h_cfg h));
                  fl1 = fl\<lparr>fl_status := fr_code res, fl_headers := collapse_header (fr_header res),
                           fl_body := log_body, fl_body_truncated := log_truncated\<rparr>;
                  s1 = log_msg Debug ''relaying remote response''
                         [(''url'', FStr (fr_url res)), (''status'', FInteger (fr_code res)),
                          (''bodyBytes'', FInteger (int (length (fr_body res))))] s0;
                  s2 = on_rec (rec_edit (\<lambda>hd. store_all hd (fr_header res))) s1;
                  s3 = on_rec (rec_write_header (fr_code res)) s2
              in (fl1, ex1, andthen s3 (on_rec (rec_write (fr_body res))))))"

section \<open>The request's state as a response writer\<close>

lemma log_msg_simps [simp]:
  "sv_rec (log_msg l m fs s) = sv_rec s" "sv_crashed (log_msg l m fs s) = sv_crashed s"
  "sv_obs (log_msg l m fs s) = sv_obs s" "sv_printer (log_msg l m fs s) = sv_printer s"
  by (simp_all add: log_msg_def)

lemma on_rec_simps [simp]:
  "sv_rec (on_rec f s) = f (sv_rec s)" "sv_log (on_rec f s) = sv_log s"
  "sv_crashed (on_rec f s) = (sv_crashed s \<or> w_panic (rec_wire (f (sv_rec s))))"
  "sv_obs (on_rec f s) = sv_obs s" "sv_printer (on_rec f s) = sv_printer s"
  by (simp_all add: on_rec_def Let_def)

definition srv_wire :: "srv \<Rightarrow> wire" where
  "srv_wire s = rec_wire (sv_rec s)"

definition srv_ready :: "srv \<Rightarrow> bool" where
  "srv_ready s \<longleftrightarrow> rec_ready (sv_rec s) \<and> \<not> sv_crashed s \<and> \<not> w_panic (srv_wire s)"

lemma wire_panic_keeps [wire]:
  "valid_code c \<Longrightarrow> w_panic (wire_write_header c w) = w_panic w"
  "w_panic (wire_write b w) = w_panic w"
  by (auto simp: wire_write_header_def wire_write_def Let_def split: option.split)

interpretation srv_rw: response_writer srv_wire "\<lambda>f. on_rec (rec_edit f)" "\<lambda>c. on_rec (rec_write_header c)"
  "\<lambda>b. on_rec (rec_write b)" srv_ready
proof unfold_locales
  fix f s show "srv_wire (on_rec (rec_edit f) s) = (srv_wire s)\<lparr>w_header := f (w_header (srv_wire s))\<rparr>"
    by (simp add: srv_wire_def rec_rw.wire_edit)
next
  fix s c assume "srv_ready s" "valid_code c" "\<not> informational c"
  then show "srv_wire (on_rec (rec_write_header c) s) = wire_write_header c (srv_wire s)"
    and "srv_ready (on_rec (rec_write_header c) s)"
    using rec_rw.ready_announce [of "sv_rec s" c]
    by (simp_all add: srv_ready_def srv_wire_def rec_rw.wire_announce wire_panic_keeps)
next
  fix s b assume "srv_ready s"
  then show "srv_wire (on_rec (rec_write b) s) = wire_write b (srv_wire s)" and "srv_ready (on_rec (rec_write b) s)"
    using rec_rw.ready_put_body [of "sv_rec s" b]
    by (simp_all add: srv_ready_def srv_wire_def rec_rw.wire_put_body wire_panic_keeps)
next
  fix f s assume "srv_ready s"
  then show "srv_ready (on_rec (rec_edit f) s)"
    using rec_rw.ready_edit [of "sv_rec s" f] by (simp add: srv_ready_def srv_wire_def rec_rw.wire_edit)
qed

text \<open>The state before the handler has done anything.\<close>

definition fresh_srv :: "int \<Rightarrow> printer option \<Rightarrow> srv" where
  "fresh_srv cap p =
     \<lparr>sv_rec = new_recorder fresh_wire cap, sv_log = [], sv_obs = [], sv_printer = p, sv_crashed = False\<rparr>"

definition unsent :: "srv \<Rightarrow> bool" where
  "unsent s \<longleftrightarrow> srv_ready s \<and> \<not> w_wrote (srv_wire s) \<and> w_written (srv_wire s) = 0 \<and> w_body (srv_wire s) = []
     \<and> h_get (w_header (srv_wire s)) ''Content-Length'' = []"

lemma unsent_fresh [simp]: "unsent (fresh_srv cap p)"
  by (simp add: unsent_def srv_ready_def srv_wire_def fresh_srv_def rec_ready_def new_recorder_def fresh_wire_def
      h_get_def h_values_def)

lemma unsent_log [simp]: "unsent (log_msg l m fs s) = unsent s"
  by (simp add: unsent_def srv_ready_def srv_wire_def)

lemma wire_fresh [simp]: "srv_wire (fresh_srv cap p) = fresh_wire" "w_header fresh_wire = []"
  by (simp_all add: srv_wire_def fresh_srv_def new_recorder_def fresh_wire_def)

text \<open>A response in one go: \<open>f\<close> edits the headers.\<close>

lemma respond:
  assumes "unsent s" "valid_code c" "\<not> informational c"
    and "h_get (f (w_header (srv_wire s))) ''Content-Length'' = [] \<or>
      (\<exists>n. declared_length (f (w_header (srv_wire s))) = Some n \<and> int (length b) \<le> n)"
  shows "srv_wire (andthen (on_rec (rec_write_header c) (on_rec (rec_edit f) s)) (on_rec (rec_write b)))
      = srv_wire (on_rec (rec_write b) (on_rec (rec_write_header c) (on_rec (rec_edit f) s)))"
    and "w_status (srv_wire (on_rec (rec_write b) (on_rec (rec_write_header c) (on_rec (rec_edit f) s)))) = c"
    and "w_wrote (srv_wire (on_rec (rec_write b) (on_rec (rec_write_header c) (on_rec (rec_edit f) s))))"
    and "w_sent (srv_wire (on_rec (rec_write b) (on_rec (rec_write_header c) (on_rec (rec_edit f) s))))
      = f (w_header (srv_wire s))"
    and "w_body (srv_wire (on_rec (rec_write b) (on_rec (rec_write_header c) (on_rec (rec_edit f) s))))
      = (if body_allowed c then b else [])"
    and "\<not> sv_crashed (on_rec (rec_write b) (on_rec (rec_write_header c) (on_rec (rec_edit f) s)))"
proof -
  have hij: "\<not> w_hijacked (srv_wire s)"
    using assms(1) by (simp add: unsent_def srv_ready_def rec_ready_def srv_wire_def)
  note r = srv_rw.respond_wire [of s c f b]
  have ready: "srv_ready (on_rec (rec_write_header c) (on_rec (rec_edit f) s))"
    using assms by (intro srv_rw.ready_announce srv_rw.ready_edit) (simp_all add: unsent_def)
  then show "srv_wire (andthen (on_rec (rec_write_header c) (on_rec (rec_edit f) s)) (on_rec (rec_write b)))
      = srv_wire (on_rec (rec_write b) (on_rec (rec_write_header c) (on_rec (rec_edit f) s)))"
    by (simp add: andthen_def srv_ready_def del: on_rec_simps)
  show "w_status (srv_wire (on_rec (rec_write b) (on_rec (rec_write_header c) (on_rec (rec_edit f) s)))) = c"
    "w_wrote (srv_wire (on_rec (rec_write b) (on_rec (rec_write_header c) (on_rec (rec_edit f) s))))"
    "w_sent (srv_wire (on_rec (rec_write b) (on_rec (rec_write_header c) (on_rec (rec_edit f) s))))
      = f (w_header (srv_wire s))"
    "w_body (srv_wire (on_rec (rec_write b) (on_rec (rec_write_header c) (on_rec (rec_edit f) s))))
      = (if body_allowed c then b else [])"
    using r assms hij by (simp_all add: unsent_def)
  show "\<not> sv_crashed (on_rec (rec_write b) (on_rec (rec_write_header c) (on_rec (rec_edit f) s)))"
    using srv_rw.ready_put_body [OF ready] by (simp add: srv_ready_def del: on_rec_simps)
qed

lemma respond_keeps:
  assumes "unsent s" "valid_code c" "\<not> informational c"
  shows "w_header (srv_wire (on_rec (rec_write b) (on_rec (rec_write_header c) (on_rec (rec_edit f) s))))
      = w_sent (srv_wire (on_rec (rec_write b) (on_rec (rec_write_header c) (on_rec (rec_edit f) s))))"
    and "w_info (srv_wire (on_rec (rec_write b) (on_rec (rec_write_header c) (on_rec (rec_edit f) s)))) = w_info (srv_wire s)"
proof -
  have ready: "srv_ready (on_rec (rec_edit f) s)" "srv_ready (on_rec (rec_write_header c) (on_rec (rec_edit f) s))"
    using assms by (intro srv_rw.ready_announce srv_rw.ready_edit; simp add: unsent_def)+
  define w where "w = (srv_wire s)\<lparr>w_header := f (w_header (srv_wire s))\<rparr>"
  have wire: "srv_wire (on_rec (rec_write b) (on_rec (rec_write_header c) (on_rec (rec_edit f) s))) = wire_write b (wire_write_header c w)"
    using ready assms by (simp add: srv_rw.wire_put_body srv_rw.wire_announce srv_rw.wire_edit w_def del: on_rec_simps)
  have w: "\<not> w_wrote w" "\<not> w_hijacked w"
    using assms(1) by (simp_all add: w_def unsent_def srv_ready_def rec_ready_def srv_wire_def)
  have h: "w_header (wire_write_header c w) = w_sent (wire_write_header c w)" "w_wrote (wire_write_header c w)"
    "w_info (wire_write_header c w) = w_info w"
    using w assms(2,3) by (simp_all add: wire_write_header_def Let_def)
  have "w_header (wire_write b u) = w_header u \<and> w_sent (wire_write b u) = w_sent u \<and> w_info (wire_write b u) = w_info u"
    if "w_wrote u" for u
    using that by (auto simp: wire_write_def Let_def split: option.split)
  with h show "w_header (srv_wire (on_rec (rec_write b) (on_rec (rec_write_header c) (on_rec (rec_edit f) s))))
      = w_sent (srv_wire (on_rec (rec_write b) (on_rec (rec_write_header c) (on_rec (rec_edit f) s))))"
    "w_info (srv_wire (on_rec (rec_write b) (on_rec (rec_write_header c) (on_rec (rec_edit f) s)))) = w_info (srv_wire s)"
    by (simp_all add: wire) (simp add: w_def)
qed

text \<open>
  An informational status goes out at once, with the headers, and the body that follows announces 200.
\<close>

lemma respond_informational:
  assumes "unsent s" "informational c" "h_get (f (w_header (srv_wire s))) ''Content-Length'' = []"
  shows "\<not> sv_crashed (on_rec (rec_write_header c) (on_rec (rec_edit f) s))"
    and "\<not> sv_crashed (on_rec (rec_write b) (on_rec (rec_write_header c) (on_rec (rec_edit f) s)))"
    and "w_info (srv_wire (on_rec (rec_write b) (on_rec (rec_write_header c) (on_rec (rec_edit f) s))))
      = w_info (srv_wire s) @ [(c, f (w_header (srv_wire s)))]"
    and "w_status (srv_wire (on_rec (rec_write b) (on_rec (rec_write_header c) (on_rec (rec_edit f) s)))) = 200"
    and "w_sent (srv_wire (on_rec (rec_write b) (on_rec (rec_write_header c) (on_rec (rec_edit f) s)))) = f (w_header (srv_wire s))"
    and "w_body (srv_wire (on_rec (rec_write b) (on_rec (rec_write_header c) (on_rec (rec_edit f) s)))) = b"
    and "w_header (srv_wire (on_rec (rec_write b) (on_rec (rec_write_header c) (on_rec (rec_edit f) s)))) = f (w_header (srv_wire s))"
proof -
  have v: "valid_code c" "valid_code 200" "\<not> informational 200" "body_allowed 200"
    using assms(2) by (auto simp: informational_def valid_code_def body_allowed_def)
  have dl: "declared_length (f (w_header (srv_wire s))) = None"
    using assms(3) by (simp add: declared_length_def)
  define w where "w = (srv_wire s)\<lparr>w_header := f (w_header (srv_wire s))\<rparr>"
  have w: "\<not> w_hijacked w" "\<not> w_wrote w" "\<not> w_panic w" "w_written w = 0" "w_body w = []" "w_header w = f (w_header (srv_wire s))"
    "w_info w = w_info (srv_wire s)"
    using assms(1) by (simp_all add: w_def unsent_def srv_ready_def rec_ready_def srv_wire_def)
  have nw: "\<not> rec_wrote (sv_rec s)" "\<not> sv_crashed s"
    using assms(1) by (simp_all add: unsent_def srv_ready_def rec_ready_def srv_wire_def)
  let ?t = "on_rec (rec_write_header c) (on_rec (rec_edit f) s)"
  have e: "srv_wire (on_rec (rec_edit f) s) = w" "\<not> rec_wrote (sv_rec (on_rec (rec_edit f) s))"
    using nw by (simp_all add: w_def srv_rw.wire_edit del: on_rec_simps) (simp add: rec_edit_def)
  have t: "srv_wire ?t = w\<lparr>w_info := w_info w @ [(c, w_header w)]\<rparr>" "rec_wrote (sv_rec ?t)"
    using e v(1) w(1,2) assms(2) by (simp_all add: srv_wire_def rec_write_header_def wire_write_header_def)
  have nc: "\<not> sv_crashed (on_rec (rec_edit f) s)"
    using nw w(3) e(1) by (simp add: srv_wire_def)
  with t(1) w(3) show "\<not> sv_crashed ?t"
    by (simp add: srv_wire_def)
  have b: "srv_wire (on_rec (rec_write b) ?t) = wire_write b (srv_wire ?t)"
    using t(2) by (simp add: srv_wire_def rec_write_def Let_def)
  have cl: "h_get (w_header w) ''Content-Length'' = []" "declared_length (w_header w) = None"
    using assms(3) dl by (simp_all add: w(6))
  have ww: "w_info (wire_write b (w\<lparr>w_info := i\<rparr>)) = i" "w_status (wire_write b (w\<lparr>w_info := i\<rparr>)) = 200"
    "w_sent (wire_write b (w\<lparr>w_info := i\<rparr>)) = w_header w" "w_body (wire_write b (w\<lparr>w_info := i\<rparr>)) = b"
    "w_header (wire_write b (w\<lparr>w_info := i\<rparr>)) = w_header w" "w_panic (wire_write b (w\<lparr>w_info := i\<rparr>)) = w_panic w" for i
    using v(2-4) w(1-5) cl by (cases "b = []"; simp add: wire_write_def wire_write_header_def Let_def)+
  show "w_info (srv_wire (on_rec (rec_write b) ?t)) = w_info (srv_wire s) @ [(c, f (w_header (srv_wire s)))]"
    "w_status (srv_wire (on_rec (rec_write b) ?t)) = 200"
    "w_sent (srv_wire (on_rec (rec_write b) ?t)) = f (w_header (srv_wire s))" "w_body (srv_wire (on_rec (rec_write b) ?t)) = b"
    "w_header (srv_wire (on_rec (rec_write b) ?t)) = f (w_header (srv_wire s))"
    unfolding b t(1) ww by (simp_all add: w)
  have "\<not> w_panic (srv_wire (on_rec (rec_write b) ?t))"
    unfolding b t(1) ww by (rule w(3))
  then show "\<not> sv_crashed (on_rec (rec_write b) ?t)"
    using \<open>\<not> sv_crashed ?t\<close> by (simp add: srv_wire_def)
qed

text \<open>
  What the client sees as the status: an informational one is followed by 200.
\<close>

definition final_status :: "int \<Rightarrow> int" where
  "final_status c = (if informational c then 200 else c)"

lemma respond_any:
  fixes b :: bytes
  assumes "unsent s" "valid_code c" "h_get (f (w_header (srv_wire s))) ''Content-Length'' = []"
  defines "t \<equiv> on_rec (rec_write b) (on_rec (rec_write_header c) (on_rec (rec_edit f) s))"
  shows "andthen (on_rec (rec_write_header c) (on_rec (rec_edit f) s)) (on_rec (rec_write b)) = t"
    and "w_status (srv_wire t) = final_status c" "w_sent (srv_wire t) = f (w_header (srv_wire s))"
    and "w_header (srv_wire t) = f (w_header (srv_wire s))"
    and "w_info (srv_wire t) = w_info (srv_wire s) @ (if informational c then [(c, f (w_header (srv_wire s)))] else [])"
    and "w_body (srv_wire t) = (if body_allowed (final_status c) then b else [])" "\<not> sv_crashed t"
proof -
  have "\<not> sv_crashed (on_rec (rec_write_header c) (on_rec (rec_edit f) s))"
  proof (cases "informational c")
    case False
    then have "srv_ready (on_rec (rec_write_header c) (on_rec (rec_edit f) s))"
      using assms(1,2) by (intro srv_rw.ready_announce srv_rw.ready_edit) (simp_all add: unsent_def)
    then show ?thesis by (simp add: srv_ready_def del: on_rec_simps)
  qed (rule respond_informational(1) [where f = f, OF assms(1) _ assms(3)])
  then show "andthen (on_rec (rec_write_header c) (on_rec (rec_edit f) s)) (on_rec (rec_write b)) = t"
    unfolding t_def andthen_def by (rule if_not_P)
  note info = respond_informational(2-7) [where f = f and c = c and b = b, OF assms(1) _ assms(3)]
  note plain = respond [where f = f and b = b, OF assms(1,2) _ disjI1 [OF assms(3)]] respond_keeps [OF assms(1,2), of b f]
  show "w_status (srv_wire t) = final_status c" "w_sent (srv_wire t) = f (w_header (srv_wire s))"
    "w_header (srv_wire t) = f (w_header (srv_wire s))"
    "w_info (srv_wire t) = w_info (srv_wire s) @ (if informational c then [(c, f (w_header (srv_wire s)))] else [])"
    "w_body (srv_wire t) = (if body_allowed (final_status c) then b else [])" "\<not> sv_crashed t"
    unfolding t_def final_status_def using info plain
    by (cases "informational c"; simp add: body_allowed_def del: on_rec_simps)+
qed

lemma rec_edit_id: "rec_edit (\<lambda>h. h) r = r"
  by (simp add: rec_edit_def rec_header_def)

lemma no_panic: "unsent s \<Longrightarrow> \<not> w_panic (rec_wire (sv_rec s)) \<and> \<not> sv_crashed s"
  by (simp add: unsent_def srv_ready_def srv_wire_def)

lemma set_no_header: "unsent s \<Longrightarrow> on_rec (rec_edit (\<lambda>h. h)) s = s"
  using no_panic [of s] by (cases s) (simp add: on_rec_def rec_edit_id)

lemma edit_edit: "on_rec (rec_edit g) (on_rec (rec_edit f) s) = on_rec (rec_edit (\<lambda>h. g (f h))) s"
  by (auto simp: on_rec_def rec_edit_def rec_header_def Let_def)

lemma unsent_edit:
  "unsent s \<Longrightarrow> h_get (f (w_header (srv_wire s))) ''Content-Length'' = [] \<Longrightarrow> unsent (on_rec (rec_edit f) s)"
  using srv_rw.ready_edit [of s f] by (simp add: unsent_def srv_rw.wire_edit del: on_rec_simps)

lemma canon_response [simp]:
  "canon ''Content-Type'' = ''Content-Type''" "canon ''Content-Length'' = ''Content-Length''"
  "canon ''Vary'' = ''Vary''" "canon ''Access-Control-Allow-Origin'' = ''Access-Control-Allow-Origin''"
  "canon ''Access-Control-Allow-Credentials'' = ''Access-Control-Allow-Credentials''"
  "canon ''Access-Control-Allow-Methods'' = ''Access-Control-Allow-Methods''"
  "canon ''Access-Control-Allow-Headers'' = ''Access-Control-Allow-Headers''"
  by code_simp+

section \<open>Response shaping\<close>

definition status_of :: "request \<Rightarrow> int" where
  "status_of r =
     (case atoi (shape_value r header_status_code) of
        Some code \<Rightarrow> if 100 \<le> code \<and> code \<le> 599 then code else 200
      | None \<Rightarrow> 200)"

definition wait_of :: "request \<Rightarrow> int" where
  "wait_of r =
     (case atoi (shape_value r header_delay_ms) of
        Some ms \<Rightarrow> if ms < 0 then 0 else min ms 120000
      | None \<Rightarrow> 0)"

definition shaped_body :: "srv_env \<Rightarrow> handler \<Rightarrow> request \<Rightarrow> bytes \<Rightarrow> echo_response \<Rightarrow> bytes \<times> bool" where
  "shaped_body env h r body ec =
     (if \<not> c_echo_back_to_client (h_cfg h) then ([], False)
      else if c_override_response_body_file_path (h_cfg h) \<noteq> [] then
        (case se_read_file env (c_override_response_body_file_path (h_cfg h)) of
           Inr b \<Rightarrow> (b, False) | Inl _ \<Rightarrow> (render_response ec, True))
      else if q_get (parse_query (u_raw_query (r_url r))) query_body_only = ''true'' then (body, False)
      else (render_response ec, True))"

lemma shaped_status_parts:
  "fst (shaped_status r s) = status_of r" "sv_rec (snd (shaped_status r s)) = sv_rec s"
  "sv_printer (snd (shaped_status r s)) = sv_printer s"
  "unsent (snd (shaped_status r s)) = unsent s" "sv_crashed (snd (shaped_status r s)) = sv_crashed s"
  by (simp_all add: shaped_status_def status_of_def Let_def split: option.split)

lemma wait_bound: "0 \<le> wait_of r \<and> wait_of r \<le> 120000"
  by (auto simp: wait_of_def split: option.split)

lemma delay_parts:
  "fst (delay env r s) = (wait_of r = 0 \<or> \<not> se_client_gone env (wait_of r))"
  "sv_printer (snd (delay env r s)) = sv_printer s" "sv_rec (snd (delay env r s)) = sv_rec s" "unsent (snd (delay env r s)) = unsent s"
  "sv_crashed (snd (delay env r s)) = sv_crashed s"
  by (auto simp: delay_def delay_of_def wait_of_def max_delay_ms_def Let_def split: option.split)

lemma echo_body_parts:
  "fst (echo_body env h r body ec s) = fst (shaped_body env h r body ec)"
  "fst (snd (echo_body env h r body ec s)) = snd (shaped_body env h r body ec)"
  "sv_rec (snd (snd (echo_body env h r body ec s))) = sv_rec s"
  "sv_printer (snd (snd (echo_body env h r body ec s))) = sv_printer s"
  "unsent (snd (snd (echo_body env h r body ec s))) = unsent s"
  by (auto simp: echo_body_def shaped_body_def Let_def split: sum.split)

definition shaped_content_type :: "srv_env \<Rightarrow> handler \<Rightarrow> request \<Rightarrow> bytes \<Rightarrow> echo_response \<Rightarrow> string" where
  "shaped_content_type env h r body ec =
     (if shape_value r header_content_type = [] \<and> snd (shaped_body env h r body ec)
      then ''application/json; charset=utf-8'' else shape_value r header_content_type)"

section \<open>CORS\<close>

definition cors_allowed :: "handler \<Rightarrow> request \<Rightarrow> string" where
  "cors_allowed h r =
     (if h_cors_all h then ''*''
      else if h_get (r_header r) ''Origin'' \<in> set (h_cors_origins h) then h_get (r_header r) ''Origin'' else [])"

definition cors_headers :: "handler \<Rightarrow> request \<Rightarrow> header \<Rightarrow> header" where
  "cors_headers h r hm =
     (let a = cors_allowed h r;
          hd1 = (if \<not> h_cors_all h \<and> a \<noteq> [] then h_add hm ''Vary'' ''Origin'' else hm);
          hd2 = (if a \<noteq> [] then h_set hd1 ''Access-Control-Allow-Origin'' a else hd1)
      in (if a \<noteq> [] \<and> c_cors_allow_credentials (h_cfg h)
          then h_set hd2 ''Access-Control-Allow-Credentials'' ''true'' else hd2))"

definition preflight_headers :: "handler \<Rightarrow> request \<Rightarrow> header \<Rightarrow> header" where
  "preflight_headers h r hm =
     (let cfg = h_cfg h;
          hd1 = h_set hm ''Access-Control-Allow-Methods''
                  (if c_cors_allow_methods cfg = [] then ''GET, POST, PUT, PATCH, DELETE, HEAD, OPTIONS''
                   else c_cors_allow_methods cfg);
          names = (if c_cors_allow_headers cfg = []
                   then h_get (r_header r) ''Access-Control-Request-Headers'' else c_cors_allow_headers cfg)
      in (if names \<noteq> [] then h_set hd1 ''Access-Control-Allow-Headers'' names else hd1))"

definition cors_enabled :: "handler \<Rightarrow> bool" where
  "cors_enabled h \<longleftrightarrow> h_cors_all h \<or> h_cors_origins h \<noteq> []"

definition is_preflight :: "handler \<Rightarrow> request \<Rightarrow> bool" where
  "is_preflight h r \<longleftrightarrow> cors_enabled h \<and> r_method r = ''OPTIONS''
     \<and> h_get (r_header r) ''Access-Control-Request-Method'' \<noteq> []"

text \<open>The first half of \<open>apply_cors\<close> is one edit of the headers.\<close>

lemma cors_edit:
  assumes "unsent s"
  shows "(case (if h_cors_all h then (''*'', s)
             else if h_get (r_header r) ''Origin'' \<noteq> [] \<and> h_get (r_header r) ''Origin'' \<in> set (h_cors_origins h)
             then (h_get (r_header r) ''Origin'', add_header ''Vary'' ''Origin'' s)
             else ([], s)) of (allowed, s1) \<Rightarrow>
           if allowed \<noteq> [] then
             (let s' = set_header ''Access-Control-Allow-Origin'' allowed s1 in
              if c_cors_allow_credentials (h_cfg h)
              then set_header ''Access-Control-Allow-Credentials'' ''true'' s' else s')
           else s1)
       = on_rec (rec_edit (cors_headers h r)) s"
  using assms
  by (cases "h_cors_all h"; cases "h_get (r_header r) ''Origin'' = []";
      cases "h_get (r_header r) ''Origin'' \<in> set (h_cors_origins h)";
      cases "c_cors_allow_credentials (h_cfg h)")
    (simp_all add: cors_headers_def [abs_def] cors_allowed_def set_header_def add_header_def edit_edit set_no_header)

lemma preflight_edit:
  "(if (if c_cors_allow_headers (h_cfg h) = []
        then h_get (r_header r) ''Access-Control-Request-Headers'' else c_cors_allow_headers (h_cfg h)) \<noteq> []
    then set_header ''Access-Control-Allow-Headers''
           (if c_cors_allow_headers (h_cfg h) = []
            then h_get (r_header r) ''Access-Control-Request-Headers'' else c_cors_allow_headers (h_cfg h))
           (set_header ''Access-Control-Allow-Methods''
             (if c_cors_allow_methods (h_cfg h) = [] then ''GET, POST, PUT, PATCH, DELETE, HEAD, OPTIONS''
              else c_cors_allow_methods (h_cfg h)) s)
    else set_header ''Access-Control-Allow-Methods''
           (if c_cors_allow_methods (h_cfg h) = [] then ''GET, POST, PUT, PATCH, DELETE, HEAD, OPTIONS''
            else c_cors_allow_methods (h_cfg h)) s)
   = on_rec (rec_edit (preflight_headers h r)) s"
  by (cases "c_cors_allow_headers (h_cfg h) = []";
      cases "h_get (r_header r) ''Access-Control-Request-Headers'' = []")
    (simp_all add: preflight_headers_def [abs_def] set_header_def edit_edit Let_def)

lemma apply_cors_eq:
  assumes "unsent s"
  shows "apply_cors h r s =
     (let s2 = on_rec (rec_edit (cors_headers h r)) s in
      if r_method r = ''OPTIONS'' \<and> h_get (r_header r) ''Access-Control-Request-Method'' \<noteq> [] then
        (True, on_rec (rec_write_header 204)
          (log_msg Debug ''answered CORS preflight''
             [(''origin'', FStr (h_get (r_header r) ''Origin'')),
              (''requestMethod'', FStr (h_get (r_header r) ''Access-Control-Request-Method''))]
             (on_rec (rec_edit (preflight_headers h r)) s2)))
      else (False, s2))"
proof -
  let ?p = "if h_cors_all h then (''*'', s)
             else if h_get (r_header r) ''Origin'' \<noteq> [] \<and> h_get (r_header r) ''Origin'' \<in> set (h_cors_origins h)
             then (h_get (r_header r) ''Origin'', add_header ''Vary'' ''Origin'' s)
             else ([], s)"
  obtain a s1 where p: "?p = (a, s1)" by (cases ?p)
  show ?thesis
    unfolding cors_edit [OF assms, symmetric] p apply_cors_def Let_def prod.case preflight_edit by (rule refl)
qed

lemma cors_headers_length [hdr]: "h_get (cors_headers h r hm) ''Content-Length'' = h_get hm ''Content-Length''"
  by (simp add: cors_headers_def Let_def hdr)

lemma cors_headers_off: "\<not> cors_enabled h \<Longrightarrow> cors_headers h r = (\<lambda>hm. hm)"
  by (auto simp: cors_headers_def cors_allowed_def cors_enabled_def Let_def)

lemma before_echo:
  assumes "unsent s" "\<not> is_preflight h r"
  shows "(if h_cors_all h \<or> h_cors_origins h \<noteq> [] then apply_cors h r s else (False, s))
      = (False, on_rec (rec_edit (cors_headers h r)) s)"
  using assms set_no_header [OF assms(1)]
  by (auto simp: apply_cors_eq is_preflight_def cors_enabled_def cors_headers_off Let_def)

section \<open>The whole echo\<close>

lemma handle_echo_stay:
  assumes "unsent s" "\<not> is_preflight h r" "wait_of r = 0 \<or> \<not> se_client_gone env (wait_of r)"
  shows "\<exists>s3. unsent s3 \<and> sv_rec s3 = rec_edit (cors_headers h r) (sv_rec s) \<and>
    w_header (srv_wire s3) = cors_headers h r (w_header (srv_wire s)) \<and> sv_printer s3 = sv_printer s \<and>
    handle_echo env h r body ec s =
     andthen (on_rec (rec_write_header (status_of r))
        (on_rec (rec_edit (\<lambda>hm. if shaped_content_type env h r body ec \<noteq> []
            then h_set hm ''Content-Type'' (shaped_content_type env h r body ec) else hm)) s3))
       (on_rec (rec_write (fst (shaped_body env h r body ec))))"
proof -
  define s0 where "s0 = on_rec (rec_edit (cors_headers h r)) s"
  define s1 where "s1 = snd (shaped_status r s0)"
  define s2 where "s2 = snd (delay env r s1)"
  define s3 where "s3 = snd (snd (echo_body env h r body ec s2))"
  have st: "shaped_status r s0 = (status_of r, s1)"
    using shaped_status_parts(1) [of r s0] by (simp add: s1_def prod_eq_iff)
  have dl: "delay env r s1 = (True, s2)"
    using delay_parts(1) [of env r s1] assms(3) by (simp add: s2_def prod_eq_iff)
  have bd: "echo_body env h r body ec s2 = (fst (shaped_body env h r body ec), snd (shaped_body env h r body ec), s3)"
    using echo_body_parts(1,2) [of env h r body ec s2] by (simp add: s3_def prod_eq_iff)
  have "unsent s0"
    unfolding s0_def using assms(1) by (intro unsent_edit) (simp_all add: hdr unsent_def)
  then have un: "unsent s3"
    by (simp add: s3_def s2_def s1_def echo_body_parts delay_parts shaped_status_parts)
  have rec: "sv_rec s3 = sv_rec s0" "sv_printer s3 = sv_printer s0"
    by (simp_all add: s3_def s2_def s1_def echo_body_parts delay_parts shaped_status_parts)
  then have hm: "w_header (srv_wire s3) = cors_headers h r (w_header (srv_wire s))"
    using srv_rw.wire_edit [of "cors_headers h r" s] by (simp add: srv_wire_def s0_def del: on_rec_simps)
  have "handle_echo env h r body ec s =
     andthen (on_rec (rec_write_header (status_of r))
        (on_rec (rec_edit (\<lambda>hm. if shaped_content_type env h r body ec \<noteq> []
            then h_set hm ''Content-Type'' (shaped_content_type env h r body ec) else hm)) s3))
       (on_rec (rec_write (fst (shaped_body env h r body ec))))"
    unfolding handle_echo_def before_echo [OF assms(1,2)]
    by (auto simp: s0_def [symmetric] st dl bd Let_def shaped_content_type_def set_header_def set_no_header [OF un])
  with un hm rec show ?thesis by (intro exI [of _ s3]) (simp add: s0_def)
qed

text \<open>
  The echo on the wire: unless it is a CORS preflight, and with a client that stays, the response has the
  requested status when that is a number from 100 to 599 and 200 otherwise, the CORS headers with the
  requested content type or that of the echo, and as body nothing, the override file, the request
  body or the rendered echo, in this precedence. (The status is not an informational one, which
  Go does not send as the final status.)
\<close>
theorem echo_response_spec:
  assumes "unsent s" "\<not> is_preflight h r" "wait_of r = 0 \<or> \<not> se_client_gone env (wait_of r)"
    and "\<not> informational (status_of r)"
  shows "w_status (srv_wire (handle_echo env h r body ec s)) = status_of r \<and>
    w_sent (srv_wire (handle_echo env h r body ec s)) =
      (let hm = cors_headers h r (w_header (srv_wire s)); ct = shaped_content_type env h r body ec
       in if ct = [] then hm else h_set hm ''Content-Type'' ct) \<and>
    w_body (srv_wire (handle_echo env h r body ec s)) =
      (if body_allowed (status_of r) then fst (shaped_body env h r body ec) else [])"
proof -
  let ?ct = "shaped_content_type env h r body ec" and ?b = "fst (shaped_body env h r body ec)"
  let ?f = "\<lambda>hm. if ?ct \<noteq> [] then h_set hm ''Content-Type'' ?ct else hm"
  obtain s3 where s3: "unsent s3" "w_header (srv_wire s3) = cors_headers h r (w_header (srv_wire s))"
    "handle_echo env h r body ec s =
     andthen (on_rec (rec_write_header (status_of r)) (on_rec (rec_edit ?f) s3)) (on_rec (rec_write ?b))"
    using handle_echo_stay [OF assms(1-3)] by blast
  have valid: "valid_code (status_of r)"
    by (auto simp: valid_code_def status_of_def split: option.split)
  have "h_get (?f (w_header (srv_wire s3))) ''Content-Length'' = []"
    using s3(1) by (simp add: hdr unsent_def)
  then show ?thesis
    using respond [OF s3(1) valid assms(4), of ?f ?b]
    by (simp add: s3(2,3) Let_def del: on_rec_simps)
qed

text \<open>
  C34: A client that goes away during the shaped delay: nothing is sent (the wire is left with at most the
  edited headers), logs and metrics have status 499, and the wait was between 1 millisecond and the
  two minutes it is capped at.
\<close>
theorem delay_abort:
  assumes "unsent s" "\<not> is_preflight h r" "wait_of r \<noteq> 0" "se_client_gone env (wait_of r)"
  shows "srv_wire (handle_echo env h r body ec s) =
      (srv_wire s)\<lparr>w_header := cors_headers h r (w_header (srv_wire s))\<rparr> \<and>
    rec_get_status (sv_rec (handle_echo env h r body ec s)) = 499 \<and>
    1 \<le> wait_of r \<and> wait_of r \<le> 120000"
proof -
  define s0 where "s0 = on_rec (rec_edit (cors_headers h r)) s"
  define s1 where "s1 = snd (shaped_status r s0)"
  define s2 where "s2 = snd (delay env r s1)"
  have st: "shaped_status r s0 = (status_of r, s1)"
    using shaped_status_parts(1) [of r s0] by (simp add: s1_def prod_eq_iff)
  have dl: "delay env r s1 = (False, s2)"
    using delay_parts(1) [of env r s1] assms(3,4) by (simp add: s2_def prod_eq_iff)
  have rec: "sv_rec s2 = sv_rec s0"
    by (simp add: s2_def s1_def delay_parts shaped_status_parts)
  have "\<not> rec_wrote (sv_rec s0)"
    using assms(1) by (simp add: s0_def unsent_def srv_ready_def srv_wire_def rec_ready_def rec_edit_def)
  moreover have "handle_echo env h r body ec s =
     on_rec (rec_abort status_client_closed_request)
       (log_msg Debug ''client disconnected during shaped delay'' [(''path'', FStr (u_path (r_url r)))] s2)"
    unfolding handle_echo_def before_echo [OF assms(1,2)]
    by (simp add: s0_def [symmetric] st dl Let_def)
  moreover have "srv_wire s0 = (srv_wire s)\<lparr>w_header := cors_headers h r (w_header (srv_wire s))\<rparr>"
    unfolding s0_def by (rule srv_rw.wire_edit)
  ultimately show ?thesis
    using wait_bound [of r] assms(3) rec
    by (simp add: rec_abort_def rec_get_status_def status_client_closed_request_def srv_wire_def)
qed

lemma preflight_headers_length [hdr]:
  "h_get (preflight_headers h r hm) ''Content-Length'' = h_get hm ''Content-Length''"
  by (simp add: preflight_headers_def Let_def hdr)

text \<open>
  C32: A preflight is answered before any shaping: whatever status, content type or delay the request asks for and
  whatever the echo would be, the response is a 204 without a body, and its headers are the CORS
  headers with the configured methods and header names, or the default methods and the requested names.
\<close>
theorem preflight_answered:
  assumes "unsent s" "is_preflight h r"
  shows "w_status (srv_wire (handle_echo env h r body ec s)) = 204 \<and>
    w_body (srv_wire (handle_echo env h r body ec s)) = [] \<and>
    w_sent (srv_wire (handle_echo env h r body ec s)) =
      preflight_headers h r (cors_headers h r (w_header (srv_wire s)))"
proof -
  obtain fs where eq: "handle_echo env h r body ec s = on_rec (rec_write_header 204)
     (log_msg Debug ''answered CORS preflight'' fs
       (on_rec (rec_edit (\<lambda>hm. preflight_headers h r (cors_headers h r hm))) s))"
    using assms by (auto simp: handle_echo_def apply_cors_eq is_preflight_def cors_enabled_def Let_def edit_edit)
  have len: "h_get (preflight_headers h r (cors_headers h r (w_header (srv_wire s)))) ''Content-Length'' = []"
    using assms(1) by (simp add: hdr unsent_def)
  have rw: "\<not> rec_wrote (sv_rec s)" "\<not> w_hijacked (rec_wire (sv_rec s))" "w_body (rec_wire (sv_rec s)) = []"
    "\<not> w_wrote (rec_wire (sv_rec s))"
    using assms(1) by (auto simp: unsent_def srv_ready_def srv_wire_def rec_ready_def)
  show ?thesis
    using rw len
    by (simp add: eq srv_wire_def rec_write_header_def rec_edit_def rec_header_def wire_write_header_def
        valid_code_def informational_def Let_def)
qed

lemma cors_origin_lookup [hdr]:
  "lookup (cors_headers h r hm) ''Access-Control-Allow-Origin'' =
     (if cors_allowed h r \<noteq> [] then Some [cors_allowed h r] else lookup hm ''Access-Control-Allow-Origin'')"
  by (simp add: cors_headers_def Let_def hdr)

text \<open>
  C33: The origins allowed: the handler sends \<open>Access-Control-Allow-Origin\<close> exactly
  when the configuration allows every origin, with a star, or lists the request's own origin, with that
  origin; it never names another one. This holds for preflights and for plain requests.
\<close>
theorem cors_origin_exact:
  assumes "unsent s" "w_header (srv_wire s) = []"
  shows "lookup (w_header (srv_wire (snd (apply_cors (new_handler cfg m vp fwd pem) r s))))
      ''Access-Control-Allow-Origin'' =
    (if c_cors_allow_origin cfg = ''*'' then Some [''*'']
     else if h_get (r_header r) ''Origin'' \<noteq> [] \<and>
        (\<exists>part \<in> set (split_on CHR '','' (c_cors_allow_origin cfg)).
            trim_space part = h_get (r_header r) ''Origin'')
     then Some [h_get (r_header r) ''Origin''] else None)"
proof -
  let ?h = "new_handler cfg m vp fwd pem"
  have rw: "\<not> rec_wrote (sv_rec s)" "\<not> w_hijacked (rec_wire (sv_rec s))" "\<not> w_wrote (rec_wire (sv_rec s))"
    "w_header (rec_wire (sv_rec s)) = []"
    using assms by (auto simp: unsent_def srv_ready_def srv_wire_def rec_ready_def)
  have hm: "w_header (srv_wire (snd (apply_cors ?h r s))) =
     (if r_method r = ''OPTIONS'' \<and> h_get (r_header r) ''Access-Control-Request-Method'' \<noteq> []
      then preflight_headers ?h r (cors_headers ?h r []) else cors_headers ?h r [])"
  proof -
    have "h_get (preflight_headers ?h r (cors_headers ?h r [])) ''Content-Length'' = []"
      by (simp add: hdr) (simp add: h_get_def h_values_def)
    then show ?thesis
      using rw by (simp add: apply_cors_eq [OF assms(1)] srv_wire_def rec_write_header_def rec_edit_def
          rec_header_def wire_write_header_def valid_code_def informational_def Let_def)
  qed
  have al: "cors_allowed ?h r = (if c_cors_allow_origin cfg = ''*'' then ''*''
     else if h_get (r_header r) ''Origin'' \<noteq> [] \<and>
        (\<exists>part \<in> set (split_on CHR '','' (c_cors_allow_origin cfg)).
            trim_space part = h_get (r_header r) ''Origin'')
     then h_get (r_header r) ''Origin'' else [])"
    by (fastforce simp: cors_allowed_def new_handler_def intro: rev_image_eqI)
  have pre: "lookup (preflight_headers ?h r hm') ''Access-Control-Allow-Origin'' = lookup hm' ''Access-Control-Allow-Origin''"
    for hm' by (simp add: preflight_headers_def Let_def hdr)
  show ?thesis
    unfolding hm by (auto simp: pre hdr al)
qed

section \<open>The relay\<close>

lemma crossing_kept:
  assumes "first_value (crossing h k) \<noteq> []"
  shows "crossing h k = lookup h k"
proof -
  have "crossing h k = None \<or> crossing h k = lookup h k"
    by (simp only: crossing_def) (simp split: if_split)
  with assms show ?thesis by (auto simp: first_value_def)
qed

lemma forward_unsent: "unsent s \<Longrightarrow> w_header (srv_wire s) = [] \<Longrightarrow>
    unsent (log_msg l1 m1 f1 (log_msg l2 m2 f2 s)) \<and> w_header (srv_wire (log_msg l1 m1 f1 (log_msg l2 m2 f2 s))) = []"
  by (simp add: srv_wire_def)

text \<open>The same over the result of the exchange.\<close>

lemma forward_relayed:
  assumes "unsent s" "w_header (srv_wire s) = []"
    and "res = forward_do (se_fwd env) fwd r body (peer_ip (r_remote_addr r)) (scheme_of is_tls)"
    and "fr_err res = None" "wf_map (fr_header res)"
    and "valid_code (fr_code res)" "\<not> informational (fr_code res)"
    and "h_get (fr_header res) ''Content-Length'' = [] \<or>
      (\<exists>n. declared_length (fr_header res) = Some n \<and> int (length (fr_body res)) \<le> n)"
    and "handle_forward env h fwd r body ex is_tls s = (fl, ex', s')"
  shows "w_status (srv_wire s') = fr_code res \<and> lookup (w_sent (srv_wire s')) = lookup (fr_header res) \<and>
    w_body (srv_wire s') = (if body_allowed (fr_code res) then fr_body res else []) \<and> \<not> sv_crashed s' \<and>
    fl_status fl = fr_code res \<and> fl_error fl = [] \<and>
    (fl_body fl, fl_body_truncated fl) = cap_body (fr_body res) (c_max_body_size (h_cfg h))"
proof -
  let ?f = "\<lambda>hm. store_all hm (fr_header res)"
  have look: "lookup (?f []) = lookup (fr_header res)"
    by (rule ext) (simp add: store_all_lookup [OF assms(5)] split: option.split)
  then have vals: "h_get (?f []) k = h_get (fr_header res) k" "declared_length (?f []) = declared_length (fr_header res)" for k
    by (simp_all add: h_get_def h_values_def declared_length_def)
  obtain f1 f2 where s': "s' = andthen (on_rec (rec_write_header (fr_code res)) (on_rec (rec_edit ?f)
        (log_msg Debug ''relaying remote response'' f1 (log_msg Debug ''forwarding request'' f2 s))))
      (on_rec (rec_write (fr_body res)))"
    and fl: "fl_status fl = fr_code res" "fl_error fl = []"
      "(fl_body fl, fl_body_truncated fl) = cap_body (fr_body res) (c_max_body_size (h_cfg h))"
    using assms(9)
    by (auto simp: handle_forward_def assms(3) [symmetric] assms(4) Let_def simp del: on_rec_simps log_msg_simps
        split: prod.splits)
  define s1 where "s1 = log_msg Debug ''relaying remote response'' f1 (log_msg Debug ''forwarding request'' f2 s)"
  have s1: "unsent s1" "w_header (srv_wire s1) = []"
    unfolding s1_def using forward_unsent [OF assms(1,2)] by blast+
  note r = respond [OF s1(1) assms(6,7), of ?f "fr_body res"]
  have crash: "\<not> sv_crashed (on_rec (rec_write_header (fr_code res)) (on_rec (rec_edit ?f) s1))"
    using srv_rw.ready_announce [OF srv_rw.ready_edit, of s1 "fr_code res" ?f] s1(1) assms(6,7)
    by (simp add: unsent_def srv_ready_def del: on_rec_simps)
  show ?thesis
    using r assms(8) crash by (simp add: s' s1_def [symmetric] s1(2) fl vals look andthen_def del: on_rec_simps)
qed

text \<open>
  C11: A relayed exchange: the remote gets the client's method and body at the target's URL, with the headers that may cross
  and the forwarding headers; the client gets the remote's status, whole body and exactly the headers that may
  cross, and the log object has the status and the body cut at the configured size. The conditions are the client library's: the
  headers are a map, the status is a final one, and the body is no longer than a declared length.
\<close>
theorem forward_relays:
  assumes "unsent s" "w_header (srv_wire s) = []"
    and "handle_forward env h fwd r body ex is_tls s = (fl, ex', s')"
    and "fe_new_request (se_fwd env) (r_method r) (url_string (target_url fwd (r_url r))) = Inr u"
    and "fe_do (se_fwd env) (f_client fwd)
      \<lparr>o_method = (if r_method r = [] then ''GET'' else r_method r), o_url = u,
       o_host = (if f_preserve_host fwd then r_host r else u_host u),
       o_header = sent_header r (peer_ip (r_remote_addr r)) (if is_tls then ''https'' else ''http''), o_body = body\<rparr> = Inr resp"
    and "up_body resp = Inr b" "wf_map (up_header resp)" "valid_code (up_code resp)" "\<not> informational (up_code resp)"
    and "first_value (crossing (up_header resp) ''Content-Length'') = [] \<or>
      (\<exists>n. declared_length (up_header resp) = Some n \<and> int (length b) \<le> n)"
  shows "w_status (srv_wire s') = up_code resp \<and> lookup (w_sent (srv_wire s')) = crossing (up_header resp) \<and>
    w_body (srv_wire s') = (if body_allowed (up_code resp) then b else []) \<and> \<not> sv_crashed s' \<and>
    fl_status fl = up_code resp \<and> fl_error fl = [] \<and>
    fl_body fl = take (nat (c_max_body_size (h_cfg h))) b \<and>
    fl_body_truncated fl = (c_max_body_size (h_cfg h) < int (length b))"
proof -
  define res where "res = forward_do (se_fwd env) fwd r body (peer_ip (r_remote_addr r)) (scheme_of is_tls)"
  have scheme: "scheme_of is_tls = (if is_tls then ''https'' else ''http'')"
    by (simp add: scheme_of_def)
  have res: "fr_err res = None" "fr_code res = up_code resp" "fr_header res = relay_header (up_header resp)" "fr_body res = b"
    using assms(4-6) by (simp_all add: res_def forward_do_def empty_result_def scheme Let_def)
  have wf: "wf_map (fr_header res)"
    using wf_map_relay [OF assms(7)] by (simp add: res(3))
  have look: "lookup (fr_header res) = crossing (up_header resp)"
    by (simp add: res(3) relay_crossing)
  have get: "h_get (fr_header res) ''Content-Length'' = first_value (crossing (up_header resp) ''Content-Length'')"
    by (simp add: h_get_lookup look)
  have len: "h_get (fr_header res) ''Content-Length'' = [] \<or>
      (\<exists>n. declared_length (fr_header res) = Some n \<and> int (length (fr_body res)) \<le> n)"
  proof (cases "h_get (fr_header res) ''Content-Length'' = []")
    case False
    then have "crossing (up_header resp) ''Content-Length'' = lookup (up_header resp) ''Content-Length''"
      unfolding get by (rule crossing_kept)
    then have "declared_length (fr_header res) = declared_length (up_header resp)"
      by (simp add: declared_length_def h_get_lookup look)
    with False assms(10) show ?thesis by (simp add: get res(4))
  qed simp
  have ok: "valid_code (fr_code res)" "\<not> informational (fr_code res)"
    using assms(8,9) by (simp_all add: res(2))
  have log: "cap_body b m = (take (nat m) b, m < int (length b))" for m
    by (auto simp: cap_body_def)
  show ?thesis
    using forward_relayed [OF assms(1,2) res_def res(1) wf ok len assms(3)] by (simp add: res(2,4) look log)
qed

text \<open>
  A failed exchange: the client gets a 502 with a JSON object of the error and the target, and
  the log object has the error and no status.
\<close>
theorem forward_failure:
  assumes "unsent s" "w_header (srv_wire s) = []"
    and "res = forward_do (se_fwd env) fwd r body (peer_ip (r_remote_addr r)) (scheme_of is_tls)"
    and "fr_err res = Some err"
    and "handle_forward env h fwd r body ex is_tls s = (fl, ex', s')"
  shows "w_status (srv_wire s') = 502 \<and>
    w_sent (srv_wire s') = [(''Content-Type'', [''application/json; charset=utf-8''])] \<and>
    w_body (srv_wire s') = json_compact (JObj [(''error'', JStr err), (''target'', JStr (fr_url res))]) @ [CHR 0x0A] \<and>
    fl_error fl = err \<and> fl_status fl = 0 \<and> fl_url fl = fr_url res"
proof -
  let ?f = "\<lambda>hm. h_set hm ''Content-Type'' ''application/json; charset=utf-8''"
  let ?b = "json_compact (JObj [(''error'', JStr err), (''target'', JStr (fr_url res))]) @ [CHR 0x0A]"
  obtain f1 f2 where s': "s' = andthen (on_rec (rec_write_header 502) (on_rec (rec_edit ?f)
        (log_msg Error ''forward failed'' f1 (log_msg Debug ''forwarding request'' f2 s))))
      (on_rec (rec_write ?b))"
    and fl: "fl_error fl = err" "fl_status fl = 0" "fl_url fl = fr_url res"
    using assms(5)
    by (auto simp: handle_forward_def assms(3) [symmetric] assms(4) set_header_def Let_def
        simp del: on_rec_simps log_msg_simps)
  define s1 where "s1 = log_msg Error ''forward failed'' f1 (log_msg Debug ''forwarding request'' f2 s)"
  have s1: "unsent s1" "w_header (srv_wire s1) = []"
    unfolding s1_def using forward_unsent [OF assms(1,2)] by blast+
  have "h_get (?f (w_header (srv_wire s1))) ''Content-Length'' = []"
    by (simp add: hdr s1(2)) (simp add: h_get_def h_values_def)
  then show ?thesis
    using respond [OF s1(1), of 502 ?f ?b]
    by (simp add: s' s1_def [symmetric] s1(2) fl valid_code_def informational_def body_allowed_def h_set_def del: on_rec_simps)
qed

section \<open>The properties at work\<close>

text \<open>A handler with three settings, a request with some headers, and surroundings for them.\<close>

definition sample_handler :: "string \<Rightarrow> handler" where
  "sample_handler origins = new_handler (default_config\<lparr>c_cors_allow_origin := origins\<rparr>) None False None None"

definition sample_request :: "string \<Rightarrow> string \<Rightarrow> header \<Rightarrow> request" where
  "sample_request meth query hm =
     plain_request\<lparr>r_method := meth, r_url := (plain_url ''/'' [])\<lparr>u_raw_query := query\<rparr>, r_header := hm\<rparr>"

definition sample_env :: "bool \<Rightarrow> string + upstream \<Rightarrow> srv_env" where
  "sample_env gone up =
     \<lparr>se_echo = plain_env,
      se_fwd = \<lparr>fe_new_request = (\<lambda>_ _. Inr (plain_url ''/'' [])), fe_do = (\<lambda>_ _. up)\<rparr>,
      se_contains_token = (\<lambda>vs t. t \<in> set vs), se_read_file = (\<lambda>_. Inl ''no file''), se_client_gone = (\<lambda>_. gone),
      se_start = 0, se_dump_start = 0, se_responded = 1000000, se_finished = 2000000, se_metrics_page = (\<lambda>_. [])\<rparr>"

lemma sample_handler_simps [simp]:
  "h_cfg (sample_handler origins) = default_config\<lparr>c_cors_allow_origin := origins\<rparr>"
  "h_cors_all (sample_handler origins) = (origins = ''*'')"
  "h_cors_origins (sample_handler origins) = (if origins = ''*'' then []
     else filter (\<lambda>p. p \<noteq> []) (map trim_space (split_on CHR '','' origins)))"
  by (simp_all add: sample_handler_def new_handler_def)

lemma sample_request_simps [simp]:
  "r_method (sample_request m q hm) = m" "r_header (sample_request m q hm) = hm"
  "u_raw_query (r_url (sample_request m q hm)) = q"
  by (simp_all add: sample_request_def)

lemma sample_env_simps [simp]: "se_client_gone (sample_env gone up) = (\<lambda>_. gone)" "se_fwd (sample_env gone up)
    = \<lparr>fe_new_request = (\<lambda>_ _. Inr (plain_url ''/'' [])), fe_do = (\<lambda>_ _. up)\<rparr>"
  by (simp_all add: sample_env_def)

abbreviation sample_echo :: echo_response where
  "sample_echo \<equiv> capture plain_env plain_request [] False False plain_options"

abbreviation shaped_request :: request where
  "shaped_request \<equiv> sample_request ''GET'' ''response_body_only=true''
     [(''X-Set-Response-Status-Code'', [''418'']), (''X-Set-Response-Delay-Ms'', [''5''])]"

lemma shaped_request_status: "status_of shaped_request = 418"
  by code_simp

lemma shaped_request_wait: "wait_of shaped_request = 5"
  by code_simp

theorem echo_response_spec_witness:
  "w_status (srv_wire (handle_echo (sample_env False (Inl [])) (sample_handler []) shaped_request ''hi'' sample_echo (fresh_srv 0 None))) = 418"
proof -
  have "\<not> is_preflight (sample_handler []) shaped_request"
    by (simp add: is_preflight_def)
  moreover have "\<not> informational (status_of shaped_request)"
    by (simp add: shaped_request_status informational_def)
  ultimately show ?thesis
    using echo_response_spec [of "fresh_srv 0 None" "sample_handler []" shaped_request "sample_env False (Inl [])" "''hi''" sample_echo]
    by (simp add: shaped_request_status)
qed

theorem delay_abort_witness:
  "rec_get_status (sv_rec (handle_echo (sample_env True (Inl [])) (sample_handler []) shaped_request ''hi'' sample_echo (fresh_srv 0 None))) = 499"
proof -
  have "\<not> is_preflight (sample_handler []) shaped_request"
    by (simp add: is_preflight_def)
  then show ?thesis
    using delay_abort [of "fresh_srv 0 None" "sample_handler []" shaped_request "sample_env True (Inl [])" "''hi''" sample_echo]
    by (simp add: shaped_request_wait)
qed

abbreviation preflight_request :: request where
  "preflight_request \<equiv> sample_request ''OPTIONS'' [] [(''Origin'', [''http://b'']), (''Access-Control-Request-Method'', [''PUT''])]"

lemma preflight_request_header:
  "h_get (r_header preflight_request) ''Access-Control-Request-Method'' = ''PUT''"
  "h_get (r_header preflight_request) ''Origin'' = ''http://b''"
  by code_simp+

theorem preflight_answered_witness:
  "w_status (srv_wire (handle_echo (sample_env True (Inl [])) (sample_handler ''*'') preflight_request ''hi'' sample_echo (fresh_srv 0 None))) = 204"
proof -
  have "is_preflight (sample_handler ''*'') preflight_request"
    by (simp add: is_preflight_def cors_enabled_def preflight_request_header del: sample_request_simps) simp
  then show ?thesis
    using preflight_answered [of "fresh_srv 0 None" "sample_handler ''*''" preflight_request "sample_env True (Inl [])" "''hi''" sample_echo]
    by simp
qed

theorem cors_origin_exact_witness:
  "lookup (w_header (srv_wire (snd (apply_cors (new_handler (default_config\<lparr>c_cors_allow_origin := ''http://a, http://b''\<rparr>) None False None None)
      preflight_request (fresh_srv 0 None))))) ''Access-Control-Allow-Origin'' = Some [''http://b'']"
proof -
  have "trim_space '' http://b'' = ''http://b''" "split_on CHR '','' ''http://a, http://b'' = [''http://a'', '' http://b'']"
    by code_simp+
  then show ?thesis
    using cors_origin_exact [of "fresh_srv 0 None" "default_config\<lparr>c_cors_allow_origin := ''http://a, http://b''\<rparr>"
        None False None None preflight_request] preflight_request_header(2)
    by simp
qed

abbreviation teapot :: upstream where
  "teapot \<equiv> \<lparr>up_proto = ''HTTP/1.1'', up_status = ''418 teapot'', up_code = 418,
     up_header = [(''Content-Length'', [''5''])], up_body = Inr ''short''\<rparr>"

abbreviation sample_forwarder :: forwarder where
  "sample_forwarder \<equiv> plain_forwarder ''/api'' []"

lemma sample_exchange:
  "fr_err (forward_do (se_fwd (sample_env gone (Inr teapot))) sample_forwarder r body peer scheme) = None"
  "fr_code (forward_do (se_fwd (sample_env gone (Inr teapot))) sample_forwarder r body peer scheme) = 418"
  "fr_header (forward_do (se_fwd (sample_env gone (Inr teapot))) sample_forwarder r body peer scheme)
     = relay_header [(''Content-Length'', [''5''])]"
  "fr_body (forward_do (se_fwd (sample_env gone (Inr teapot))) sample_forwarder r body peer scheme) = ''short''"
  by (simp_all add: forward_do_def empty_result_def Let_def)

lemma sample_failure:
  "fr_err (forward_do (se_fwd (sample_env gone (Inl ''refused''))) sample_forwarder r body peer scheme) = Some ''refused''"
  by (simp add: forward_do_def empty_result_def Let_def)

lemma sample_relayed: "relay_header [(''Content-Length'', [''5''])] = [(''Content-Length'', [''5''])]"
  by code_simp

theorem forward_relays_witness:
  "w_status (srv_wire (snd (snd (handle_forward (sample_env False (Inr teapot)) (sample_handler []) sample_forwarder
     (sample_request ''GET'' [] []) [] None False (fresh_srv 0 None))))) = 418 \<and>
   w_body (srv_wire (snd (snd (handle_forward (sample_env False (Inr teapot)) (sample_handler []) sample_forwarder
     (sample_request ''GET'' [] []) [] None False (fresh_srv 0 None))))) = ''short''"
proof -
  let ?env = "sample_env False (Inr teapot)" and ?r = "sample_request ''GET'' [] []"
  obtain fl ex' s' where run: "handle_forward ?env (sample_handler []) sample_forwarder ?r [] None False (fresh_srv 0 None)
      = (fl, ex', s')"
    by (cases "handle_forward ?env (sample_handler []) sample_forwarder ?r [] None False (fresh_srv 0 None)")
  have u: "\<exists>u. fe_new_request (se_fwd ?env) (r_method ?r) (url_string (target_url sample_forwarder (r_url ?r))) = Inr u"
    and x: "fe_do (se_fwd ?env) c out = Inr teapot" for c out
    by simp_all
  have len: "declared_length (up_header teapot) = Some 5" by (simp, code_simp)
  show ?thesis
    using forward_relays [OF unsent_fresh _ run _ x, of _ "''short''"] u len
    by (auto simp: run wf_map_def valid_code_def informational_def body_allowed_def)
qed

theorem forward_failure_witness:
  "w_status (srv_wire (snd (snd (handle_forward (sample_env False (Inl ''refused'')) (sample_handler []) sample_forwarder
     (sample_request ''GET'' [] []) [] None False (fresh_srv 0 None))))) = 502"
proof -
  let ?env = "sample_env False (Inl ''refused'')" and ?r = "sample_request ''GET'' [] []"
  obtain fl ex' s' where run: "handle_forward ?env (sample_handler []) sample_forwarder ?r [] None False (fresh_srv 0 None)
      = (fl, ex', s')"
    by (cases "handle_forward ?env (sample_handler []) sample_forwarder ?r [] None False (fresh_srv 0 None)")
  show ?thesis
    using forward_failure [OF unsent_fresh _ refl sample_failure run] by (simp add: run)
qed

end
