(* ===== verification/WebSocket.thy ===== *)
theory WebSocket
  imports Handler
begin

text \<open>
  \<open>internal/server/ws.go\<close>: the upgrade of a WebSocket request and the session that echoes
  every message. The WebSocket library is not part of the program: \<open>we_accept\<close> is its \<open>Accept\<close>,
  which answers through the recorder and takes the connection over or reports an error, and a session is driven
  by what its \<open>Read\<close> and \<open>Write\<close> deliver, one pair per turn of the loop. Of the library's documented
  behaviour the model has the read limit: a message larger than a limit that is not negative is a read error.
  The close frames recorded are those the handler itself asks for; what the library sends of its own accord when it reads
  or rejects a close frame, or tears a connection down, is its own and not modelled.
  A session need not end: the model runs it over any finite sequence of turns.
\<close>

section \<open>Connections\<close>

datatype msg_type = MsgText | MsgBinary

text \<open>A failed read has the close status of its error, -1 when it is no close frame, and its text.\<close>

datatype read_result = Received msg_type bytes | ReadFailed int string

record ws_env =
  we_accept :: "string list \<Rightarrow> request \<Rightarrow> recorder \<Rightarrow> string option \<times> recorder"
  we_type_name :: "msg_type \<Rightarrow> string"
  we_limit_error :: string
  we_first_write :: "string option"
  we_turns :: "(read_result \<times> string option) list"

record conn =
  cn_limit :: int
  cn_sent :: "(msg_type \<times> bytes) list"
  cn_closes :: "int list"
  cn_torn_down :: bool

definition default_read_limit :: int where
  "default_read_limit = 32768"

definition status_normal_closure :: int where
  "status_normal_closure = 1000"

definition status_going_away :: int where
  "status_going_away = 1001"

definition new_conn :: conn where
  "new_conn = \<lparr>cn_limit = default_read_limit, cn_sent = [], cn_closes = [], cn_torn_down = False\<rparr>"

definition set_read_limit :: "int \<Rightarrow> conn \<Rightarrow> conn" where
  "set_read_limit n c = c\<lparr>cn_limit := n\<rparr>"

text \<open>\<open>Write\<close> and \<open>Read\<close>: the second argument is what the network does.\<close>

definition conn_write :: "msg_type \<times> bytes \<Rightarrow> string option \<Rightarrow> conn \<Rightarrow> conn" where
  "conn_write m err c = (if err = None then c\<lparr>cn_sent := cn_sent c @ [m]\<rparr> else c)"

definition conn_read :: "string \<Rightarrow> read_result \<Rightarrow> conn \<Rightarrow> read_result" where
  "conn_read limit_error res c =
     (case res of
        Received t b \<Rightarrow>
          if 0 \<le> cn_limit c \<and> cn_limit c < int (length b) then ReadFailed (-1) limit_error else Received t b
      | ReadFailed st e \<Rightarrow> ReadFailed st e)"

text \<open>The handler's own call of \<open>Close\<close> (\<open>ws.go\<close>, once, after a failed read); the library's own frames are outside the model.\<close>

definition conn_close :: "int \<Rightarrow> conn \<Rightarrow> conn" where
  "conn_close status c = c\<lparr>cn_closes := cn_closes c @ [status]\<rparr>"

section \<open>The session\<close>

text \<open>The request's state with the connection; \<open>ws_over\<close> says that the handler has returned.\<close>

record ws_state =
  ws_srv :: srv
  ws_conn :: conn
  ws_over :: bool

definition ws_return :: "ws_state \<Rightarrow> ws_state" where
  "ws_return s = s\<lparr>ws_over := True, ws_conn := (ws_conn s)\<lparr>cn_torn_down := True\<rparr>\<rparr>"

definition ws_log :: "string \<Rightarrow> (string \<times> log_field) list \<Rightarrow> ws_state \<Rightarrow> ws_state" where
  "ws_log m fs s = s\<lparr>ws_srv := log_msg Debug m fs (ws_srv s)\<rparr>"

definition on_conn :: "(conn \<Rightarrow> conn) \<Rightarrow> ws_state \<Rightarrow> ws_state" where
  "on_conn f s = s\<lparr>ws_conn := f (ws_conn s)\<rparr>"

definition ws_turn :: "ws_env \<Rightarrow> request \<Rightarrow> read_result \<times> string option \<Rightarrow> ws_state \<Rightarrow> ws_state" where
  "ws_turn we r turn s =
     (if ws_over s then s
      else case conn_read (we_limit_error we) (fst turn) (ws_conn s) of
        ReadFailed status e \<Rightarrow>
          ws_return
            (if status = status_normal_closure \<or> status = status_going_away
             then on_conn (conn_close status)
                    (ws_log ''websocket closed by client''
                      [(''remote'', FStr (r_remote_addr r)), (''code'', FInteger status)] s)
             else ws_log ''websocket read ended'' [(''error'', FStr e)] s)
      | Received t b \<Rightarrow>
          (let s1 = ws_log ''echoing websocket message''
                 [(''bytes'', FInteger (int (length b))), (''type'', FStr (we_type_name we t))] s;
               s2 = on_conn (conn_write (t, b) (snd turn)) s1
           in case snd turn of
                None \<Rightarrow> s2
              | Some e \<Rightarrow> ws_return (ws_log ''websocket echo write failed'' [(''error'', FStr e)] s2)))"

definition ws_session :: "ws_env \<Rightarrow> request \<Rightarrow> echo_response \<Rightarrow> (read_result \<times> string option) list \<Rightarrow> srv \<Rightarrow> ws_state" where
  "ws_session we r ec turns s =
     (let s0 = \<lparr>ws_srv = s, ws_conn = set_read_limit (-1) new_conn, ws_over = False\<rparr>;
          s1 = on_conn (conn_write (MsgText, render_response ec) (we_first_write we)) s0
      in case we_first_write we of
           Some e \<Rightarrow> ws_return (ws_log ''websocket initial echo write failed'' [(''error'', FStr e)] s1)
         | None \<Rightarrow> fold (ws_turn we r) turns s1)"

section \<open>The upgrade\<close>

text \<open>The start of a dump, when the handler has a printer.\<close>

definition start_dump :: "srv_env \<Rightarrow> handler \<Rightarrow> srv \<Rightarrow> exchange option \<times> srv" where
  "start_dump env h s =
     (case (h_verbose h, sv_printer s) of
        (True, Some p) \<Rightarrow>
          (case start_exchange (se_dump_start env) p of (e, p') \<Rightarrow> (Some e, s\<lparr>sv_printer := Some p'\<rparr>))
      | _ \<Rightarrow> (None, s))"

definition flush_dump :: "exchange option \<Rightarrow> srv \<Rightarrow> srv" where
  "flush_dump ex s = (case ex of None \<Rightarrow> s | Some e \<Rightarrow> s\<lparr>sv_printer := map_option (flush_exchange e) (sv_printer s)\<rparr>)"

definition ws_dump :: "srv_env \<Rightarrow> handler \<Rightarrow> request \<Rightarrow> bool \<Rightarrow> srv \<Rightarrow> srv" where
  "ws_dump env h r is_tls s =
     (let (ex, s1) = start_dump env h s;
          ex1 = on_exchange (ex_request (request_info_of env r is_tls [])) ex;
          ex2 = on_exchange ex_web_socket_upgrade ex1
      in flush_dump ex2 s1)"

definition handle_web_socket :: "srv_env \<Rightarrow> ws_env \<Rightarrow> handler \<Rightarrow> request \<Rightarrow> bool \<Rightarrow> srv \<Rightarrow> srv \<times> conn option" where
  "handle_web_socket env we h r is_tls s =
     (let ec = capture (se_echo env) r [] False is_tls (h_echo_opts h);
          s1 = ws_dump env h r is_tls s;
          (err, rec) = we_accept we [''*''] r (sv_rec s1);
          s2 = on_rec (\<lambda>_. rec) s1
      in if sv_crashed s2 then (s2, None)
         else case err of
           Some e \<Rightarrow>
             (finish env h r (Some ec) is_tls None False
                (log_msg Warn ''websocket upgrade failed'' [(''path'', FStr (u_path (r_url r))), (''error'', FStr e)] s2),
              None)
         | None \<Rightarrow>
             (let s3 = log_msg Debug ''websocket connection established''
                         [(''path'', FStr (u_path (r_url r))), (''remote'', FStr (r_remote_addr r))] s2;
                  s4 = finish env h r (Some ec) is_tls None False s3;
                  t = ws_session we r ec (we_turns we) s4
              in if sv_crashed s4 then (s4, None) else (ws_srv t, Some (ws_conn t))))"

section \<open>What a session sends\<close>

text \<open>The messages that were read and could be written back, up to the first failure.\<close>

fun echoed :: "(read_result \<times> string option) list \<Rightarrow> (msg_type \<times> bytes) list" where
  "echoed ((Received t b, None) # turns) = (t, b) # echoed turns"
| "echoed _ = []"

text \<open>What ends a session: the first failed read or write.\<close>

fun ending :: "(read_result \<times> string option) list \<Rightarrow> (read_result \<times> string option) option" where
  "ending [] = None"
| "ending ((Received t b, None) # turns) = ending turns"
| "ending (turn # _) = Some turn"

definition mirrored :: "(read_result \<times> string option) option \<Rightarrow> int list" where
  "mirrored e = (case e of Some (ReadFailed st _, _) \<Rightarrow> if st \<in> {1000, 1001} then [st] else [] | _ \<Rightarrow> [])"

lemma on_conn_simps [simp]:
  "ws_conn (on_conn f s) = f (ws_conn s)" "ws_over (on_conn f s) = ws_over s" "ws_srv (on_conn f s) = ws_srv s"
  by (simp_all add: on_conn_def)

lemma ws_log_simps [simp]:
  "ws_conn (ws_log m fs s) = ws_conn s" "ws_over (ws_log m fs s) = ws_over s"
  "ws_srv (ws_log m fs s) = log_msg Debug m fs (ws_srv s)"
  by (simp_all add: ws_log_def)

lemma ws_return_simps [simp]:
  "ws_conn (ws_return s) = (ws_conn s)\<lparr>cn_torn_down := True\<rparr>" "ws_over (ws_return s)"
  "ws_srv (ws_return s) = ws_srv s"
  by (simp_all add: ws_return_def)

lemma conn_write_simps [simp]:
  "conn_write m None c = c\<lparr>cn_sent := cn_sent c @ [m]\<rparr>" "conn_write m (Some e) c = c"
  by (simp_all add: conn_write_def)

lemma conn_read_unlimited: "cn_limit c < 0 \<Longrightarrow> conn_read e res c = res"
  by (auto simp: conn_read_def split: read_result.split)

lemma ws_over_stays: "ws_over s \<Longrightarrow> fold (ws_turn we r) turns s = s"
  by (induction turns) (simp_all add: ws_turn_def)

lemma ws_turn_ended:
  assumes "\<not> ws_over s" "cn_limit (ws_conn s) < 0" "ending (turn # turns) = Some turn"
    and "\<And>t b. turn \<noteq> (Received t b, None)"
  shows "ws_over (ws_turn we r turn s) \<and> ws_conn (ws_turn we r turn s) =
     (ws_conn s)\<lparr>cn_closes := cn_closes (ws_conn s) @ mirrored (Some turn), cn_torn_down := True\<rparr>"
  using assms
  by (cases turn; cases "fst turn"; cases "snd turn")
    (auto simp: ws_turn_def conn_read_unlimited mirrored_def conn_close_def status_normal_closure_def
      status_going_away_def)

lemma ws_turns:
  assumes "\<not> ws_over s" "cn_limit (ws_conn s) < 0"
  shows "ws_conn (fold (ws_turn we r) turns s) =
      (ws_conn s)\<lparr>cn_sent := cn_sent (ws_conn s) @ echoed turns,
         cn_closes := cn_closes (ws_conn s) @ mirrored (ending turns),
         cn_torn_down := (cn_torn_down (ws_conn s) \<or> ending turns \<noteq> None)\<rparr> \<and>
    (ws_over (fold (ws_turn we r) turns s) \<longleftrightarrow> ending turns \<noteq> None)"
  using assms
proof (induction turns arbitrary: s)
  case Nil
  then show ?case by (simp add: mirrored_def)
next
  case (Cons turn turns)
  show ?case
  proof (cases "\<exists>t b. turn = (Received t b, None)")
    case True
    then obtain t b where turn: "turn = (Received t b, None)" by blast
    let ?s = "ws_turn we r turn s"
    have "ws_conn ?s = (ws_conn s)\<lparr>cn_sent := cn_sent (ws_conn s) @ [(t, b)]\<rparr>" "\<not> ws_over ?s"
      using Cons.prems by (simp_all add: turn ws_turn_def conn_read_unlimited Let_def)
    then show ?thesis
      using Cons.IH [of ?s] Cons.prems by (simp add: turn)
  next
    case False
    then have ends: "ending (turn # turns) = Some turn" "echoed (turn # turns) = []"
      by (cases turn; cases "fst turn"; cases "snd turn"; auto)+
    then show ?thesis
      using ws_turn_ended [of s turn turns we r] Cons.prems False by (simp add: ws_over_stays)
  qed
qed

text \<open>
  C17: The echo of a session: the client gets the rendered echo of the upgrade request and then every message it sent, of
  whatever size, unchanged, in order and with its type, up to the first failure. The handler itself calls \<open>Close\<close> once, with
  the client's status, when the client closed with 1000 or 1001, and not at all when the session ended in another way, be
  it a close with another status (which section 6.5 of the specification, "Close is mirrored", does not leave out): such a
  close gets no more than what the WebSocket library answers by itself. The connection is torn down exactly when the
  session has ended.
\<close>
theorem ws_session_exact:
  "ws_conn (ws_session we r ec turns s) =
     (case we_first_write we of
        Some _ \<Rightarrow> \<lparr>cn_limit = -1, cn_sent = [], cn_closes = [], cn_torn_down = True\<rparr>
      | None \<Rightarrow> \<lparr>cn_limit = -1, cn_sent = (MsgText, render_response ec) # echoed turns,
          cn_closes = mirrored (ending turns), cn_torn_down = (ending turns \<noteq> None)\<rparr>)"
proof (cases "we_first_write we")
  case None
  let ?s = "on_conn (conn_write (MsgText, render_response ec) None)
     \<lparr>ws_srv = s, ws_conn = set_read_limit (-1) new_conn, ws_over = False\<rparr>"
  from None show ?thesis
    using ws_turns [of ?s we r turns]
    by (simp add: ws_session_def set_read_limit_def new_conn_def)
next
  case (Some e)
  then show ?thesis
    by (simp add: ws_session_def set_read_limit_def new_conn_def)
qed

end
