(* ===== verification/Serve.thy ===== *)
theory Serve
  imports WebSocket
begin

text \<open>
  The dispatch of \<open>internal/server/handler.go\<close>: \<open>serve\<close> routes a request to the metrics
  endpoint, the CA certificate, a WebSocket session, the target it forwards to, or the echo, and closes every one of
  them with one metrics observation and at most one request log. The lemmas follow a request
  from the listener to the wire, the trace, the logs and the metrics.
\<close>

section \<open>The dispatch\<close>

text \<open>\<open>http.Error\<close>: a plain text response.\<close>

definition http_error :: "string \<Rightarrow> int \<Rightarrow> srv \<Rightarrow> srv" where
  "http_error msg code s =
     (let s1 = on_rec (rec_edit (\<lambda>hm. h_del hm ''Content-Length'')) s;
          s2 = set_header ''Content-Type'' ''text/plain; charset=utf-8'' s1;
          s3 = set_header ''X-Content-Type-Options'' ''nosniff'' s2
      in andthen (on_rec (rec_write_header code) s3) (on_rec (rec_write (msg @ [CHR 0x0A]))))"

definition serve_metrics :: "srv_env \<Rightarrow> handler \<Rightarrow> request \<Rightarrow> bool \<Rightarrow> srv \<Rightarrow> srv" where
  "serve_metrics env h r is_tls s =
     (let s1 = log_msg Debug ''serving metrics endpoint'' [(''path'', FStr (u_path (r_url r)))] s;
          page = apply_op (\<lambda>f. on_rec (rec_edit f)) (\<lambda>c. on_rec (rec_write_header c)) (\<lambda>b. on_rec (rec_write b));
          s2 = fold (\<lambda>call s. andthen s (page call))
                 (case h_metrics h of Some m \<Rightarrow> metrics_page (se_metrics_page env) m | None \<Rightarrow> []) s1
      in andthen s2 (finish env h r None is_tls None True))"

definition serve_ca :: "srv_env \<Rightarrow> handler \<Rightarrow> bytes \<Rightarrow> request \<Rightarrow> bool \<Rightarrow> srv \<Rightarrow> srv" where
  "serve_ca env h pem r is_tls s =
     (let s1 = log_msg Debug ''serving CA certificate'' [(''path'', FStr (u_path (r_url r)))] s;
          s2 = set_header ''Content-Type'' ''application/x-pem-file'' s1;
          s3 = andthen (on_rec (rec_write_header 200) s2) (on_rec (rec_write pem))
      in andthen s3 (finish env h r None is_tls None True))"

definition dump_response :: "srv_env \<Rightarrow> request \<Rightarrow> exchange option \<Rightarrow> srv \<Rightarrow> exchange option" where
  "dump_response env r ex s =
     on_exchange (ex_response (r_proto r) (rec_get_status (sv_rec s)) (rec_header (sv_rec s))
       (rec_body_bytes (sv_rec s)) (se_responded env)) ex"

text \<open>A request with its body: captured, dumped, forwarded or echoed.\<close>

definition serve_body :: "srv_env \<Rightarrow> handler \<Rightarrow> request \<Rightarrow> bytes \<Rightarrow> bool \<Rightarrow> srv \<Rightarrow> srv" where
  "serve_body env h r body is_tls s =
     (let (echo_b, truncated) = cap_body body (c_max_body_size (h_cfg h));
          ec = capture (se_echo env) r echo_b truncated is_tls (h_echo_opts h);
          (ex, s1) = start_dump env h s;
          ex1 = on_exchange (ex_request (request_info_of env r is_tls body)) ex;
          (fl, ex2, s2) =
            (case h_fwd h of
               Some fwd \<Rightarrow>
                 (case handle_forward env h fwd r body ex1 is_tls s1 of (fl, ex2, s2) \<Rightarrow> (Some fl, ex2, s2))
             | None \<Rightarrow> (None, ex1, handle_echo env h r echo_b ec s1))
      in andthen s2 (\<lambda>s2.
           finish env h r (Some ec) is_tls fl False (flush_dump (dump_response env r ex2 s2) s2)))"

definition serve_rest :: "srv_env \<Rightarrow> handler \<Rightarrow> request \<Rightarrow> bool \<Rightarrow> srv \<Rightarrow> srv" where
  "serve_rest env h r is_tls s =
     (case read_limited (body_limit h) (r_body r) (r_body_err r) of
        Inl e \<Rightarrow>
          andthen (http_error (''reading request body: '' @ e) 400
                    (log_msg Warn ''reading request body failed'' [(''error'', FStr e)] s))
            (finish env h r None is_tls None False)
      | Inr body \<Rightarrow> serve_body env h r body is_tls s)"

datatype route = ToMetrics | ToCA bytes | ToWebSocket | ToRest

definition route_of :: "srv_env \<Rightarrow> handler \<Rightarrow> request \<Rightarrow> route" where
  "route_of env h r =
     (if h_metrics h \<noteq> None \<and> u_path (r_url r) = c_prometheus_metrics_path (h_cfg h) then ToMetrics
      else case (if c_tls_ca_endpoint (h_cfg h) \<noteq> [] \<and> u_path (r_url r) = c_tls_ca_endpoint (h_cfg h)
                 then h_ca_pem h else None) of
        Some pem \<Rightarrow> ToCA pem
      | None \<Rightarrow>
          if c_ws_enabled (h_cfg h) \<and> is_web_socket_upgrade env r then ToWebSocket else ToRest)"

definition serve :: "srv_env \<Rightarrow> ws_env \<Rightarrow> handler \<Rightarrow> request \<Rightarrow> bool \<Rightarrow> wire \<Rightarrow> printer option \<Rightarrow> srv \<times> conn option" where
  "serve env we h r is_tls w p =
     (let s = \<lparr>sv_rec = new_recorder w (h_dump_cap h), sv_log = [], sv_obs = [], sv_printer = p, sv_crashed = False\<rparr>
      in case route_of env h r of
           ToMetrics \<Rightarrow> (serve_metrics env h r is_tls s, None)
         | ToCA pem \<Rightarrow> (serve_ca env h pem r is_tls s, None)
         | ToWebSocket \<Rightarrow> handle_web_socket env we h r is_tls s
         | ToRest \<Rightarrow> (serve_rest env h r is_tls s, None))"

text \<open>\<open>For\<close>: the handler of one listener.\<close>

definition for_listener :: "srv_env \<Rightarrow> ws_env \<Rightarrow> handler \<Rightarrow> bool \<Rightarrow> request \<Rightarrow> wire \<Rightarrow> printer option \<Rightarrow> srv \<times> conn option" where
  "for_listener env we h is_tls r w p = serve env we h r is_tls w p"

section \<open>The books are kept\<close>

text \<open>A call on the request's state that keeps no books: it observes nothing and writes no request log.\<close>

fun is_request_log :: "log_entry \<Rightarrow> bool" where
  "is_request_log (RequestLog _ _ _ _ _) = True"
| "is_request_log (Message _ _ _) = False"

definition requests :: "srv \<Rightarrow> log_entry list" where
  "requests s = filter is_request_log (sv_log s)"

definition same_books :: "srv \<Rightarrow> srv \<Rightarrow> bool" where
  "same_books s t \<longleftrightarrow> requests t = requests s \<and> sv_obs t = sv_obs s"

lemma same_books_refl [simp]: "same_books s s"
  by (simp add: same_books_def)

lemma same_books_trans: "same_books s t \<Longrightarrow> same_books t u \<Longrightarrow> same_books s u"
  by (simp add: same_books_def)

lemma same_books_log [simp]: "same_books s (log_msg l m fs t) = same_books s t"
  by (simp add: same_books_def requests_def log_msg_def)

lemma same_books_rec [simp]: "same_books s (on_rec f t) = same_books s t"
  by (simp add: same_books_def requests_def)

lemma same_books_header [simp]: "same_books s (set_header k v t) = same_books s t" "same_books s (add_header k v t) = same_books s t"
  by (simp_all add: set_header_def add_header_def)

lemma same_books_printer [simp]: "same_books s (t\<lparr>sv_printer := p\<rparr>) = same_books s t"
  by (simp add: same_books_def requests_def)

lemma same_books_andthen: "same_books s t \<Longrightarrow> (\<And>u. same_books s u \<Longrightarrow> same_books s (f u)) \<Longrightarrow> same_books s (andthen t f)"
  by (simp add: andthen_def)

lemma same_books_status: "same_books s (snd (shaped_status r t)) = same_books s t"
  by (simp add: shaped_status_def Let_def split: option.split)

lemma same_books_delay: "same_books s (snd (delay env r t)) = same_books s t"
  by (simp add: delay_def delay_of_def Let_def split: option.split)

lemma same_books_body: "same_books s (snd (snd (echo_body env h r body ec t))) = same_books s t"
  by (simp add: echo_body_def Let_def split: sum.split)

lemma same_books_cors: "same_books s t \<Longrightarrow> same_books s (snd (apply_cors h r t))"
  by (simp add: apply_cors_def Let_def split: prod.split)

lemma same_books_echo: "same_books s t \<Longrightarrow> same_books s (handle_echo env h r body ec t)"
proof -
  assume t: "same_books s t"
  obtain answered s0 where c: "(if h_cors_all h \<or> h_cors_origins h \<noteq> [] then apply_cors h r t else (False, t)) = (answered, s0)"
    by (cases "if h_cors_all h \<or> h_cors_origins h \<noteq> [] then apply_cors h r t else (False, t)")
  obtain st s1 where b: "shaped_status r s0 = (st, s1)" by (cases "shaped_status r s0")
  obtain wa s2 where d: "delay env r s1 = (wa, s2)" by (cases "delay env r s1")
  obtain rb js s3 where e: "echo_body env h r body ec s2 = (rb, js, s3)" by (cases "echo_body env h r body ec s2")
  have s0: "same_books s s0"
    using c t same_books_cors [OF t, of h r] by (auto split: if_splits)
  then have s2: "same_books s s2"
    using same_books_status [of s r s0] same_books_delay [of s env r s1] by (simp add: b d)
  then have s3: "same_books s s3"
    using same_books_body [of s env h r body ec s2] by (simp add: e)
  show ?thesis
    unfolding handle_echo_def c b d e Let_def prod.case using s0 s2 s3 by (auto intro!: same_books_andthen)
qed

lemma same_books_forward: "same_books s t \<Longrightarrow> handle_forward env h fwd r body ex is_tls t = (fl, ex', t') \<Longrightarrow> same_books s t'"
  by (auto simp: handle_forward_def Let_def split: option.splits prod.splits intro!: same_books_andthen)

lemma same_books_start: "start_dump env h t = (ex, t') \<Longrightarrow> same_books s t' = same_books s t"
  by (auto simp: start_dump_def split: option.splits prod.splits bool.splits)

lemma same_books_flush [simp]: "same_books s (flush_dump ex t) = same_books s t"
  by (simp add: flush_dump_def split: option.split)

lemma same_books_error: "same_books s t \<Longrightarrow> same_books s (http_error msg code t)"
  by (auto simp: http_error_def Let_def intro!: same_books_andthen)

text \<open>The books of a request that has been closed: one observation and one request log, if they are on.\<close>

definition books_closed :: "srv_env \<Rightarrow> handler \<Rightarrow> request \<Rightarrow> bool \<Rightarrow> srv \<Rightarrow> bool" where
  "books_closed env h r reserved s \<longleftrightarrow>
     sv_obs s = (case h_metrics h of None \<Rightarrow> []
       | Some m \<Rightarrow> the (observe m (r_method r) (u_path (r_url r)) (rec_get_status (sv_rec s))
           (time_sub (se_finished env) (se_start env)))) \<and>
     (if c_disable_request_logs (h_cfg h) \<or> ignored h (u_path (r_url r)) then requests s = []
      else (case requests s of
          [RequestLog lvl _ status ms _] \<Rightarrow> lvl = (if reserved then Debug else Info)
            \<and> status = rec_get_status (sv_rec s) \<and> ms = millis (time_sub (se_finished env) (se_start env))
        | _ \<Rightarrow> False))"

definition new_books :: "srv \<Rightarrow> bool" where
  "new_books s \<longleftrightarrow> sv_obs s = [] \<and> requests s = []"

lemma finish_closes:
  assumes "new_books s" "same_books s t" "\<not> sv_crashed (finish env h r ec is_tls fl reserved t)"
  shows "books_closed env h r reserved (finish env h r ec is_tls fl reserved t)"
proof -
  have t: "sv_obs t = []" "requests t = []"
    using assms(1,2) by (simp_all add: new_books_def same_books_def)
  show ?thesis
    using assms(3) t
    by (auto simp: finish_def books_closed_def andthen_def requests_def Let_def split: option.splits if_splits)
qed

lemma andthen_alive: "\<not> sv_crashed (andthen t f) \<Longrightarrow> andthen t f = f t"
  by (simp add: andthen_def split: if_splits)

lemma andthen_closes:
  assumes "new_books s" "same_books s t" "\<not> sv_crashed (andthen t (finish env h r ec is_tls fl reserved))"
  shows "books_closed env h r reserved (andthen t (finish env h r ec is_tls fl reserved))"
  using finish_closes [OF assms(1,2)] andthen_alive [OF assms(3)] assms(3) by simp

lemma requests_log: "requests (log_msg l m fs s) = requests s"
  by (simp add: requests_def log_msg_def)

lemma books_log: "books_closed env h r reserved (log_msg l m fs s) = books_closed env h r reserved s"
  unfolding books_closed_def requests_log log_msg_simps ..

lemma books_session: "books_closed env h r reserved (ws_srv (ws_session we rq ec turns s)) = books_closed env h r reserved s"
proof -
  have "books_closed env h r reserved (ws_srv (ws_turn we rq turn t)) = books_closed env h r reserved (ws_srv t)" for turn t
    by (simp add: ws_turn_def books_log Let_def split: read_result.split option.split)
  then have "books_closed env h r reserved (ws_srv (fold (ws_turn we rq) turns t)) = books_closed env h r reserved (ws_srv t)" for t
    by (induction turns arbitrary: t) simp_all
  then show ?thesis
    by (simp add: ws_session_def books_log Let_def split: option.split)
qed

lemma serve_metrics_closes:
  assumes "new_books s" "\<not> sv_crashed (serve_metrics env h r is_tls s)"
  shows "books_closed env h r True (serve_metrics env h r is_tls s)"
proof -
  let ?page = "apply_op (\<lambda>f. on_rec (rec_edit f)) (\<lambda>c. on_rec (rec_write_header c)) (\<lambda>b. on_rec (rec_write b))"
  have page: "same_books s t \<Longrightarrow> same_books s (?page call t)" for t call
    by (cases call) simp_all
  have "same_books s t \<Longrightarrow> same_books s (fold (\<lambda>call s. andthen s (?page call)) calls t)" for calls t
    using page by (induction calls arbitrary: t) (auto intro: same_books_andthen)
  then show ?thesis
    using andthen_closes [OF assms(1)] assms(2) by (simp add: serve_metrics_def Let_def)
qed

lemma serve_ca_closes:
  assumes "new_books s" "\<not> sv_crashed (serve_ca env h pem r is_tls s)"
  shows "books_closed env h r True (serve_ca env h pem r is_tls s)"
  using andthen_closes [OF assms(1)] assms(2) by (simp add: serve_ca_def Let_def same_books_andthen)

lemma serve_body_closes:
  assumes "new_books s" "\<not> sv_crashed (serve_body env h r body is_tls s)"
  shows "books_closed env h r False (serve_body env h r body is_tls s)"
proof -
  obtain eb tr where cb: "cap_body body (c_max_body_size (h_cfg h)) = (eb, tr)" by (cases "cap_body body (c_max_body_size (h_cfg h))")
  obtain ex s1 where sd: "start_dump env h s = (ex, s1)" by (cases "start_dump env h s")
  define ec where "ec = capture (se_echo env) r eb tr is_tls (h_echo_opts h)"
  define ex1 where "ex1 = on_exchange (ex_request (request_info_of env r is_tls body)) ex"
  have s1: "same_books s s1" using same_books_start [OF sd, of s] by simp
  obtain fl ex2 s2 where leg: "(case h_fwd h of
               Some fwd \<Rightarrow>
                 (case handle_forward env h fwd r body ex1 is_tls s1 of (fl, ex2, s2) \<Rightarrow> (Some fl, ex2, s2))
             | None \<Rightarrow> (None, ex1, handle_echo env h r eb ec s1)) = (fl, ex2, s2)"
    by (metis prod_cases3)
  have s2: "same_books s s2"
    using leg same_books_echo [OF s1] same_books_forward [OF s1] by (auto split: option.splits prod.splits)
  have eq: "serve_body env h r body is_tls s = andthen s2 (\<lambda>s2.
           finish env h r (Some ec) is_tls fl False (flush_dump (dump_response env r ex2 s2) s2))"
    unfolding serve_body_def cb sd Let_def prod.case ec_def [symmetric] ex1_def [symmetric] leg by (rule refl)
  have "same_books s (flush_dump (dump_response env r ex2 s2) s2)"
    using s2 by simp
  from finish_closes [OF assms(1) this] andthen_alive assms(2) show ?thesis
    unfolding eq by (metis (no_types, lifting))
qed

lemma serve_rest_closes:
  assumes "new_books s" "\<not> sv_crashed (serve_rest env h r is_tls s)"
  shows "books_closed env h r False (serve_rest env h r is_tls s)"
proof (cases "read_limited (body_limit h) (r_body r) (r_body_err r)")
  case (Inl e)
  then show ?thesis
    using andthen_closes [OF assms(1)] assms(2) by (simp add: serve_rest_def same_books_error)
next
  case (Inr body)
  then show ?thesis
    using serve_body_closes [OF assms(1)] assms(2) by (simp add: serve_rest_def)
qed

lemma ws_dump_books: "same_books s (ws_dump env h r is_tls t) = same_books s t"
  by (cases "start_dump env h t") (simp add: ws_dump_def same_books_start)

lemma log_crashed_session: "sv_crashed (ws_srv (ws_session we rq ec turns s)) = sv_crashed s"
proof -
  have "sv_crashed (ws_srv (ws_turn we rq turn t)) = sv_crashed (ws_srv t)" for turn t
    by (simp add: ws_turn_def Let_def split: read_result.split option.split)
  then have "sv_crashed (ws_srv (fold (ws_turn we rq) turns t)) = sv_crashed (ws_srv t)" for t
    by (induction turns arbitrary: t) simp_all
  then show ?thesis
    by (simp add: ws_session_def Let_def split: option.split)
qed

lemma web_socket_closes:
  assumes "new_books s" "handle_web_socket env we h r is_tls s = (t, c)" "\<not> sv_crashed t"
  shows "books_closed env h r False t"
proof -
  let ?s1 = "ws_dump env h r is_tls s"
  obtain err rc where acc: "we_accept we [''*''] r (sv_rec ?s1) = (err, rc)" by (cases "we_accept we [''*''] r (sv_rec ?s1)")
  have s2: "same_books s (on_rec (\<lambda>_. rc) ?s1)" by (simp add: ws_dump_books)
  have alive: "\<not> sv_crashed (on_rec (\<lambda>_. rc) ?s1)"
    using assms(2,3) by (auto simp: handle_web_socket_def acc Let_def simp del: on_rec_simps)
  show ?thesis
    using assms(2,3) alive finish_closes [OF assms(1)] s2
    by (cases err) (auto simp: handle_web_socket_def acc Let_def books_session log_crashed_session
        simp del: on_rec_simps split: if_splits)
qed

text \<open>
  C3: Every request is accounted for once: on every route, and for an upgrade whatever the session
  does, a request that does not end in a panic makes one metrics observation when metrics are on, and one
  request log unless logs are off or the path is ignored; both have the status the recorder has at
  the end, the log of a reserved path is at debug level and every other one at info level.
\<close>
theorem serve_closes_books:
  assumes "serve env we h r is_tls w p = (s, c)" "\<not> sv_crashed s"
  shows "books_closed env h r (case route_of env h r of ToMetrics \<Rightarrow> True | ToCA _ \<Rightarrow> True | _ \<Rightarrow> False) s"
proof -
  let ?s = "\<lparr>sv_rec = new_recorder w (h_dump_cap h), sv_log = [], sv_obs = [], sv_printer = p, sv_crashed = False\<rparr>"
  have new: "new_books ?s" by (simp add: new_books_def requests_def)
  show ?thesis
    using assms serve_metrics_closes [OF new] serve_ca_closes [OF new] serve_rest_closes [OF new] web_socket_closes [OF new]
    by (auto simp: serve_def Let_def split: route.splits)
qed

section \<open>From the listener to the wire\<close>

lemma start_dump_keeps:
  "start_dump env h s = (ex, s') \<Longrightarrow> sv_rec s' = sv_rec s \<and> sv_crashed s' = sv_crashed s"
  by (auto simp: start_dump_def split: option.splits prod.splits bool.splits)

lemma srv_wire_log: "srv_wire (log_msg l m fs s) = srv_wire s"
  by (simp add: srv_wire_def)

lemma flush_dump_keeps [simp]: "sv_rec (flush_dump ex s) = sv_rec s" "sv_crashed (flush_dump ex s) = sv_crashed s"
  by (simp_all add: flush_dump_def split: option.split)

lemma finish_keeps [simp]:
  "sv_rec (finish env h r ec is_tls fl reserved s) = sv_rec s"
  "sv_printer (finish env h r ec is_tls fl reserved s) = sv_printer s"
  by (simp_all add: finish_def andthen_def Let_def split: option.split)

lemma andthen_rec: "(\<And>u. sv_rec (f u) = sv_rec u) \<Longrightarrow> sv_rec (andthen t f) = sv_rec t"
  by (simp add: andthen_def)

lemma body_limit_plain:
  assumes "0 < c_max_body_size (h_cfg h)" "c_max_body_size (h_cfg h) < max_i64" "h_fwd h = None"
  shows "read_limited (body_limit h) body None = Inr (take (nat (c_max_body_size (h_cfg h) + 1)) body)"
    and "cap_body (take (nat (c_max_body_size (h_cfg h) + 1)) body) (c_max_body_size (h_cfg h))
      = (take (nat (c_max_body_size (h_cfg h))) body, c_max_body_size (h_cfg h) < int (length body))"
proof -
  have "i64 (c_max_body_size (h_cfg h) + 1) = c_max_body_size (h_cfg h) + 1"
    using assms by (intro i64_id) (simp add: is_i64_def min_i64_def max_i64_def)
  then show "read_limited (body_limit h) body None = Inr (take (nat (c_max_body_size (h_cfg h) + 1)) body)"
    using assms by (auto simp: body_limit_def read_limited_def)
  show "cap_body (take (nat (c_max_body_size (h_cfg h) + 1)) body) (c_max_body_size (h_cfg h))
      = (take (nat (c_max_body_size (h_cfg h))) body, c_max_body_size (h_cfg h) < int (length body))"
    using assms by (auto simp: cap_body_def min_def)
qed

text \<open>
  The echo's view of a body: without forwarding, a body that can be read is echoed up to the configured
  size and marked as truncated exactly when it is longer; with forwarding the whole body (of less
  than a tebibyte) is relayed and only the echo's view is cut.
\<close>
theorem echo_body_view:
  assumes "0 < c_max_body_size (h_cfg h)" "c_max_body_size (h_cfg h) < max_i64"
    and "int (length body) < 2 ^ 40"
  shows "\<exists>b. read_limited (body_limit h) body None = Inr b \<and>
    cap_body b (c_max_body_size (h_cfg h)) =
      (take (nat (c_max_body_size (h_cfg h))) body, c_max_body_size (h_cfg h) < int (length body)) \<and>
    (h_fwd h \<noteq> None \<longrightarrow> b = body)"
proof (cases "h_fwd h")
  case None
  then show ?thesis
    using body_limit_plain [OF assms(1,2) None, of body] by blast
next
  case (Some f)
  then show ?thesis
    using assms by (auto simp: body_limit_def read_limited_def cap_body_def)
qed

text \<open>
  The largest size disables echoing bodies: with \<open>MAX_BODY_SIZE\<close> at the largest 64-bit value,
  which validation accepts, the read limit wraps around and every body is read as empty and not truncated.
\<close>
theorem largest_body_size_reads_nothing:
  "config_ok (default_config\<lparr>c_max_body_size := max_i64\<rparr>) \<and>
   read_limited (body_limit (new_handler (default_config\<lparr>c_max_body_size := max_i64\<rparr>) m vp None pem)) body err = Inr []"
proof -
  have "i64 (max_i64 + 1) < 0" by (simp add: min_i64_def)
  then have "read_limited (body_limit (new_handler (default_config\<lparr>c_max_body_size := max_i64\<rparr>) m vp None pem)) body err = Inr []"
    by (simp add: body_limit_def new_handler_def read_limited_def del: i64_max_Suc)
  moreover have "config_ok default_config"
    using default_checks by (simp add: checks_pass)
  ultimately show ?thesis
    by (simp add: config_ok_def max_i64_def)
qed

text \<open>The state a request starts in.\<close>

definition start_srv :: "handler \<Rightarrow> printer option \<Rightarrow> srv" where
  "start_srv h p = fresh_srv (h_dump_cap h) p"

lemma serve_rest_eq:
  assumes "route_of env h r = ToRest"
  shows "serve env we h r is_tls fresh_wire p = (serve_rest env h r is_tls (start_srv h p), None)"
  using assms by (simp add: serve_def start_srv_def fresh_srv_def)

lemma start_dump_unsent: "start_dump env h (start_srv h p) = (ex, s1) \<Longrightarrow> unsent s1 \<and> srv_wire s1 = fresh_wire"
  using start_dump_keeps [of env h "start_srv h p" ex s1]
    unsent_fresh [of "h_dump_cap h" p] wire_fresh(1) [of "h_dump_cap h" p]
  by (simp add: start_srv_def unsent_def srv_ready_def srv_wire_def del: unsent_fresh wire_fresh)

text \<open>What the echo of a request shows of it.\<close>

definition echo_of :: "srv_env \<Rightarrow> handler \<Rightarrow> request \<Rightarrow> bool \<Rightarrow> echo_response" where
  "echo_of env h r is_tls =
     capture (se_echo env) r (take (nat (c_max_body_size (h_cfg h))) (r_body r))
       (c_max_body_size (h_cfg h) < int (length (r_body r))) is_tls (h_echo_opts h)"

text \<open>The headers of an echo.\<close>

definition echo_header :: "srv_env \<Rightarrow> handler \<Rightarrow> request \<Rightarrow> bool \<Rightarrow> header" where
  "echo_header env h r is_tls =
     (let ct = shaped_content_type env h r (take (nat (c_max_body_size (h_cfg h))) (r_body r)) (echo_of env h r is_tls);
          hm = cors_headers h r []
      in if ct \<noteq> [] then h_set hm ''Content-Type'' ct else hm)"

definition echo_text :: "srv_env \<Rightarrow> handler \<Rightarrow> request \<Rightarrow> bool \<Rightarrow> bytes" where
  "echo_text env h r is_tls =
     fst (shaped_body env h r (take (nat (c_max_body_size (h_cfg h))) (r_body r)) (echo_of env h r is_tls))"

lemma status_of_valid: "valid_code (status_of r)"
  by (auto simp: valid_code_def status_of_def split: option.split)

lemma echo_on_wire:
  fixes is_tls :: bool
  assumes "unsent s" "w_header (srv_wire s) = []" "w_info (srv_wire s) = []"
    and "\<not> is_preflight h r" "wait_of r = 0 \<or> \<not> se_client_gone env (wait_of r)"
    and "body = take (nat (c_max_body_size (h_cfg h))) (r_body r)"
  defines "t \<equiv> handle_echo env h r body (echo_of env h r is_tls) s"
  shows "w_status (srv_wire t) = final_status (status_of r)" "w_sent (srv_wire t) = echo_header env h r is_tls"
    and "w_header (srv_wire t) = echo_header env h r is_tls"
    and "w_info (srv_wire t) = (if informational (status_of r) then [(status_of r, echo_header env h r is_tls)] else [])"
    and "w_body (srv_wire t) = (if body_allowed (final_status (status_of r)) then echo_text env h r is_tls else [])"
    and "\<not> sv_crashed t" "sv_printer t = sv_printer s" "rec_get_status (sv_rec t) = status_of r"
    and "rec_body (sv_rec s) = [] \<Longrightarrow> is_i64 (rec_cap (sv_rec s)) \<Longrightarrow>
      rec_body_bytes (sv_rec t) = take (nat (rec_cap (sv_rec s))) (echo_text env h r is_tls)"
proof -
  let ?ec = "echo_of env h r is_tls"
  let ?ct = "shaped_content_type env h r body ?ec" and ?out = "fst (shaped_body env h r body ?ec)"
  let ?f = "\<lambda>hm. if ?ct \<noteq> [] then h_set hm ''Content-Type'' ?ct else hm"
  obtain s3 where s3: "unsent s3" "sv_rec s3 = rec_edit (cors_headers h r) (sv_rec s)" "sv_printer s3 = sv_printer s"
    "w_header (srv_wire s3) = cors_headers h r []"
    and t: "t = andthen (on_rec (rec_write_header (status_of r)) (on_rec (rec_edit ?f) s3)) (on_rec (rec_write ?out))"
    using handle_echo_stay [OF assms(1,4,5), of body ?ec] assms(2) unfolding t_def by auto
  have len: "h_get (?f (w_header (srv_wire s3))) ''Content-Length'' = []"
    using s3(1) by (simp add: hdr unsent_def)
  note r = respond_any [where f = ?f and b = ?out, OF s3(1) status_of_valid [of r] len]
  have t': "t = on_rec (rec_write ?out) (on_rec (rec_write_header (status_of r)) (on_rec (rec_edit ?f) s3))"
    unfolding t by (rule r(1))
  have eh: "?f (w_header (srv_wire s3)) = echo_header env h r is_tls" and out: "?out = echo_text env h r is_tls"
    by (simp_all add: echo_header_def echo_text_def s3(4) assms(6) Let_def)
  have "w_info (srv_wire s3) = []"
    using assms(3) by (simp add: srv_wire_def s3(2) rec_edit_def)
  then show "w_status (srv_wire t) = final_status (status_of r)" "w_sent (srv_wire t) = echo_header env h r is_tls"
    "w_header (srv_wire t) = echo_header env h r is_tls"
    "w_info (srv_wire t) = (if informational (status_of r) then [(status_of r, echo_header env h r is_tls)] else [])"
    "w_body (srv_wire t) = (if body_allowed (final_status (status_of r)) then echo_text env h r is_tls else [])"
    "\<not> sv_crashed t"
    using r(2-7) unfolding t' [symmetric] unfolding eh out by (simp_all del: on_rec_simps)
  have nb: "rec_body (sv_rec s3) = rec_body (sv_rec s)" "rec_cap (sv_rec s3) = rec_cap (sv_rec s)" "\<not> rec_wrote (sv_rec s3)"
    using assms(1) by (simp_all add: s3(2) rec_edit_def unsent_def srv_ready_def rec_ready_def srv_wire_def)
  show "sv_printer t = sv_printer s" by (simp add: t' s3(3))
  show "rec_get_status (sv_rec t) = status_of r"
    using nb(3) by (simp add: t' rec_get_status_def rec_write_def rec_write_header_def rec_edit_def Let_def)
  assume "rec_body (sv_rec s) = []" "is_i64 (rec_cap (sv_rec s))"
  then show "rec_body_bytes (sv_rec t) = take (nat (rec_cap (sv_rec s))) (echo_text env h r is_tls)"
    by (simp add: t' nb rec_body_bytes_def rec_body_write out)
qed

lemma echo_served:
  fixes is_tls :: bool and we :: ws_env and p :: "printer option"
  assumes "route_of env h r = ToRest" "h_fwd h = None" "r_body_err r = None"
    and "0 < c_max_body_size (h_cfg h)" "c_max_body_size (h_cfg h) < max_i64"
    and "\<not> is_preflight h r" "wait_of r = 0 \<or> \<not> se_client_gone env (wait_of r)"
  defines "w \<equiv> srv_wire (fst (serve env we h r is_tls fresh_wire p))"
  shows "w_status w = final_status (status_of r) \<and> w_sent w = echo_header env h r is_tls \<and>
    w_info w = (if informational (status_of r) then [(status_of r, echo_header env h r is_tls)] else []) \<and>
    w_body w = (if body_allowed (final_status (status_of r)) then echo_text env h r is_tls else [])"
proof -
  let ?b = "take (nat (c_max_body_size (h_cfg h))) (r_body r)" and ?ec = "echo_of env h r is_tls"
  note read = body_limit_plain(1) [OF assms(4,5,2), of "r_body r"] and cap = body_limit_plain(2) [OF assms(4,5,2), of "r_body r"]
  obtain ex s1 where sd: "start_dump env h (start_srv h p) = (ex, s1)" by (cases "start_dump env h (start_srv h p)")
  note s1 = start_dump_unsent [OF sd]
  have wire: "w = srv_wire (handle_echo env h r ?b ?ec s1)"
    unfolding w_def serve_rest_eq [OF assms(1)] fst_conv serve_rest_def assms(3) read sum.case serve_body_def cap sd Let_def
      prod.case assms(2) option.case echo_of_def [symmetric] srv_wire_def
    by (rule arg_cong [OF andthen_rec]) simp
  have "w_header (srv_wire s1) = []" "w_info (srv_wire s1) = []"
    using s1 by (simp_all add: fresh_wire_def)
  from echo_on_wire [OF conjunct1 [OF s1] this assms(6,7) refl] show ?thesis
    by (simp add: wire)
qed

text \<open>
  C1: An echoed request, from the listener to the wire: a request that is neither for a reserved path, nor
  an upgrade, nor forwarded, nor a preflight, whose body can be read and whose client stays, on a listener with a body size below the
  largest 64-bit integer, is answered with the status, the headers and the body that the shaping asks for,
  the body computed from the echo of the request with its body cut at the configured size. A requested status from 100 to
  199 other than 101 is sent, with the headers, but is not the final one: 200 and the body follow it.
\<close>
theorem serve_echo_response:
  assumes "route_of env h r = ToRest" "h_fwd h = None" "r_body_err r = None"
    and "0 < c_max_body_size (h_cfg h)" "c_max_body_size (h_cfg h) < max_i64"
    and "\<not> is_preflight h r" "wait_of r = 0 \<or> \<not> se_client_gone env (wait_of r)"
  shows "w_status (srv_wire (fst (serve env we h r is_tls fresh_wire p))) = final_status (status_of r) \<and>
    w_sent (srv_wire (fst (serve env we h r is_tls fresh_wire p))) = echo_header env h r is_tls \<and>
    w_info (srv_wire (fst (serve env we h r is_tls fresh_wire p))) =
      (if informational (status_of r) then [(status_of r, echo_header env h r is_tls)] else []) \<and>
    w_body (srv_wire (fst (serve env we h r is_tls fresh_wire p))) =
      (if body_allowed (final_status (status_of r)) then echo_text env h r is_tls else [])"
  using assms by (rule echo_served)

lemma fwd_irrelevant:
  "h_cfg (h\<lparr>h_fwd := f\<rparr>) = h_cfg h" "h_metrics (h\<lparr>h_fwd := f\<rparr>) = h_metrics h"
  "h_ca_pem (h\<lparr>h_fwd := f\<rparr>) = h_ca_pem h" "h_verbose (h\<lparr>h_fwd := f\<rparr>) = h_verbose h"
  "h_echo_opts (h\<lparr>h_fwd := f\<rparr>) = h_echo_opts h" "h_dump_cap (h\<lparr>h_fwd := f\<rparr>) = h_dump_cap h"
  by simp_all

text \<open>
  C35: Local routes stay local: requests for the reserved paths and upgrades are answered in the same way
  whatever target the handler forwards to, or none.
\<close>
theorem local_routes_not_forwarded:
  assumes "route_of env h r \<noteq> ToRest"
  shows "serve env we (h\<lparr>h_fwd := f\<rparr>) r is_tls w p = serve env we h r is_tls w p"
proof -
  have same: "route_of env (h\<lparr>h_fwd := f\<rparr>) r = route_of env h r"
    unfolding route_of_def fwd_irrelevant ..
  have fin: "finish env (h\<lparr>h_fwd := f\<rparr>) rq ec tls fl res s = finish env h rq ec tls fl res s" for rq ec tls fl res s
    unfolding finish_def ignored_def fwd_irrelevant ..
  have ws: "handle_web_socket env we (h\<lparr>h_fwd := f\<rparr>) r is_tls s = handle_web_socket env we h r is_tls s" for s
    unfolding handle_web_socket_def ws_dump_def start_dump_def fin fwd_irrelevant ..
  show ?thesis
    using assms unfolding serve_def same ws serve_metrics_def serve_ca_def fin fwd_irrelevant
    by (cases "route_of env h r") simp_all
qed

lemma ca_response:
  assumes "route_of env h r = ToCA pem"
  shows "w_status (srv_wire (fst (serve env we h r is_tls fresh_wire p))) = 200 \<and>
    w_sent (srv_wire (fst (serve env we h r is_tls fresh_wire p))) = [(''Content-Type'', [''application/x-pem-file''])] \<and>
    w_body (srv_wire (fst (serve env we h r is_tls fresh_wire p))) = pem \<and>
    sv_printer (fst (serve env we h r is_tls fresh_wire p)) = p \<and>
    list_all (\<lambda>e. case e of Message l _ _ \<Rightarrow> l = Debug | RequestLog l _ _ _ _ \<Rightarrow> l = Debug)
      (sv_log (fst (serve env we h r is_tls fresh_wire p)))"
proof -
  let ?s = "log_msg Debug ''serving CA certificate'' [(''path'', FStr (u_path (r_url r)))] (start_srv h p)"
  let ?f = "\<lambda>hm. h_set hm ''Content-Type'' ''application/x-pem-file''"
  let ?t = "andthen (on_rec (rec_write_header 200) (on_rec (rec_edit ?f) ?s)) (on_rec (rec_write pem))"
  have eq: "fst (serve env we h r is_tls fresh_wire p) = andthen ?t (finish env h r None is_tls None True)"
    using assms by (simp add: serve_def serve_ca_def Let_def set_header_def start_srv_def fresh_srv_def)
  have un: "unsent ?s" "w_header (srv_wire ?s) = []"
    by (simp_all add: start_srv_def srv_wire_log)
  have len: "h_get (?f (w_header (srv_wire ?s))) ''Content-Length'' = []"
    unfolding un by (simp add: hdr) (simp add: h_get_def h_values_def)
  have wire: "srv_wire (fst (serve env we h r is_tls fresh_wire p)) = srv_wire ?t"
    unfolding eq srv_wire_def by (rule arg_cong [OF andthen_rec]) simp
  have rest: "sv_printer (andthen ?t (finish env h r None is_tls None True)) = p \<and>
    list_all (\<lambda>e. case e of Message l _ _ \<Rightarrow> l = Debug | RequestLog l _ _ _ _ \<Rightarrow> l = Debug)
      (sv_log (andthen ?t (finish env h r None is_tls None True)))"
    by (simp add: andthen_def finish_def log_msg_def start_srv_def fresh_srv_def Let_def split: option.split)
  show ?thesis
    unfolding wire using respond [OF un(1), of 200 ?f pem] len rest
    by (simp add: un(2) eq valid_code_def informational_def body_allowed_def h_set_def del: on_rec_simps)
qed

text \<open>
  The CA endpoint: the response is the certificate of the CA and nothing else, with its content type,
  it is not dumped, and everything logged for it is at debug level.
\<close>
theorem ca_endpoint_exact:
  assumes "route_of env h r = ToCA pem"
  shows "w_status (srv_wire (fst (serve env we h r is_tls fresh_wire p))) = 200 \<and>
    w_sent (srv_wire (fst (serve env we h r is_tls fresh_wire p))) = [(''Content-Type'', [''application/x-pem-file''])] \<and>
    w_body (srv_wire (fst (serve env we h r is_tls fresh_wire p))) = pem \<and>
    sv_printer (fst (serve env we h r is_tls fresh_wire p)) = p \<and>
    list_all (\<lambda>e. case e of Message l _ _ \<Rightarrow> l = Debug | RequestLog l _ _ _ _ \<Rightarrow> l = Debug)
      (sv_log (fst (serve env we h r is_tls fresh_wire p)))"
  using assms by (rule ca_response)

section \<open>The trace of an echoed request\<close>

lemma ex_max_body_keeps [simp]: "ex_max_body (put b e) = ex_max_body e" "ex_max_body (ex_request i e) = ex_max_body e"
  by (simp_all add: put_def ex_request_def ex_section_def Let_def)

lemma ex_response_captured:
  "0 < ex_max_body e \<Longrightarrow>
     ex_response p c hm (take (nat (ex_max_body e + 1)) b) now e = ex_response p c hm b now e"
  by (simp add: ex_response_def ex_section_def section_capture Let_def)

lemma ex_request_captured:
  "0 < ex_max_body e \<Longrightarrow>
     ex_request (i\<lparr>ri_body := take (nat (ex_max_body e + 1)) b\<rparr>) e = ex_request (i\<lparr>ri_body := b\<rparr>) e"
  by (simp add: ex_request_def ex_section_def section_capture Let_def)

text \<open>
  C2: The trace shows what happened: for an echoed request as in the previous claim, the dump written to the printer is the
  text for the whole request body, the status requested, the headers sent on the wire and the whole response body,
  although the handler keeps only the configured number of bytes and one more of either. The status is the final one on the wire
  unless it is from 100 to 199 and not 101, when the dump has the interim status and the wire ends with 200.
\<close>
theorem trace_shows_exchange:
  assumes "route_of env h r = ToRest" "h_fwd h = None" "r_body_err r = None"
    and "0 < c_max_body_size (h_cfg h)" "c_max_body_size (h_cfg h) < max_i64"
    and "\<not> is_preflight h r" "wait_of r = 0 \<or> \<not> se_client_gone env (wait_of r)"
    and "h_verbose h" "h_dump_cap h = c_max_body_size (h_cfg h) + 1" "pr_max_body pr = c_max_body_size (h_cfg h)"
  shows "map_option pr_out (sv_printer (fst (serve env we h r is_tls fresh_wire (Some pr)))) = Some (pr_out pr @
    ex_buf (ex_response (r_proto r) (status_of r) (w_sent (srv_wire (fst (serve env we h r is_tls fresh_wire (Some pr)))))
      (echo_text env h r is_tls) (se_responded env)
      (ex_request (request_info_of env r is_tls (r_body r)) (fst (start_exchange (se_dump_start env) pr))))) \<and>
    final_status (status_of r) = w_status (srv_wire (fst (serve env we h r is_tls fresh_wire (Some pr))))"
proof -
  let ?m = "c_max_body_size (h_cfg h)"
  let ?b = "take (nat ?m) (r_body r)" and ?ec = "echo_of env h r is_tls" and ?out = "echo_text env h r is_tls"
  let ?e = "fst (start_exchange (se_dump_start env) pr)" and ?p = "snd (start_exchange (se_dump_start env) pr)"
  let ?s1 = "(start_srv h (Some pr))\<lparr>sv_printer := Some ?p\<rparr>"
  have em: "ex_max_body ?e = ?m" by (simp add: start_exchange_def assms(10) Let_def)
  note read = body_limit_plain(1) [OF assms(4,5,2), of "r_body r"] and cap = body_limit_plain(2) [OF assms(4,5,2), of "r_body r"]
  have sd: "start_dump env h (start_srv h (Some pr)) = (Some ?e, ?s1)"
    using assms(8) by (simp add: start_dump_def start_srv_def fresh_srv_def split: prod.split)
  note s1 = start_dump_unsent [OF sd]
  define t where "t = handle_echo env h r ?b ?ec ?s1"
  have w1: "w_header (srv_wire ?s1) = []" "w_info (srv_wire ?s1) = []"
    using conjunct2 [OF s1] by (simp_all add: fresh_wire_def)
  have "rec_body (sv_rec ?s1) = []" "rec_cap (sv_rec ?s1) = ?m + 1" "is_i64 (?m + 1)"
    using assms(4,5) by (simp_all add: start_srv_def fresh_srv_def new_recorder_def assms(9) is_i64_def min_i64_def max_i64_def)
  with echo_on_wire [OF conjunct1 [OF s1] w1 assms(6,7) refl, of is_tls]
  have t_alive: "\<not> sv_crashed t" and t_printer: "sv_printer t = Some ?p" and hm: "rec_header (sv_rec t) = echo_header env h r is_tls"
    and body: "rec_body_bytes (sv_rec t) = take (nat (?m + 1)) ?out" and status: "rec_get_status (sv_rec t) = status_of r"
    by (simp_all add: t_def srv_wire_def rec_header_def)
  have eq: "fst (serve env we h r is_tls fresh_wire (Some pr)) =
      finish env h r (Some ?ec) is_tls None False
        (flush_dump (dump_response env r (Some (ex_request (request_info_of env r is_tls (take (nat (?m + 1)) (r_body r))) ?e)) t) t)"
    unfolding serve_rest_eq [OF assms(1)] fst_conv serve_rest_def assms(3) read sum.case serve_body_def cap sd Let_def
      prod.case assms(2) option.case echo_of_def [symmetric] t_def [symmetric] andthen_def on_exchange_def option.map
    using t_alive by simp
  have info: "request_info_of env r is_tls b = (request_info_of env r is_tls [])\<lparr>ri_body := b\<rparr>" for b
    by (simp add: request_info_of_def)
  have req: "ex_request (request_info_of env r is_tls (take (nat (?m + 1)) (r_body r))) ?e
      = ex_request (request_info_of env r is_tls (r_body r)) ?e"
    using ex_request_captured [of ?e "r_body r" "request_info_of env r is_tls []"] assms(4)
    unfolding em by (simp only: info [of "take (nat (?m + 1)) (r_body r)"] info [of "r_body r"])
  note served = echo_served [where we = we and is_tls = is_tls and p = "Some pr", OF assms(1-7)]
  have out: "pr_out ?p = pr_out pr" by (simp add: start_exchange_def Let_def)
  have cut: "ex_response p c hm' (take (nat (?m + 1)) ?out) now (ex_request i ?e) = ex_response p c hm' ?out now (ex_request i ?e)"
    for p c hm' now i
    using ex_response_captured [of "ex_request i ?e" p c hm' ?out now] assms(4) em by simp
  have "map_option pr_out (sv_printer (fst (serve env we h r is_tls fresh_wire (Some pr)))) = Some (pr_out pr @
    ex_buf (ex_response (r_proto r) (status_of r) (echo_header env h r is_tls) ?out (se_responded env)
      (ex_request (request_info_of env r is_tls (r_body r)) ?e)))"
    by (simp add: eq flush_dump_def dump_response_def on_exchange_def t_printer status body req cut pr_out_flush out hm)
  with served show ?thesis by simp
qed

section \<open>The dispatch at work\<close>

definition sample_ws :: ws_env where
  "sample_ws = \<lparr>we_accept = (\<lambda>_ _ rec. (Some ''refused'', rec)), we_type_name = (\<lambda>_. ''MessageText''),
     we_limit_error = ''read limited'', we_first_write = None, we_turns = []\<rparr>"

definition ca_handler :: handler where
  "ca_handler = (sample_handler [])\<lparr>h_ca_pem := Some ''PEM'', h_verbose := True, h_dump_cap := 1048577\<rparr>"

definition ca_request :: request where
  "ca_request = plain_request\<lparr>r_url := plain_url ''/ca'' []\<rparr>"

definition body_request :: request where
  "body_request = (sample_request ''GET'' ''response_body_only=true'' [])\<lparr>r_body := ''hi''\<rparr>"

abbreviation quiet_env :: srv_env where
  "quiet_env \<equiv> sample_env False (Inl ''refused'')"

lemma ca_handler_simps [simp]:
  "c_max_body_size (h_cfg ca_handler) = 1048576" "h_fwd ca_handler = None" "h_verbose ca_handler" "h_metrics ca_handler = None"
  "h_dump_cap ca_handler = 1048577" "\<not> is_preflight ca_handler r" "c_disable_request_logs (h_cfg ca_handler) = False"
  "ignored ca_handler path = False"
  by (simp_all add: ca_handler_def sample_handler_def new_handler_def is_preflight_def cors_enabled_def
      default_fields default_flags ignored_def)
    (simp only: default_config_def config.simps flag_bool_def new_flag_set_def map_of.simps fun_upd_apply fst_conv snd_conv, simp)

lemma ca_route: "route_of quiet_env ca_handler ca_request = ToCA ''PEM''"
  by (simp add: route_of_def ca_handler_def sample_handler_def new_handler_def ca_request_def plain_url_def
      default_fields default_flags)

lemma body_route: "route_of quiet_env ca_handler body_request = ToRest"
proof -
  have "\<not> equal_fold (h_get (r_header body_request) ''Upgrade'') ''websocket''"
    by code_simp
  then show ?thesis
    by (simp add: route_of_def ca_handler_def sample_handler_def new_handler_def body_request_def sample_request_def plain_url_def
      default_fields default_flags is_web_socket_upgrade_def)
qed

lemma body_request_parts:
  "status_of body_request = 200" "wait_of body_request = 0" "r_body body_request = ''hi''" "r_body_err body_request = None"
  by code_simp+

theorem ca_endpoint_exact_witness:
  "w_body (srv_wire (fst (serve quiet_env sample_ws ca_handler ca_request True fresh_wire None))) = ''PEM''"
  using ca_endpoint_exact [OF ca_route, of sample_ws True None] by blast

theorem local_routes_not_forwarded_witness:
  "serve quiet_env sample_ws (ca_handler\<lparr>h_fwd := Some sample_forwarder\<rparr>) ca_request True fresh_wire None
     = serve quiet_env sample_ws ca_handler ca_request True fresh_wire None"
  by (rule local_routes_not_forwarded) (simp add: ca_route)

theorem echo_body_view_witness:
  "cap_body (take 1048577 ''hi'') 1048576 = (''hi'', False)"
  using echo_body_view [of ca_handler "''hi''"] by (auto simp: max_i64_def read_limited_def body_limit_def i64_def)

text \<open>
  A body above a limit of three bytes, and an interim status: the client gets it, then 200 and three bytes, and
  the trace shows the whole exchange.
\<close>

definition trace_handler :: handler where
  "trace_handler = ca_handler\<lparr>h_cfg := default_config\<lparr>c_max_body_size := 3\<rparr>, h_dump_cap := 4\<rparr>"

definition trace_request :: request where
  "trace_request = (sample_request ''POST''
     ''response_body_only=true&x-set-response-status-code=103&x-set-response-content-type=text/x'' [])\<lparr>r_body := ''hello''\<rparr>"

lemma trace_handler_simps [simp]:
  "h_fwd trace_handler = None" "c_max_body_size (h_cfg trace_handler) = 3" "h_dump_cap trace_handler = 4" "h_verbose trace_handler"
  "\<not> is_preflight trace_handler r"
  by (simp_all add: trace_handler_def ca_handler_def sample_handler_def new_handler_def is_preflight_def cors_enabled_def)

lemma trace_request_parts:
  "status_of trace_request = 103" "wait_of trace_request = 0" "r_body trace_request = ''hello''" "r_body_err trace_request = None"
  by code_simp+

lemma trace_flags:
  "c_echo_back_to_client (h_cfg trace_handler)" "c_override_response_body_file_path (h_cfg trace_handler) = []"
  "c_tls_ca_endpoint (h_cfg trace_handler) = ''/ca''" "h_metrics trace_handler = None" "c_ws_enabled (h_cfg trace_handler)"
  "h_cors_all trace_handler = False" "h_cors_origins trace_handler = []"
  by (simp_all add: trace_handler_def ca_handler_def sample_handler_def new_handler_def default_fields default_flags)
    (simp_all only: default_config_def config.simps flag_bool_def flag_string_def new_flag_set_def map_of.simps fun_upd_apply
      fst_conv snd_conv, simp_all)

lemma trace_echo:
  "echo_text quiet_env trace_handler trace_request True = ''hel''"
  "echo_header quiet_env trace_handler trace_request True = [(''Content-Type'', [''text/x''])]"
proof -
  have q: "q_get (parse_query (u_raw_query (r_url trace_request))) query_body_only = ''true''"
    "shape_value trace_request header_content_type = ''text/x''"
    by code_simp+
  show "echo_text quiet_env trace_handler trace_request True = ''hel''"
    by (simp add: echo_text_def shaped_body_def trace_flags trace_request_parts q)
  show "echo_header quiet_env trace_handler trace_request True = [(''Content-Type'', [''text/x''])]"
    by (simp add: echo_header_def shaped_content_type_def q cors_headers_def cors_allowed_def cors_enabled_def trace_flags h_set_def Let_def)
qed

lemma trace_route: "route_of quiet_env trace_handler trace_request = ToRest"
proof -
  have "\<not> is_web_socket_upgrade quiet_env trace_request" "u_path (r_url trace_request) = ''/''" by code_simp+
  then show ?thesis
    by (simp add: route_of_def trace_flags)
qed

theorem serve_echo_response_witness:
  "w_status (srv_wire (fst (serve quiet_env sample_ws trace_handler trace_request True fresh_wire None))) = 200 \<and>
   w_info (srv_wire (fst (serve quiet_env sample_ws trace_handler trace_request True fresh_wire None)))
     = [(103, [(''Content-Type'', [''text/x''])])] \<and>
   w_body (srv_wire (fst (serve quiet_env sample_ws trace_handler trace_request True fresh_wire None))) = ''hel''"
  using serve_echo_response [OF trace_route, of sample_ws True None]
  by (simp add: trace_request_parts trace_echo max_i64_def informational_def final_status_def body_allowed_def)

lemma new_printer_simps:
  "pr_out (new_printer n) = []" "pr_max_body (new_printer n) = n" "\<not> pr_mu (new_printer n)"
  by (simp_all add: new_printer_def)

definition trace_text :: string where
  "trace_text = concat (map line
     [''* Request #1: 10.0.0.1:5 '' @ arrow @ '' https (HTTP/1.1)'',
      ''> POST /?response_body_only=true&x-set-response-status-code=103&x-set-response-content-type=text/x HTTP/1.1'',
      ''> Host: h'', ''>'', ''> hel'', ''* [body truncated]'',
      ''* Response #1: 103 (1ms)'', ''< HTTP/1.1 103 Early Hints'', ''< Content-Type: text/x'', ''<'', ''< hel''])"

theorem trace_shows_exchange_witness:
  "map_option pr_out (sv_printer (fst (serve quiet_env sample_ws trace_handler trace_request True fresh_wire
      (Some (new_printer 3))))) = Some trace_text"
proof -
  have wire: "w_sent (srv_wire (fst (serve quiet_env sample_ws trace_handler trace_request True fresh_wire (Some (new_printer 3)))))
      = [(''Content-Type'', [''text/x''])]"
    using echo_served [OF trace_route, of sample_ws True "Some (new_printer 3)"]
    by (simp add: trace_request_parts trace_echo max_i64_def)
  have dump: "ex_buf (ex_response (r_proto trace_request) 103 [(''Content-Type'', [''text/x''])] ''hel'' (se_responded quiet_env)
      (ex_request (request_info_of quiet_env trace_request True ''hello'')
        (fst (start_exchange (se_dump_start quiet_env) (new_printer 3))))) = trace_text"
    by code_simp
  show ?thesis
    using trace_shows_exchange [OF trace_route, of "new_printer 3" sample_ws True]
    by (simp add: trace_request_parts trace_echo max_i64_def wire dump new_printer_simps)
qed

definition metrics_handler :: handler where
  "metrics_handler = (sample_handler [])\<lparr>h_metrics :=
     Some (new_metrics \<lparr>mo_with_method = True, mo_with_status = True, mo_with_path = True, mo_metric_type = ''summary''\<rparr>)\<rparr>"

definition metrics_request :: request where
  "metrics_request = plain_request\<lparr>r_url := plain_url ''/metrics'' []\<rparr>"

lemma metrics_route: "route_of quiet_env metrics_handler metrics_request = ToMetrics"
  by (simp add: route_of_def metrics_handler_def sample_handler_def new_handler_def metrics_request_def plain_url_def
      default_fields default_flags)

lemma finish_alive:
  "h_metrics h = Some (new_metrics opts) \<Longrightarrow> \<not> sv_crashed s \<Longrightarrow> \<not> sv_crashed (finish env h r ec is_tls fl reserved s)"
  by (simp add: finish_def andthen_def observe_def new_metrics_def Let_def)

lemma metrics_alive:
  "\<not> sv_crashed (fst (serve quiet_env sample_ws metrics_handler metrics_request True fresh_wire None))"
proof -
  have page: "se_metrics_page quiet_env = (\<lambda>_. [])" by (simp add: sample_env_def)
  obtain opts where m: "h_metrics metrics_handler = Some (new_metrics opts)" by (simp add: metrics_handler_def)
  show ?thesis
    by (simp add: serve_def metrics_route serve_metrics_def page metrics_page_def andthen_def finish_alive [OF m] Let_def
        split: option.split)
qed

theorem serve_closes_books_witness:
  "books_closed quiet_env metrics_handler metrics_request True
     (fst (serve quiet_env sample_ws metrics_handler metrics_request True fresh_wire None))"
proof -
  obtain s c where run: "serve quiet_env sample_ws metrics_handler metrics_request True fresh_wire None = (s, c)"
    by (cases "serve quiet_env sample_ws metrics_handler metrics_request True fresh_wire None")
  show ?thesis
    using serve_closes_books [OF run] metrics_alive by (simp add: run metrics_route)
qed

end
