(* ===== verification/Steps.thy ===== *)
theory Steps
  imports Prelude
begin

text \<open>
  Traces of a labelled step relation, and two contracts of such relations: an invariant that the
  steps keep along the trace that led to a state, and a rank that every step lowers, which
  bounds the length of every trace.
\<close>

inductive trace :: "('s \<Rightarrow> 'e \<Rightarrow> 's \<Rightarrow> bool) \<Rightarrow> 's \<Rightarrow> 'e list \<Rightarrow> 's \<Rightarrow> bool" for step s where
  trace_nil: "trace step s [] s"
| trace_snoc: "trace step s es t \<Longrightarrow> step t e u \<Longrightarrow> trace step s (es @ [e]) u"

inductive_cases trace_nilE: "trace step s [] t"

text \<open>What holds of a state and of the events that led to it.\<close>

locale stepwise_invariant =
  fixes step :: "'s \<Rightarrow> 'e \<Rightarrow> 's \<Rightarrow> bool"
    and good :: "'e list \<Rightarrow> 's \<Rightarrow> bool"
    and start :: 's
  assumes good_start: "good [] start"
    and good_step: "good es t \<Longrightarrow> step t e u \<Longrightarrow> good (es @ [e]) u"
begin

lemma good_trace: "trace step start es t \<Longrightarrow> good es t"
  by (induction rule: trace.induct) (auto intro: good_start good_step)

end

locale ranked =
  fixes step :: "'s \<Rightarrow> 'e \<Rightarrow> 's \<Rightarrow> bool"
    and rank :: "'s \<Rightarrow> nat"
  assumes rank_down: "step t e u \<Longrightarrow> rank u < rank t"
begin

lemma trace_rank: "trace step s es t \<Longrightarrow> length es + rank t \<le> rank s"
proof (induction rule: trace.induct)
  case (trace_snoc es t e u)
  then show ?case using rank_down [of t e u] by simp
qed simp

lemma trace_length: "trace step s es t \<Longrightarrow> length es \<le> rank s"
  using trace_rank [of s es t] by simp

text \<open>No run goes on for ever.\<close>

lemma no_infinite_run: "\<not> (\<forall>i :: nat. step (f i) (e i) (f (Suc i)))"
proof
  assume run: "\<forall>i. step (f i) (e i) (f (Suc i))"
  have "i + rank (f i) \<le> rank (f 0)" for i
  proof (induction i)
    case (Suc i)
    then show ?case using rank_down [OF run [rule_format], of i] by linarith
  qed simp
  from this [of "Suc (rank (f 0))"] show False by simp
qed

end

end
