(* ===== verification/Server.thy ===== *)
theory Server
  imports Steps TlsMgr Serve
begin

text \<open>
  \<open>internal/server/server.go\<close>: what the configuration becomes (handlers, the two HTTP servers, the TLS configuration and
  the CA certificate), the binding of the listeners, and the life of the server: the two goroutines that serve,
  the channel their errors go through, the cancellation, and the graceful shutdown.
  The life is a step relation whose events are the steps of the goroutines, of the caller's
  context and of \<open>Run\<close> itself, in any order that the program allows.
\<close>

section \<open>Construction\<close>

record http_server =
  hs_handler :: handler
  hs_is_tls :: bool
  hs_h2c :: bool
  hs_max_header_bytes :: int
  hs_read_header_timeout :: int
  hs_tls_config :: "tls_config option"
  hs_h2_disabled :: bool

text \<open>A bound listener is its address.\<close>

record server =
  sr_cfg :: config
  sr_ca_pem :: "bytes option"
  sr_printer :: "printer option"
  sr_http :: http_server
  sr_https :: http_server
  sr_http_ln :: "string option"
  sr_https_ln :: "string option"

definition read_header_timeout :: int where
  "read_header_timeout = 30 * 1000000000"

definition feature_logs :: "config \<Rightarrow> message list" where
  "feature_logs cfg =
     (if c_prometheus_enabled cfg
      then [(Info, ''prometheus metrics enabled'',
             [(''path'', FStr (c_prometheus_metrics_path cfg)), (''type'', FStr (c_prometheus_metric_type cfg))])]
      else [])
     @ (if c_verbose cfg then [(Info, ''verbose wire dump enabled'', [])] else [])
     @ (case c_forward_target cfg of
          None \<Rightarrow> []
        | Some u \<Rightarrow>
            [(Info, ''forwarding mode enabled'',
              [(''target'', FStr (url_string u)), (''preserveHost'', Logging.FBool (c_forward_preserve_host cfg)),
               (''timeout'', FInteger (c_forward_timeout cfg)), (''skipVerify'', Logging.FBool (c_forward_skip_verify cfg))])])"

definition metrics_of :: "config \<Rightarrow> metrics option" where
  "metrics_of cfg =
     (if c_prometheus_enabled cfg
      then Some (new_metrics \<lparr>mo_with_method = c_prometheus_with_method cfg, mo_with_status = c_prometheus_with_status cfg,
                   mo_with_path = c_prometheus_with_path cfg, mo_metric_type = c_prometheus_metric_type cfg\<rparr>)
      else None)"

definition printer_of :: "config \<Rightarrow> printer option" where
  "printer_of cfg = (if c_verbose cfg then Some (new_printer (c_max_body_size cfg)) else None)"

definition forwarder_of :: "config \<Rightarrow> forwarder option" where
  "forwarder_of cfg =
     map_option (\<lambda>u. new_forwarder \<lparr>fo_target = u, fo_timeout = c_forward_timeout cfg,
                       fo_skip_verify = c_forward_skip_verify cfg, fo_preserve_host = c_forward_preserve_host cfg\<rparr>)
       (c_forward_target cfg)"

definition http_server_of :: "config \<Rightarrow> handler \<Rightarrow> http_server" where
  "http_server_of cfg h =
     \<lparr>hs_handler = h, hs_is_tls = False, hs_h2c = c_http2_h2c_enabled cfg, hs_max_header_bytes = c_max_header_size cfg,
      hs_read_header_timeout = read_header_timeout, hs_tls_config = None, hs_h2_disabled = False\<rparr>"

definition https_server_of :: "config \<Rightarrow> handler \<Rightarrow> tls_config option \<Rightarrow> http_server" where
  "https_server_of cfg h tls =
     \<lparr>hs_handler = h, hs_is_tls = True, hs_h2c = False, hs_max_header_bytes = c_max_header_size cfg,
      hs_read_header_timeout = read_header_timeout, hs_tls_config = tls,
      hs_h2_disabled = (c_https_enabled cfg \<and> \<not> c_http2_enabled cfg)\<rparr>"

definition new_server :: "tls_env \<Rightarrow> config \<Rightarrow> fsys \<Rightarrow> (string + server) \<times> message list \<times> fsys" where
  "new_server env cfg fs =
     (case (if c_https_enabled cfg
            then (case build env cfg fs of (res, logs, fs') \<Rightarrow>
                    (map_sum id (\<lambda>t. (Some (tr_config t), tr_ca_pem t)) res,
                     (Debug, ''assembling TLS configuration'', [(''mode'', FStr (c_tls_mode cfg))]) # logs, fs'))
            else (Inr (None, None), [], fs)) of
        (Inl e, logs, fs') \<Rightarrow> (Inl e, feature_logs cfg @ logs, fs')
      | (Inr (tls, pem), logs, fs') \<Rightarrow>
          (let h = new_handler cfg (metrics_of cfg) (printer_of cfg \<noteq> None) (forwarder_of cfg) pem
           in (Inr \<lparr>sr_cfg = cfg, sr_ca_pem = pem, sr_printer = printer_of cfg, sr_http = http_server_of cfg h,
                    sr_https = https_server_of cfg h tls, sr_http_ln = None, sr_https_ln = None\<rparr>,
               feature_logs cfg @ logs
                 @ (if c_http2_h2c_enabled cfg then [(Debug, ''h2c enabled on plaintext listener'', [])] else []),
               fs')))"

section \<open>Binding\<close>

definition listen_addr :: "string \<Rightarrow> int \<Rightarrow> string" where
  "listen_addr bind port = bind @ '':'' @ itoa port"

text \<open>\<open>net.Listen\<close>: given the listeners of this process, an address is bound or not.\<close>

type_synonym net_listen = "string list \<Rightarrow> string \<Rightarrow> string + string"

definition bind_plaintext :: "net_listen \<Rightarrow> server \<Rightarrow> string + server \<times> message list" where
  "bind_plaintext listen s =
     (let cfg = sr_cfg s; addr = listen_addr (c_bind_address cfg) (c_http_port cfg) in
      if \<not> c_http_enabled cfg then Inr (s, [])
      else case listen [] addr of
             Inl e \<Rightarrow> Inl (''binding plaintext listener on '' @ addr @ '': '' @ e)
           | Inr a \<Rightarrow> Inr (s\<lparr>sr_http_ln := Some a\<rparr>,
               [(Info, ''plaintext listener ready'', [(''addr'', FStr a), (''h2c'', Logging.FBool (c_http2_h2c_enabled cfg))])]))"

definition bind_tls :: "net_listen \<Rightarrow> server \<Rightarrow> string + server \<times> message list" where
  "bind_tls listen s =
     (let cfg = sr_cfg s; addr = listen_addr (c_bind_address cfg) (c_https_port cfg) in
      if \<not> c_https_enabled cfg then Inr (s, [])
      else case listen (case sr_http_ln s of None \<Rightarrow> [] | Some a \<Rightarrow> [a]) addr of
             Inl e \<Rightarrow> Inl (''binding TLS listener on '' @ addr @ '': '' @ e)
           | Inr a \<Rightarrow> Inr (s\<lparr>sr_https_ln := Some a\<rparr>,
               [(Info, ''TLS listener ready'', [(''addr'', FStr a), (''tlsMode'', FStr (c_tls_mode cfg)),
                  (''http2'', Logging.FBool (c_http2_enabled cfg)), (''mtls'', Logging.FBool (c_mtls_enable cfg))])]))"

text \<open>\<open>Start\<close>: when the second listener fails, the first stays bound.\<close>

definition start :: "net_listen \<Rightarrow> server \<Rightarrow> string option \<times> message list \<times> server" where
  "start listen s =
     (case bind_plaintext listen s of
        Inl e \<Rightarrow> (Some e, [], s)
      | Inr (s1, ms1) \<Rightarrow>
          (case bind_tls listen s1 of
             Inl e \<Rightarrow> (Some e, ms1, s1)
           | Inr (s2, ms2) \<Rightarrow> (None, ms1 @ ms2, s2)))"

definition http_addr :: "server \<Rightarrow> string" where
  "http_addr s = (case sr_http_ln s of None \<Rightarrow> [] | Some a \<Rightarrow> a)"

definition https_addr :: "server \<Rightarrow> string" where
  "https_addr s = (case sr_https_ln s of None \<Rightarrow> [] | Some a \<Rightarrow> a)"

section \<open>Running\<close>

text \<open>
  A goroutine that serves a listener: not started because there is none, started, in \<open>Serve\<close>, done. \<open>Run\<close> itself waits,
  shuts the remaining servers down with the last error so far, or has returned. A server is named by whether it is the TLS one.
\<close>

datatype worker = Absent | Started | Serving | Done

datatype phase = Selecting | Closing "bool list" "string option" | Returned "string option"

record run_state =
  rs_http :: worker
  rs_https :: worker
  rs_chan :: "string list"
  rs_cancelled :: bool
  rs_phase :: phase
  rs_log :: "message list"

datatype run_event =
    GoesServing bool
  | ServeReturns bool "string option"
  | Cancel
  | TakeError
  | TakeCancel
  | ShutDown bool "string option"
  | Finish

definition worker_of :: "bool \<Rightarrow> run_state \<Rightarrow> worker" where
  "worker_of tls st = (if tls then rs_https st else rs_http st)"

definition set_worker :: "bool \<Rightarrow> worker \<Rightarrow> run_state \<Rightarrow> run_state" where
  "set_worker tls w st = (if tls then st\<lparr>rs_https := w\<rparr> else st\<lparr>rs_http := w\<rparr>)"

definition serving_log :: "bool \<Rightarrow> server \<Rightarrow> message" where
  "serving_log tls s =
     (if tls then (Debug, ''serving TLS listener'', [(''addr'', FStr (https_addr s))])
      else (Debug, ''serving plaintext listener'', [(''addr'', FStr (http_addr s))]))"

definition listener_error :: "bool \<Rightarrow> string \<Rightarrow> string" where
  "listener_error tls e = (if tls then ''TLS listener: '' else ''plaintext listener: '') @ e"

definition err_cap :: nat where
  "err_cap = 2"

text \<open>\<open>Run\<close> up to its \<open>select\<close>; \<open>Inl\<close> is its early return, with what was logged.\<close>

definition run_begin :: "server \<Rightarrow> run_state" where
  "run_begin s =
     \<lparr>rs_http = (if sr_http_ln s = None then Absent else Started), rs_https = (if sr_https_ln s = None then Absent else Started),
      rs_chan = [], rs_cancelled = False, rs_phase = Selecting, rs_log = []\<rparr>"

definition run_enter :: "net_listen \<Rightarrow> server \<Rightarrow> string \<times> message list + server \<times> run_state" where
  "run_enter listen s =
     (if sr_http_ln s = None \<and> sr_https_ln s = None
      then (case start listen s of
              (Some e, ms, _) \<Rightarrow> Inl (e, ms)
            | (None, ms, s') \<Rightarrow> Inr (s', (run_begin s')\<lparr>rs_log := ms\<rparr>))
      else Inr (s, run_begin s))"

definition forced :: "string \<Rightarrow> string" where
  "forced e = ''forced shutdown: '' @ e"

definition finish_log :: "string option \<Rightarrow> message" where
  "finish_log err =
     (case err of
        Some e \<Rightarrow> (Error, ''forced shutdown: connections did not drain in time'', [(''error'', FStr e)])
      | None \<Rightarrow> (Info, ''shutdown complete'', []))"

text \<open>
  The steps. \<open>Serve\<close> may fail at any time; its \<open>ErrServerClosed\<close>, which is not sent, is \<open>ServeReturns tls None\<close>. A send on the
  channel needs room in it. \<open>Shutdown\<close> is called on both servers, whether they have a listener or not,
  and the last error counts.
\<close>

inductive run_step :: "server \<Rightarrow> run_state \<Rightarrow> run_event \<Rightarrow> run_state \<Rightarrow> bool" for s where
  goes_serving: "worker_of tls st = Started \<Longrightarrow>
    run_step s st (GoesServing tls) ((set_worker tls Serving st)\<lparr>rs_log := rs_log st @ [serving_log tls s]\<rparr>)"
| serve_closed: "worker_of tls st = Serving \<Longrightarrow> run_step s st (ServeReturns tls None) (set_worker tls Done st)"
| serve_failed: "worker_of tls st = Serving \<Longrightarrow> length (rs_chan st) < err_cap \<Longrightarrow>
    run_step s st (ServeReturns tls (Some e)) ((set_worker tls Done st)\<lparr>rs_chan := rs_chan st @ [listener_error tls e]\<rparr>)"
| cancel: "\<not> rs_cancelled st \<Longrightarrow> run_step s st Cancel (st\<lparr>rs_cancelled := True\<rparr>)"
| take_error: "rs_phase st = Selecting \<Longrightarrow> rs_chan st = e # es \<Longrightarrow>
    run_step s st TakeError (st\<lparr>rs_chan := es, rs_phase := Returned (Some e)\<rparr>)"
| take_cancel: "rs_phase st = Selecting \<Longrightarrow> rs_cancelled st \<Longrightarrow>
    run_step s st TakeCancel
      (st\<lparr>rs_phase := Closing [False, True] None,
         rs_log := rs_log st @ [(Info, ''shutting down'', [(''drainTimeout'', FInteger (c_shutdown_timeout (sr_cfg s)))])]\<rparr>)"
| shut_down: "rs_phase st = Closing (tls # rest) err \<Longrightarrow>
    run_step s st (ShutDown tls res) (st\<lparr>rs_phase := Closing rest (case res of Some e \<Rightarrow> Some e | None \<Rightarrow> err)\<rparr>)"
| finish: "rs_phase st = Closing [] err \<Longrightarrow>
    run_step s st Finish (st\<lparr>rs_phase := Returned (map_option forced err), rs_log := rs_log st @ [finish_log err]\<rparr>)"

code_pred run_step .

inductive_cases goes_servingE [elim!]: "run_step s st (GoesServing tls) st'"
inductive_cases serve_returnsE [elim!]: "run_step s st (ServeReturns tls res) st'"
inductive_cases cancelE [elim!]: "run_step s st Cancel st'"
inductive_cases take_errorE [elim!]: "run_step s st TakeError st'"
inductive_cases take_cancelE [elim!]: "run_step s st TakeCancel st'"
inductive_cases shut_downE [elim!]: "run_step s st (ShutDown tls res) st'"
inductive_cases finishE [elim!]: "run_step s st Finish st'"

section \<open>Every run ends\<close>

fun worker_rank :: "worker \<Rightarrow> nat" where
  "worker_rank Started = 2"
| "worker_rank Serving = 1"
| "worker_rank _ = 0"

fun phase_rank :: "phase \<Rightarrow> nat" where
  "phase_rank Selecting = 4"
| "phase_rank (Closing bs _) = Suc (length bs)"
| "phase_rank (Returned _) = 0"

definition run_rank :: "run_state \<Rightarrow> nat" where
  "run_rank st = worker_rank (rs_http st) + worker_rank (rs_https st) + (if rs_cancelled st then 0 else 1) + phase_rank (rs_phase st)"

lemma worker_set [simp]: "worker_of b (set_worker tls w st) = (if b = tls then w else worker_of b st)"
  by (cases b; cases tls) (simp_all add: worker_of_def set_worker_def)

lemma set_worker_keeps [simp]:
  "rs_chan (set_worker tls w st) = rs_chan st" "rs_cancelled (set_worker tls w st) = rs_cancelled st"
  "rs_phase (set_worker tls w st) = rs_phase st" "rs_log (set_worker tls w st) = rs_log st"
  by (simp_all add: set_worker_def)

lemma worker_of_keeps [simp]:
  "worker_of b (st\<lparr>rs_chan := ch\<rparr>) = worker_of b st" "worker_of b (st\<lparr>rs_cancelled := c\<rparr>) = worker_of b st"
  "worker_of b (st\<lparr>rs_phase := p\<rparr>) = worker_of b st" "worker_of b (st\<lparr>rs_log := l\<rparr>) = worker_of b st"
  by (simp_all add: worker_of_def)

lemma workers: "rs_http st = worker_of False st" "rs_https st = worker_of True st"
  by (simp_all add: worker_of_def)

interpretation run: ranked "run_step s" run_rank for s
proof unfold_locales
  fix t e u
  assume "run_step s t e u"
  then show "run_rank u < run_rank t"
    by cases (auto simp: run_rank_def set_worker_def worker_of_def split: if_splits)
qed

section \<open>What a run does\<close>

text \<open>The answers of \<open>Shutdown\<close> in a trace, and the error that the loop over the servers ends with.\<close>

fun shutdowns :: "run_event list \<Rightarrow> (bool \<times> string option) list" where
  "shutdowns [] = []"
| "shutdowns (ShutDown tls res # es) = (tls, res) # shutdowns es"
| "shutdowns (_ # es) = shutdowns es"

lemma shutdowns_append [simp]: "shutdowns (es @ fs) = shutdowns es @ shutdowns fs"
  by (induction es rule: shutdowns.induct) simp_all

lemma map_fst_two: "map fst rs = [a, b] \<Longrightarrow> \<exists>r1 r2. rs = [(a, r1), (b, r2)]"
  by (auto simp: map_eq_Cons_conv)

definition last_error :: "(bool \<times> string option) list \<Rightarrow> string option" where
  "last_error rs = foldl (\<lambda>err (_, res). case res of Some e \<Rightarrow> Some e | None \<Rightarrow> err) None rs"

lemma last_error_simps [simp]:
  "last_error [] = None" "last_error (rs @ [(tls, res)]) = (case res of Some e \<Rightarrow> Some e | None \<Rightarrow> last_error rs)"
  by (simp_all add: last_error_def split: option.split)

definition sent :: "run_event list \<Rightarrow> string \<Rightarrow> bool" where
  "sent es e \<longleftrightarrow> (\<exists>tls t. ServeReturns tls (Some t) \<in> set es \<and> e = listener_error tls t)"

definition busy :: "worker \<Rightarrow> nat" where
  "busy w = (if w = Started \<or> w = Serving then 1 else 0)"

lemma busy_simps [simp]: "busy Started = 1" "busy Serving = 1" "busy Done = 0" "busy Absent = 0"
  by (simp_all add: busy_def)

fun phase_ok :: "run_event list \<Rightarrow> phase \<Rightarrow> bool" where
  "phase_ok es Selecting \<longleftrightarrow> shutdowns es = []"
| "phase_ok es (Closing bs err) \<longleftrightarrow>
     Cancel \<in> set es \<and> map fst (shutdowns es) @ bs = [False, True] \<and> err = last_error (shutdowns es)"
| "phase_ok es (Returned r) \<longleftrightarrow>
     (shutdowns es = [] \<and> (\<exists>e. sent es e \<and> r = Some e)) \<or>
     (Cancel \<in> set es \<and> map fst (shutdowns es) = [False, True] \<and> r = map_option forced (last_error (shutdowns es)))"

definition has_listener :: "bool \<Rightarrow> server \<Rightarrow> bool" where
  "has_listener tls s \<longleftrightarrow> (if tls then sr_https_ln s else sr_http_ln s) \<noteq> None"

definition run_ok :: "server \<Rightarrow> run_event list \<Rightarrow> run_state \<Rightarrow> bool" where
  "run_ok s es st \<longleftrightarrow>
     length (rs_chan st) + busy (worker_of False st) + busy (worker_of True st) \<le> err_cap \<and>
     (\<forall>tls. has_listener tls s \<longleftrightarrow> worker_of tls st \<noteq> Absent) \<and>
     (\<forall>tls e. ServeReturns tls e \<in> set es \<longrightarrow> has_listener tls s) \<and>
     list_all (sent es) (rs_chan st) \<and> (rs_cancelled st \<longleftrightarrow> Cancel \<in> set es) \<and> phase_ok es (rs_phase st)"

lemma sent_more: "sent es e \<Longrightarrow> sent (es @ fs) e"
  by (auto simp: sent_def)

lemma sent_more_all: "list_all (sent es) ch \<Longrightarrow> list_all (sent (es @ fs)) ch"
  by (auto simp: list_all_iff sent_more)

lemma phase_more: "phase_ok es p \<Longrightarrow> shutdowns fs = [] \<Longrightarrow> phase_ok (es @ fs) p"
  by (cases p) (auto intro: sent_more)

lemma run_ok_step:
  assumes "run_ok s es st" "run_step s st e st'"
  shows "run_ok s (es @ [e]) st'"
  using assms(2)
proof cases
  case (goes_serving tls)
  with assms(1) show ?thesis
    by (cases tls) (auto simp: run_ok_def sent_more_all phase_more)
next
  case (serve_closed tls)
  with assms(1) show ?thesis
    by (cases tls) (auto simp: run_ok_def sent_more_all phase_more)
next
  case (serve_failed tls t)
  with assms(1) show ?thesis
    by (cases tls) (auto simp: run_ok_def sent_more_all phase_more, auto simp: sent_def)
next
  case cancel
  with assms(1) show ?thesis
    by (auto simp: run_ok_def sent_more_all phase_more)
next
  case (take_error t ts)
  with assms(1) show ?thesis
    by (auto simp: run_ok_def sent_more_all sent_more)
next
  case take_cancel
  with assms(1) show ?thesis
    by (auto simp: run_ok_def sent_more_all)
next
  case (shut_down tls rest err res)
  with assms(1) show ?thesis
    by (auto simp: run_ok_def sent_more_all split: option.splits)
next
  case (finish err)
  with assms(1) show ?thesis
    by (auto simp: run_ok_def sent_more_all)
qed

interpretation run: stepwise_invariant "run_step s" "run_ok s" "run_begin s" for s
proof unfold_locales
  show "run_ok s [] (run_begin s)"
    by (auto simp: run_ok_def run_begin_def worker_of_def has_listener_def err_cap_def)
qed (rule run_ok_step)

lemma run_result:
  assumes "trace (run_step s) (run_begin s) es st" "rs_phase st = Returned r"
  shows "(\<exists>tls e. ServeReturns tls (Some e) \<in> set es \<and> has_listener tls s \<and> shutdowns es = [] \<and>
       r = Some ((if tls then ''TLS listener: '' else ''plaintext listener: '') @ e)) \<or>
    (Cancel \<in> set es \<and> (\<exists>r1 r2. shutdowns es = [(False, r1), (True, r2)] \<and>
       r = map_option (\<lambda>e. ''forced shutdown: '' @ e) (case r2 of Some e \<Rightarrow> Some e | None \<Rightarrow> r1)))"
proof -
  have ok: "run_ok s es st"
    using run.good_trace [OF assms(1)] .
  then have ls: "ServeReturns tls e \<in> set es \<Longrightarrow> has_listener tls s" for tls e
    by (auto simp: run_ok_def)
  from ok assms(2) have "phase_ok es (Returned r)"
    by (simp add: run_ok_def)
  then consider (failed) e where "shutdowns es = []" "sent es e" "r = Some e"
    | (drained) "Cancel \<in> set es" "map fst (shutdowns es) = [False, True]" "r = map_option forced (last_error (shutdowns es))"
    by auto
  then show ?thesis
  proof cases
    case failed
    then obtain tls t where "ServeReturns tls (Some t) \<in> set es" "e = listener_error tls t"
      by (auto simp: sent_def)
    with failed ls show ?thesis
      by (intro disjI1 exI [of _ tls] exI [of _ t]) (simp add: listener_error_def)
  next
    case drained
    obtain r1 r2 where "shutdowns es = [(False, r1), (True, r2)]"
      using map_fst_two [OF drained(2)] by (elim exE)
    moreover have "last_error [(False, r1), (True, r2)] = (case r2 of Some e \<Rightarrow> Some e | None \<Rightarrow> r1)" for r1 r2
      by (simp add: last_error_def split: option.split)
    ultimately show ?thesis
      using drained by (intro disjI2 conjI exI [of _ r1] exI [of _ r2]) (simp_all add: forced_def [abs_def])
  qed
qed

text \<open>
  C8: What a run returns: either the error of a listener that was bound, with its prefix, and then no server was shut
  down; or, after a cancellation, both servers were shut down, in order, once each, and the result is
  a clean one exactly when both were, and otherwise the last of their errors.
\<close>
theorem run_outcome:
  assumes "trace (run_step s) (run_begin s) es st" "rs_phase st = Returned r"
  shows "(\<exists>tls e. ServeReturns tls (Some e) \<in> set es \<and> has_listener tls s \<and> shutdowns es = [] \<and>
       r = Some ((if tls then ''TLS listener: '' else ''plaintext listener: '') @ e)) \<or>
    (Cancel \<in> set es \<and> (\<exists>r1 r2. shutdowns es = [(False, r1), (True, r2)] \<and>
       r = map_option (\<lambda>e. ''forced shutdown: '' @ e) (case r2 of Some e \<Rightarrow> Some e | None \<Rightarrow> r1)))"
  using assms by (rule run_result)

text \<open>The steps of \<open>Run\<close> itself, and those of the goroutine that serves one of the listeners.\<close>

fun own_step :: "run_event \<Rightarrow> bool" where
  "own_step TakeError = True"
| "own_step TakeCancel = True"
| "own_step (ShutDown _ _) = True"
| "own_step Finish = True"
| "own_step _ = False"

fun serving_step :: "bool \<Rightarrow> run_event \<Rightarrow> bool" where
  "serving_step tls (GoesServing b) \<longleftrightarrow> b = tls"
| "serving_step tls (ServeReturns b _) \<longleftrightarrow> b = tls"
| "serving_step tls _ \<longleftrightarrow> False"

definition shut_all :: "(bool \<times> string option) list \<Rightarrow> run_event list" where
  "shut_all rs = map (\<lambda>(tls, r). ShutDown tls r) rs"

lemma shut_all_simps [simp]: "shut_all [] = []" "shut_all ((tls, r) # rs) = ShutDown tls r # shut_all rs"
  "shut_all (rs @ qs) = shut_all rs @ shut_all qs"
  by (simp_all add: shut_all_def)

fun own_order :: "run_event list \<Rightarrow> phase \<Rightarrow> bool" where
  "own_order own Selecting \<longleftrightarrow> own = []"
| "own_order own (Closing bs _) \<longleftrightarrow> (\<exists>rs. own = TakeCancel # shut_all rs \<and> map fst rs @ bs = [False, True])"
| "own_order own (Returned _) \<longleftrightarrow> own = [TakeError] \<or> (\<exists>r1 r2. own = [TakeCancel, ShutDown False r1, ShutDown True r2, Finish])"

fun serving_order :: "bool \<Rightarrow> run_event list \<Rightarrow> worker \<Rightarrow> bool" where
  "serving_order tls es Serving \<longleftrightarrow> es = [GoesServing tls]"
| "serving_order tls es Done \<longleftrightarrow> (\<exists>r. es = [GoesServing tls, ServeReturns tls r])"
| "serving_order tls es _ \<longleftrightarrow> es = []"

definition order_ok :: "run_event list \<Rightarrow> run_state \<Rightarrow> bool" where
  "order_ok es st \<longleftrightarrow> own_order (filter own_step es) (rs_phase st) \<and>
     (\<forall>tls. serving_order tls (filter (serving_step tls) es) (worker_of tls st)) \<and>
     filter ((=) Cancel) es = (if rs_cancelled st then [Cancel] else [])"

lemma own_order_shut:
  assumes "own_order own (Closing (tls # rest) err)"
  shows "own_order (own @ [ShutDown tls res]) (Closing rest err')"
proof -
  obtain rs where "own = TakeCancel # shut_all rs" "map fst rs @ tls # rest = [False, True]"
    using assms by auto
  then show ?thesis by (auto intro!: exI [of _ "rs @ [(tls, res)]"])
qed

lemma own_order_finish: "own_order own (Closing [] err) \<Longrightarrow> own_order (own @ [Finish]) (Returned r)"
  by (auto dest: map_fst_two)

interpretation order: stepwise_invariant "run_step s" order_ok "run_begin s" for s
proof unfold_locales
  show "order_ok [] (run_begin s)"
    by (auto simp: order_ok_def run_begin_def worker_of_def)
next
  fix es t e u
  assume ok: "order_ok es t" and step: "run_step s t e u"
  have w: "serving_order tls (filter (serving_step tls) es) (worker_of tls t)" for tls
    using ok by (simp add: order_ok_def)
  from step show "order_ok (es @ [e]) u"
  proof cases
    case (goes_serving tls)
    with ok w [of tls] show ?thesis by (auto simp: order_ok_def)
  next
    case (serve_closed tls)
    with ok w [of tls] show ?thesis by (auto simp: order_ok_def)
  next
    case (serve_failed tls)
    with ok w [of tls] show ?thesis by (auto simp: order_ok_def)
  next
    case (shut_down tls rest err res)
    with ok show ?thesis using own_order_shut by (simp add: order_ok_def)
  next
    case (finish err)
    with ok show ?thesis using own_order_finish by (simp add: order_ok_def)
  qed (use ok in \<open>auto simp: order_ok_def\<close>)
qed

text \<open>
  C24: A run is short: whatever the order of events, \<open>Run\<close> itself either takes one error and nothing more, or takes the
  cancellation, shuts down the plaintext server, then the TLS one, and finishes, as far as it has come, and never more
  than that; each serving goroutine starts to serve and returns, at most once each, and does nothing without a listener;
  so no run goes on for ever.
\<close>
theorem run_bounded:
  assumes "trace (run_step s) (run_begin s) es st"
  shows "(filter own_step es = [TakeError] \<or>
      (\<exists>r1 r2 rest. filter own_step es @ rest = [TakeCancel, ShutDown False r1, ShutDown True r2, Finish])) \<and>
    (\<forall>tls. \<exists>r rest. filter (serving_step tls) es @ rest = (if has_listener tls s then [GoesServing tls, ServeReturns tls r] else [])) \<and>
    length (filter ((=) Cancel) es) \<le> 1 \<and>
    \<not> (\<exists>f ev. f 0 = run_begin s \<and> (\<forall>i :: nat. run_step s (f i) (ev i) (f (Suc i))))"
proof (intro conjI allI)
  note ok = order.good_trace [OF assms]
  show "filter own_step es = [TakeError] \<or>
      (\<exists>r1 r2 rest. filter own_step es @ rest = [TakeCancel, ShutDown False r1, ShutDown True r2, Finish])"
  proof (cases "rs_phase st")
    case (Closing bs err)
    then obtain rs where own: "filter own_step es = TakeCancel # shut_all rs" "map fst rs @ bs = [False, True]"
      using ok by (auto simp: order_ok_def)
    then consider "rs = []" | r1 where "rs = [(False, r1)]" | r1 r2 where "rs = [(False, r1), (True, r2)]"
      by (auto simp: append_eq_Cons_conv map_eq_Cons_conv)
    then show ?thesis by cases (simp_all add: own)
  qed (use ok in \<open>auto simp: order_ok_def\<close>)
  show "length (filter ((=) Cancel) es) \<le> 1"
    using ok by (simp add: order_ok_def)
  fix tls
  have w: "serving_order tls (filter (serving_step tls) es) (worker_of tls st)" for tls
    using ok by (simp add: order_ok_def)
  have "has_listener tls s \<longleftrightarrow> worker_of tls st \<noteq> Absent"
    using run.good_trace [OF assms] by (simp add: run_ok_def)
  then show "\<exists>r rest. filter (serving_step tls) es @ rest = (if has_listener tls s then [GoesServing tls, ServeReturns tls r] else [])"
    using w [of tls] by (cases "worker_of tls st") auto
next
  show "\<not> (\<exists>f ev. f 0 = run_begin s \<and> (\<forall>i :: nat. run_step s (f i) (ev i) (f (Suc i))))"
    using run.no_infinite_run by blast
qed

text \<open>
  C25: A cancelled run returns: after the cancellation, or with an error waiting in the channel, \<open>Run\<close>
  can always take a step of its own until it has returned.
\<close>
theorem run_progresses:
  assumes "trace (run_step s) (run_begin s) es st" "Cancel \<in> set es \<or> rs_chan st \<noteq> []"
    and "\<And>e st'. own_step e \<Longrightarrow> \<not> run_step s st e st'"
  shows "\<exists>r. rs_phase st = Returned r"
proof -
  have stuck: "run_step s st e st' \<Longrightarrow> own_step e \<Longrightarrow> False" for e st'
    using assms(3) by blast
  have seen: "rs_cancelled st \<longleftrightarrow> Cancel \<in> set es"
    using run.good_trace [OF assms(1)] by (simp add: run_ok_def)
  show ?thesis
  proof (cases "rs_phase st")
    case Selecting
    then show ?thesis
      using assms(2) seen stuck [OF run_step.take_cancel [OF Selecting]] stuck [OF run_step.take_error [OF Selecting]]
      by (cases "rs_chan st") simp_all
  next
    case (Closing bs err)
    show ?thesis
    proof (cases bs)
      case Nil
      with Closing stuck [OF run_step.finish, of err] show ?thesis by simp
    next
      case (Cons b rest)
      with Closing stuck [OF run_step.shut_down, of b rest err None] show ?thesis by simp
    qed
  qed simp
qed

text \<open>
  C26: No goroutine leaks on the channel: whenever a serving goroutine fails, before the run returned or after, there is room
  for its error, although nobody may receive it.
\<close>
theorem errors_never_block:
  assumes "trace (run_step s) (run_begin s) es st" "worker_of tls st = Serving"
  shows "\<exists>st'. run_step s st (ServeReturns tls (Some e)) st'"
proof -
  have "length (rs_chan st) + busy (worker_of False st) + busy (worker_of True st) \<le> err_cap"
    using run.good_trace [OF assms(1)] by (simp add: run_ok_def)
  then have "length (rs_chan st) < err_cap"
    using assms(2) by (cases tls) simp_all
  then show ?thesis
    using run_step.serve_failed [OF assms(2)] by blast
qed

section \<open>Addresses\<close>

lemma itoa_no_colon: "CHR '':'' \<notin> set (itoa i)" "CHR ''['' \<notin> set (itoa i)" "CHR '']'' \<notin> set (itoa i)"
  by (auto simp: itoa_def nat_dec_other)

text \<open>
  Which bind addresses work: \<open>host:port\<close> is a network address of the host and the port when the bind address is empty, a
  name or an IPv4 address, or an IPv6 address in brackets; an IPv6 address without brackets gives no address.
\<close>
theorem listen_addr_splits:
  assumes "CHR ''['' \<notin> set h" "CHR '']'' \<notin> set h"
  shows "split_host_port (listen_addr h port) = (if CHR '':'' \<in> set h then None else Some (h, itoa port)) \<and>
    split_host_port (listen_addr (''['' @ h @ '']'') port) = Some (h, itoa port)"
proof
  show "split_host_port (listen_addr h port) = (if CHR '':'' \<in> set h then None else Some (h, itoa port))"
  proof (cases "CHR '':'' \<in> set h")
    case True
    then obtain c r where "h = c # r" "c \<noteq> CHR ''[''"
      using assms(1) by (cases h) auto
    with True show ?thesis
      using last_index_append [OF itoa_no_colon(1), of h] by (simp add: listen_addr_def split_host_port_def)
  next
    case False
    then show ?thesis
      using split_host_port_plain [OF False assms itoa_no_colon] by (simp add: listen_addr_def)
  qed
  show "split_host_port (listen_addr (''['' @ h @ '']'') port) = Some (h, itoa port)"
    using split_host_port_bracket [OF assms itoa_no_colon] by (simp add: listen_addr_def)
qed

lemma bind_plaintext_done:
  assumes "bind_plaintext listen s = Inr (s1, ms)"
  shows "if c_http_enabled (sr_cfg s)
    then \<exists>a. s1 = s\<lparr>sr_http_ln := Some a\<rparr> \<and> listen [] (listen_addr (c_bind_address (sr_cfg s)) (c_http_port (sr_cfg s))) = Inr a
    else s1 = s"
  using assms by (simp add: bind_plaintext_def Let_def split: sum.splits if_splits)

lemma bind_tls_done:
  assumes "bind_tls listen s = Inr (s1, ms)"
  shows "if c_https_enabled (sr_cfg s)
    then \<exists>a. s1 = s\<lparr>sr_https_ln := Some a\<rparr> \<and>
      listen (case sr_http_ln s of None \<Rightarrow> [] | Some a \<Rightarrow> [a])
        (listen_addr (c_bind_address (sr_cfg s)) (c_https_port (sr_cfg s))) = Inr a
    else s1 = s"
  using assms by (simp add: bind_tls_def Let_def split: sum.splits if_splits)

lemma start_cfg: "start listen s = (r, ms, s') \<Longrightarrow> sr_cfg s' = sr_cfg s"
  by (auto simp: start_def bind_plaintext_def bind_tls_def Let_def split: sum.splits if_splits)

lemma start_done:
  assumes "start listen s = (None, ms, s')" "sr_http_ln s = None" "sr_https_ln s = None" "config_ok (sr_cfg s)"
  shows "(has_listener False s' \<longleftrightarrow> c_http_enabled (sr_cfg s)) \<and> (has_listener True s' \<longleftrightarrow> c_https_enabled (sr_cfg s)) \<and>
    (c_http_enabled (sr_cfg s) \<longrightarrow>
       listen [] (listen_addr (c_bind_address (sr_cfg s)) (c_http_port (sr_cfg s))) = Inr (http_addr s')) \<and>
    (c_https_enabled (sr_cfg s) \<longrightarrow>
       listen (if c_http_enabled (sr_cfg s) then [http_addr s'] else [])
         (listen_addr (c_bind_address (sr_cfg s)) (c_https_port (sr_cfg s))) = Inr (https_addr s')) \<and>
    run_enter listen s' = Inr (s', run_begin s')"
proof -
  obtain s1 ms1 ms2 where b: "bind_plaintext listen s = Inr (s1, ms1)" "bind_tls listen s1 = Inr (s', ms2)"
    using assms(1) by (auto simp: start_def split: sum.splits)
  have on: "c_http_enabled (sr_cfg s) \<or> c_https_enabled (sr_cfg s)"
    using assms(4) by (simp add: config_ok_def)
  show ?thesis
  proof (cases "c_http_enabled (sr_cfg s)")
    case True
    then obtain a where "s1 = s\<lparr>sr_http_ln := Some a\<rparr>"
      "listen [] (listen_addr (c_bind_address (sr_cfg s)) (c_http_port (sr_cfg s))) = Inr a"
      using bind_plaintext_done [OF b(1)] by auto
    with True assms(2,3) bind_tls_done [OF b(2)] show ?thesis
      by (cases "c_https_enabled (sr_cfg s)") (auto simp: has_listener_def http_addr_def https_addr_def run_enter_def)
  next
    case False
    then have "s1 = s" using bind_plaintext_done [OF b(1)] by simp
    with False on assms(2,3) bind_tls_done [OF b(2)] show ?thesis
      by (auto simp: has_listener_def http_addr_def https_addr_def run_enter_def)
  qed
qed

text \<open>
  What \<open>Start\<close> binds: when it succeeds, there is a listener exactly for each enabled protocol, bound at the configured
  address and port, so that with a valid configuration \<open>Run\<close> does not bind anything itself.
\<close>
theorem start_binds:
  assumes "start listen s = (None, ms, s')" "sr_http_ln s = None" "sr_https_ln s = None" "config_ok (sr_cfg s)"
  shows "(has_listener False s' \<longleftrightarrow> c_http_enabled (sr_cfg s)) \<and> (has_listener True s' \<longleftrightarrow> c_https_enabled (sr_cfg s)) \<and>
    (c_http_enabled (sr_cfg s) \<longrightarrow>
       listen [] (listen_addr (c_bind_address (sr_cfg s)) (c_http_port (sr_cfg s))) = Inr (http_addr s')) \<and>
    (c_https_enabled (sr_cfg s) \<longrightarrow>
       listen (if c_http_enabled (sr_cfg s) then [http_addr s'] else [])
         (listen_addr (c_bind_address (sr_cfg s)) (c_https_port (sr_cfg s))) = Inr (https_addr s')) \<and>
    run_enter listen s' = Inr (s', run_begin s')"
  using assms by (rule start_done)

section \<open>The published authority\<close>

lemma new_server_parts:
  assumes "new_server env cfg fs = (Inr s, ms, fs')"
  shows "\<exists>h. h = new_handler cfg (metrics_of cfg) (printer_of cfg \<noteq> None) (forwarder_of cfg) (sr_ca_pem s) \<and>
    sr_cfg s = cfg \<and> sr_http s = http_server_of cfg h \<and> sr_https s = https_server_of cfg h (hs_tls_config (sr_https s)) \<and>
    sr_http_ln s = None \<and> sr_https_ln s = None \<and> sr_printer s = printer_of cfg \<and>
    (if c_https_enabled cfg
     then \<exists>res logs. build env cfg fs = (Inr res, logs, fs') \<and> hs_tls_config (sr_https s) = Some (tr_config res) \<and>
       sr_ca_pem s = tr_ca_pem res
     else hs_tls_config (sr_https s) = None \<and> sr_ca_pem s = None \<and> fs' = fs)"
  using assms
  by (auto simp: new_server_def https_server_of_def Let_def map_sum_def split: if_splits prod.splits sum.splits)

definition signed_with :: "(cert_template \<Rightarrow> parent \<Rightarrow> bytes \<Rightarrow> bytes \<Rightarrow> string + bytes) \<Rightarrow> ca \<Rightarrow> tls_cert \<Rightarrow> bool" where
  "signed_with create a cert \<longleftrightarrow>
     (\<exists>tmpl pub der. tc_chain cert = [der] \<and> create tmpl (SignedBy (ca_cert a)) pub (ca_key a) = Inr der)"

lemma mint_signed:
  assumes "mint env a sni ttl = Inr cert"
  shows "signed_with (ce_create env) a cert"
proof -
  obtain serial key der where "ce_create env (leaf_template env serial sni ttl) (SignedBy (ca_cert a)) (ce_public_of env key) (ca_key a) = Inr der"
    "tc_chain cert = [der]"
    using assms by (auto simp: mint_def split: sum.splits)
  then show ?thesis unfolding signed_with_def by blast
qed

interpretation auto_signer: issuer "\<lambda>env sni. mint (te_ca env) a sni (c_tls_cert_ttl cfg)" False "\<lambda>env. auto_call env cfg a"
  "\<lambda>env sni. issued_log ''minted certificate'' env sni" "\<lambda>env. auto_handshake env cfg a"
  "\<lambda>env. ce_create (te_ca env) = create" "\<lambda>_. signed_with create a" for cfg a create
  by unfold_locales (auto simp: auto_call_def auto_handshake_def dest: mint_signed)

lemma authority_pem:
  assumes "ca_crypto_ok env" "load_or_create_ca env cfg fs = (Inr a, ms, fs')"
  shows "\<exists>der p. ce_pem_decode env (ca_pem a) = Some (''CERTIFICATE'', der) \<and> ce_parse env der = Inr (ca_cert a, p)"
proof (cases "load_ca env fs (c_tls_ca_cert_file cfg) (c_tls_ca_key_file cfg)")
  case (Inr b)
  with assms(2) have "b = a" by (simp add: load_or_create_ca_def)
  with Inr show ?thesis
    by (auto simp: load_ca_def load_pair_def split: sum.splits option.splits prod.splits if_splits)
next
  case (Inl e)
  with assms(2) have "new_ca env = Inr a"
    by (auto simp: load_or_create_ca_def Let_def split: sum.splits prod.splits option.splits)
  then show ?thesis
    using crypto_pem [OF assms(1)] by (auto simp: new_ca_def Let_def split: sum.splits)
qed

lemma new_handler_ca [simp]: "h_ca_pem (new_handler cfg m vp fwd pem) = pem" "h_cfg (new_handler cfg m vp fwd pem) = cfg"
  "h_metrics (new_handler cfg m vp fwd pem) = m"
  by (simp_all add: new_handler_def)

lemma ca_routed:
  assumes "c_tls_ca_endpoint cfg = u_path (r_url r)" "c_tls_ca_endpoint cfg \<noteq> []"
    and "c_prometheus_enabled cfg \<Longrightarrow> c_prometheus_metrics_path cfg \<noteq> c_tls_ca_endpoint cfg"
  shows "route_of env (new_handler cfg (metrics_of cfg) vp fwd (Some pem)) r = ToCA pem"
  using assms by (auto simp: route_of_def metrics_of_def)

text \<open>
  C7: The published authority signs the certificates: on a server built in the auto mode, the CA endpoint of either listener
  answers with the PEM text of a certificate, and over any sequence of handshakes, however long it runs, every certificate
  that is served was signed with that certificate as its parent and with its key.
\<close>
theorem published_ca_signs:
  assumes "new_server env cfg fs = (Inr s, ms, fs')" "c_https_enabled cfg" "c_tls_mode cfg = tls_mode_auto"
    and "0 < c_tls_cert_cache_size cfg" "c_tls_ca_endpoint cfg = u_path (r_url r)" "c_tls_ca_endpoint cfg \<noteq> []"
    and "c_prometheus_enabled cfg \<Longrightarrow> c_prometheus_metrics_path cfg \<noteq> c_tls_ca_endpoint cfg"
    and "ca_crypto_ok (te_ca env)" "list_all (\<lambda>(e, _). ce_create (te_ca e) = ce_create (te_ca env)) hs"
  shows "\<exists>a tls c0 der p. hs_tls_config (sr_https s) = Some tls \<and> tl_source tls = AutoSource a \<and> tl_cache tls = Some c0 \<and>
    ce_pem_decode (te_ca env) (ca_pem a) = Some (''CERTIFICATE'', der) \<and> ce_parse (te_ca env) der = Inr (ca_cert a, p) \<and>
    list_all (\<lambda>srv. w_status (srv_wire (fst (serve senv we (hs_handler srv) r (hs_is_tls srv) fresh_wire pr))) = 200 \<and>
        w_body (srv_wire (fst (serve senv we (hs_handler srv) r (hs_is_tls srv) fresh_wire pr))) = ca_pem a)
      [sr_http s, sr_https s] \<and>
    list_all (served_well (\<lambda>_. signed_with (ce_create (te_ca env)) a))
      (fst (run_handshakes (\<lambda>e. auto_handshake e cfg a) hs c0))"
proof -
  obtain h where h: "h = new_handler cfg (metrics_of cfg) (printer_of cfg \<noteq> None) (forwarder_of cfg) (sr_ca_pem s)"
    "sr_http s = http_server_of cfg h" "sr_https s = https_server_of cfg h (hs_tls_config (sr_https s))"
    using new_server_parts [OF assms(1)] by blast
  obtain res logs where b: "build env cfg fs = (Inr res, logs, fs')" "hs_tls_config (sr_https s) = Some (tr_config res)"
    "sr_ca_pem s = tr_ca_pem res"
    using new_server_parts [OF assms(1)] assms(2) by auto
  then obtain a ms1 where a: "load_or_create_ca (te_ca env) cfg fs = (Inr a, ms1, fs')"
    "tl_source (tr_config res) = AutoSource a" "tr_ca_pem res = Some (ca_pem a)"
    "tl_cache (tr_config res) = Some (new_cert_cache (c_tls_cert_cache_size cfg))"
    using assms(3) tls_modes_distinct by (auto simp: build_def Let_def split: sum.splits prod.splits)
  have route: "route_of senv h r = ToCA (ca_pem a)"
    unfolding h(1) b(3) a(3) using ca_routed [OF assms(5-7)] by simp
  have handlers: "hs_handler (sr_http s) = h" "hs_handler (sr_https s) = h"
    by (simp add: h(2) http_server_of_def) (subst h(3), simp add: https_server_of_def)
  obtain rs c' where run: "run_handshakes (\<lambda>e. auto_handshake e cfg a) hs (new_cert_cache (c_tls_cert_cache_size cfg)) = (rs, c')"
    by (cases "run_handshakes (\<lambda>e. auto_handshake e cfg a) hs (new_cert_cache (c_tls_cert_cache_size cfg))")
  note signed = auto_signer.fresh_run_good [OF assms(4,9) run]
  show ?thesis
    using authority_pem [OF assms(8) a(1)] a b(2) signed run ca_response [OF route] by (auto simp: handlers)
qed

lemma server_flags:
  assumes "new_server env cfg fs = (Inr s, ms, fs')"
  shows "\<not> hs_is_tls (sr_http s)" "hs_is_tls (sr_https s)" "hs_max_header_bytes (sr_https s) = c_max_header_size cfg"
    "hs_read_header_timeout (sr_https s) = read_header_timeout"
    "hs_h2_disabled (sr_https s) = (c_https_enabled cfg \<and> \<not> c_http2_enabled cfg)"
proof -
  obtain h where h: "sr_http s = http_server_of cfg h" "sr_https s = https_server_of cfg h (hs_tls_config (sr_https s))"
    using new_server_parts [OF assms] by blast
  show "\<not> hs_is_tls (sr_http s)" by (simp add: h(1) http_server_of_def)
  show "hs_is_tls (sr_https s)" "hs_max_header_bytes (sr_https s) = c_max_header_size cfg"
    "hs_read_header_timeout (sr_https s) = read_header_timeout"
    "hs_h2_disabled (sr_https s) = (c_https_enabled cfg \<and> \<not> c_http2_enabled cfg)"
    by (subst h(2), simp add: https_server_of_def)+
qed

text \<open>
  C28: The shape of a server: both protocols are served by the same handler and within the same limits, the handler
  publishes a CA only with HTTPS, and when HTTP/2 is off neither the protocol list nor the
  server of the TLS listener offers it.
\<close>
theorem server_shape:
  assumes "new_server env cfg fs = (Inr s, ms, fs')"
  shows "hs_handler (sr_http s) = hs_handler (sr_https s) \<and> \<not> hs_is_tls (sr_http s) \<and> hs_is_tls (sr_https s) \<and>
    h_ca_pem (hs_handler (sr_http s)) = sr_ca_pem s \<and>
    list_all (\<lambda>srv. hs_max_header_bytes srv = c_max_header_size cfg \<and> hs_read_header_timeout srv = 30000000000) [sr_http s, sr_https s] \<and>
    (case hs_tls_config (sr_https s) of
       None \<Rightarrow> \<not> c_https_enabled cfg \<and> sr_ca_pem s = None \<and> fs' = fs
     | Some tls \<Rightarrow> c_https_enabled cfg \<and> tl_min_version tls = 0x0303 \<and>
         hs_h2_disabled (sr_https s) = (''h2'' \<notin> set (tl_next_protos tls)) \<and> (''h2'' \<in> set (tl_next_protos tls)) = c_http2_enabled cfg) \<and>
    (h_fwd (hs_handler (sr_http s)) = None) = (c_forward_target cfg = None) \<and>
    (h_metrics (hs_handler (sr_http s)) = None) = (\<not> c_prometheus_enabled cfg)"
proof -
  obtain h where h: "h = new_handler cfg (metrics_of cfg) (printer_of cfg \<noteq> None) (forwarder_of cfg) (sr_ca_pem s)"
    "sr_http s = http_server_of cfg h" "sr_https s = https_server_of cfg h (hs_tls_config (sr_https s))"
    using new_server_parts [OF assms] by blast
  have https: "hs_handler (sr_https s) = h"
    by (subst h(3), simp add: https_server_of_def)
  have parts: "h_fwd h = forwarder_of cfg" "h_metrics h = metrics_of cfg" "h_ca_pem h = sr_ca_pem s"
    by (simp_all add: h(1) new_handler_def)
  have tls: "if c_https_enabled cfg
     then \<exists>res logs. build env cfg fs = (Inr res, logs, fs') \<and> hs_tls_config (sr_https s) = Some (tr_config res)
     else hs_tls_config (sr_https s) = None \<and> sr_ca_pem s = None \<and> fs' = fs"
    using new_server_parts [OF assms] by (auto split: if_splits)
  show ?thesis
    using tls build_base [of env cfg fs _ _ fs']
    by (auto simp: https server_flags [OF assms] h(2) http_server_of_def parts read_header_timeout_def forwarder_of_def metrics_of_def split: if_splits)
qed

section \<open>The properties at work\<close>

text \<open>A cancelled run of any server, with the answers of the two shutdowns.\<close>

lemma run_snoc: "trace (run_step s) b es t \<Longrightarrow> run_step s t e u \<Longrightarrow> trace (run_step s) b (es @ [e]) u"
  by (rule trace_snoc)

lemma drain_run:
  "\<exists>st r. trace (run_step s) (run_begin s) [Cancel, TakeCancel, ShutDown False r1, ShutDown True r2, Finish] st \<and>
     rs_phase st = Returned r"
proof -
  let ?tr = "trace (run_step s) (run_begin s)"
  note nil = trace_nil [of "run_step s" "run_begin s"]
  have sel: "rs_phase (run_begin s) = Selecting" "\<not> rs_cancelled (run_begin s)"
    by (simp_all add: run_begin_def)
  from run_snoc [OF nil run_step.cancel [OF sel(2)]] sel
  obtain st1 where 1: "?tr [Cancel] st1" "rs_phase st1 = Selecting" "rs_cancelled st1" by fastforce
  from run_snoc [OF 1(1) run_step.take_cancel [OF 1(2,3)]]
  obtain st2 where 2: "?tr [Cancel, TakeCancel] st2" "rs_phase st2 = Closing [False, True] None" by fastforce
  from run_snoc [OF 2(1) run_step.shut_down [OF 2(2)], of r1]
  obtain st3 err where 3: "?tr [Cancel, TakeCancel, ShutDown False r1] st3" "rs_phase st3 = Closing [True] err" by fastforce
  from run_snoc [OF 3(1) run_step.shut_down [OF 3(2)], of r2]
  obtain st4 err' where 4: "?tr [Cancel, TakeCancel, ShutDown False r1, ShutDown True r2] st4" "rs_phase st4 = Closing [] err'"
    by fastforce
  from run_snoc [OF 4(1) run_step.finish [OF 4(2)]] show ?thesis by fastforce
qed

lemma serving_run:
  assumes "sr_http_ln s = Some a"
  shows "\<exists>st. trace (run_step s) (run_begin s) [GoesServing False] st \<and> worker_of False st = Serving"
proof -
  have "worker_of False (run_begin s) = Started"
    using assms by (simp add: run_begin_def worker_of_def)
  from run_snoc [OF trace_nil run_step.goes_serving [OF this]] show ?thesis by fastforce
qed

lemma auto_cfg_flags [simp]:
  "c_http_enabled auto_cfg" "c_https_enabled auto_cfg" "c_tls_ca_endpoint auto_cfg = ''/ca''" "\<not> c_prometheus_enabled auto_cfg"
  "c_bind_address auto_cfg = []" "c_http_port auto_cfg = 8080" "c_https_port auto_cfg = 8443" "c_http2_enabled auto_cfg"
  "c_forward_target auto_cfg = None" "c_max_header_size auto_cfg = 1048576"
  by (simp_all add: auto_cfg_def default_fields default_flags)
    (simp_all only: default_config_def config.simps flag_bool_def flag_string_def new_flag_set_def map_of.simps fun_upd_apply fst_conv snd_conv, simp_all)

lemma auto_cfg_ok: "config_ok auto_cfg"
  by (simp add: config_ok_def auto_cfg_def default_fields default_flags tls_mode_static_def tls_mode_auto_def tls_mode_vault_def)

definition sample_server :: server where
  "sample_server = (case new_server sample_tls auto_cfg ca_only_fs of (Inr s, _, _) \<Rightarrow> s)"

lemma sample_new_server:
  obtains ms where "new_server sample_tls auto_cfg ca_only_fs = (Inr sample_server, ms, after_start ca_only_fs)"
  by (simp add: sample_server_def new_server_def first_build Let_def)

lemma sample_unbound: "sr_cfg sample_server = auto_cfg" "sr_http_ln sample_server = None" "sr_https_ln sample_server = None"
  using sample_new_server new_server_parts by metis+

theorem server_shape_witness:
  "hs_handler (sr_http sample_server) = hs_handler (sr_https sample_server) \<and> hs_max_header_bytes (sr_http sample_server) = 1048576"
proof -
  obtain ms where "new_server sample_tls auto_cfg ca_only_fs = (Inr sample_server, ms, after_start ca_only_fs)"
    by (rule sample_new_server)
  from server_shape [OF this] show ?thesis by simp
qed

theorem published_ca_signs_witness:
  "\<exists>a tls. hs_tls_config (sr_https sample_server) = Some tls \<and> tl_source tls = AutoSource a \<and>
    w_body (srv_wire (fst (serve quiet_env sample_ws (hs_handler (sr_https sample_server)) ca_request True fresh_wire None))) = ca_pem a"
proof -
  obtain ms where "new_server sample_tls auto_cfg ca_only_fs = (Inr sample_server, ms, after_start ca_only_fs)"
    by (rule sample_new_server)
  from published_ca_signs [OF this, where hs = "[(sample_tls, ''a.example'')]" and r = ca_request and senv = quiet_env and we = sample_ws
      and pr = None] server_flags(2) [OF this] show ?thesis
    by (simp add: ca_request_def plain_url_def sample_crypto) blast
qed

theorem start_binds_witness:
  "\<exists>ms s. start (\<lambda>_ addr. Inr addr) sample_server = (None, ms, s) \<and> http_addr s = '':8080'' \<and> https_addr s = '':8443''"
proof -
  obtain r ms s where "start (\<lambda>_ addr. Inr addr) sample_server = (r, ms, s)"
    by (rule prod_cases3)
  moreover have "fst (start (\<lambda>_ addr. Inr addr) sample_server) = None"
    by (simp add: start_def bind_plaintext_def bind_tls_def Let_def sample_unbound)
  ultimately have st: "start (\<lambda>_ addr. Inr addr) sample_server = (None, ms, s)" by simp
  have "itoa 8080 = ''8080''" "itoa 8443 = ''8443''" by (simp_all add: itoa_def nat_dec.simps, code_simp+)
  with start_binds [OF st] st show ?thesis
    by (simp add: sample_unbound auto_cfg_ok listen_addr_def)
qed

theorem listen_addr_splits_witness:
  "split_host_port (listen_addr ''::1'' 8080) = None \<and> split_host_port (listen_addr ''[::1]'' 8080) = Some (''::1'', itoa 8080)"
  using listen_addr_splits [of "''::1''" 8080] by simp

theorem run_outcome_witness:
  "\<exists>st. trace (run_step sample_server) (run_begin sample_server)
     [Cancel, TakeCancel, ShutDown False (Some ''late''), ShutDown True None, Finish] st \<and>
     rs_phase st = Returned (Some ''forced shutdown: late'')"
proof -
  obtain st r where run: "trace (run_step sample_server) (run_begin sample_server)
     [Cancel, TakeCancel, ShutDown False (Some ''late''), ShutDown True None, Finish] st" "rs_phase st = Returned r"
    using drain_run by blast
  from run_outcome [OF run] have "r = Some ''forced shutdown: late''" by auto
  with run show ?thesis by blast
qed

theorem run_bounded_witness:
  "\<exists>es st. trace (run_step sample_server) (run_begin sample_server) es st \<and>
     filter own_step es = [TakeCancel, ShutDown False (Some ''late''), ShutDown True None, Finish] \<and>
     \<not> (\<exists>f ev. f 0 = run_begin sample_server \<and> (\<forall>i :: nat. run_step sample_server (f i) (ev i) (f (Suc i))))"
proof -
  let ?es = "[Cancel, TakeCancel, ShutDown False (Some ''late''), ShutDown True None, Finish]"
  obtain st where run: "trace (run_step sample_server) (run_begin sample_server) ?es st"
    using drain_run by blast
  then show ?thesis
    using run_bounded [OF run] by (intro exI [of _ ?es] exI [of _ st]) (simp del: not_ex)
qed

theorem run_progresses_witness:
  "\<exists>st r. trace (run_step sample_server) (run_begin sample_server)
     [Cancel, TakeCancel, ShutDown False None, ShutDown True None, Finish] st \<and> rs_phase st = Returned r"
proof -
  obtain st r where run: "trace (run_step sample_server) (run_begin sample_server)
     [Cancel, TakeCancel, ShutDown False None, ShutDown True None, Finish] st" "rs_phase st = Returned r"
    using drain_run by blast
  have "own_step e \<Longrightarrow> \<not> run_step sample_server st e st'" for e st'
    using run(2) by (cases e) auto
  with run_progresses [OF run(1)] run(1) show ?thesis by auto
qed

theorem errors_never_block_witness:
  "\<exists>st st'. worker_of False st = Serving \<and>
     run_step (sample_server\<lparr>sr_http_ln := Some ''h''\<rparr>) st (ServeReturns False (Some ''broken'')) st'"
proof -
  obtain st where st: "trace (run_step (sample_server\<lparr>sr_http_ln := Some ''h''\<rparr>)) (run_begin (sample_server\<lparr>sr_http_ln := Some ''h''\<rparr>))
      [GoesServing False] st" "worker_of False st = Serving"
    using serving_run [of "sample_server\<lparr>sr_http_ln := Some ''h''\<rparr>" "''h''"] by auto
  from errors_never_block [OF st, of "''broken''"] obtain st' where
    "run_step (sample_server\<lparr>sr_http_ln := Some ''h''\<rparr>) st (ServeReturns False (Some ''broken'')) st'" by (elim exE)
  with st(2) show ?thesis by (intro exI conjI)
qed

end
