(* ===== verification/MainProg.thy ===== *)
theory MainProg
  imports Server
begin

text \<open>
  \<open>cmd/https-echo-server/main.go\<close>: the program from its arguments to its exit code. What it
  prints, what it logs, the files it leaves and the server it runs are parts of the result.
\<close>

section \<open>The program\<close>

definition exit_ok :: int where
  "exit_ok = 0"

definition exit_runtime :: int where
  "exit_runtime = 1"

definition exit_config :: int where
  "exit_config = 2"

text \<open>
  The libraries: \<open>me_is_help\<close> decides whether the error of the flag parser is \<open>ErrHelp\<close>, and \<open>me_outcome\<close> is what the life of a
  server, once it runs, ends with.
\<close>

record main_env =
  me_loader :: loader
  me_cfg :: cfg_env
  me_is_help :: "string \<Rightarrow> bool"
  me_log :: log_env
  me_version :: version_info
  me_tls :: tls_env
  me_listen :: net_listen
  me_outcome :: "server \<Rightarrow> string option"

text \<open>What standard error gets after \<open>configuration error:\<close>.\<close>

datatype config_failure = LoadFailed Config.load_error | LoggerFailed string

record main_result =
  mr_code :: int
  mr_stdout :: string
  mr_stderr :: "config_failure option"
  mr_log :: "message list"
  mr_fs :: fsys
  mr_served :: "server option"

definition quiet_exit :: "int \<Rightarrow> fsys \<Rightarrow> main_result" where
  "quiet_exit code fs = \<lparr>mr_code = code, mr_stdout = [], mr_stderr = None, mr_log = [], mr_fs = fs, mr_served = None\<rparr>"

definition is_help_error :: "main_env \<Rightarrow> Config.load_error \<Rightarrow> bool" where
  "is_help_error env e = (case e of FlagError m \<Rightarrow> me_is_help env m | _ \<Rightarrow> False)"

definition starting_logs :: "main_env \<Rightarrow> config \<Rightarrow> message list" where
  "starting_logs env cfg =
     (Info, ''starting https-echo-server'',
        [(''version'', FStr (vi_version (me_version env))), (''commit'', FStr (vi_commit (me_version env))),
         (''built'', FStr (vi_date (me_version env))), (''tlsMode'', FStr (c_tls_mode cfg)),
         (''forwarding'', Logging.FBool (c_forward_target cfg \<noteq> None)), (''verbose'', Logging.FBool (c_verbose cfg))])
     # (if c_config_file cfg \<noteq> [] then [(Info, ''loaded config file'', [(''path'', FStr (c_config_file cfg))])] else [])"

definition ca_banner :: string where
  "ca_banner = ''CA certificate (import it or pass it to curl --cacert):'' @ [CHR 0x0A]"

definition printed_ca :: "config \<Rightarrow> server \<Rightarrow> string" where
  "printed_ca cfg s =
     (case sr_ca_pem s of
        None \<Rightarrow> []
      | Some pem \<Rightarrow> if c_tls_ca_print cfg \<and> c_https_enabled cfg \<and> 0 < length pem then ca_banner @ pem else [])"

definition startup_failed :: "string \<Rightarrow> message" where
  "startup_failed e = (Error, ''startup failed'', [(''error'', FStr e)])"

text \<open>\<open>Run\<close>, as its caller sees it.\<close>

definition run_server :: "main_env \<Rightarrow> server \<Rightarrow> string option \<times> message list \<times> server" where
  "run_server env s =
     (case run_enter (me_listen env) s of
        Inl (e, logs) \<Rightarrow> (Some e, logs, s)
      | Inr (s', st) \<Rightarrow> (me_outcome env s', rs_log st, s'))"

text \<open>From the logger on.\<close>

definition run_configured :: "main_env \<Rightarrow> config \<Rightarrow> fsys \<Rightarrow> main_result" where
  "run_configured env cfg fs =
     (case new_server (me_tls env) cfg fs of
        (Inl e, logs, fs') \<Rightarrow>
          (quiet_exit exit_runtime fs')\<lparr>mr_log := starting_logs env cfg @ logs @ [startup_failed e]\<rparr>
      | (Inr s, logs, fs') \<Rightarrow>
          (case start (me_listen env) s of
             (Some e, logs2, _) \<Rightarrow>
               (quiet_exit exit_runtime fs')\<lparr>mr_stdout := printed_ca cfg s,
                  mr_log := starting_logs env cfg @ logs @ logs2 @ [startup_failed e]\<rparr>
           | (None, logs2, s1) \<Rightarrow>
               (case run_server env s1 of
                  (err, logs3, s2) \<Rightarrow>
                    (quiet_exit (if err = None then exit_ok else exit_runtime) fs')\<lparr>mr_stdout := printed_ca cfg s,
                       mr_log := starting_logs env cfg @ logs @ logs2 @ logs3
                         @ (case err of None \<Rightarrow> [] | Some e \<Rightarrow> [(Error, ''server error'', [(''error'', FStr e)])]),
                       mr_served := Some s2\<rparr>)))"

definition run_main :: "main_env \<Rightarrow> string list \<Rightarrow> fsys \<Rightarrow> main_result" where
  "run_main env args fs =
     (case load (me_loader env) (me_cfg env) args of
        Inl e \<Rightarrow>
          if is_help_error env e then quiet_exit exit_ok fs
          else (quiet_exit exit_config fs)\<lparr>mr_stderr := Some (LoadFailed e)\<rparr>
      | Inr cfg \<Rightarrow>
          if c_show_version cfg
          then (quiet_exit exit_ok fs)\<lparr>mr_stdout := ''https-echo-server '' @ version_string (me_version env) @ [CHR 0x0A]\<rparr>
          else
            (case new_logger (me_log env) (c_log_level cfg) (c_log_format cfg) of
               Inl e \<Rightarrow> (quiet_exit exit_config fs)\<lparr>mr_stderr := Some (LoggerFailed e)\<rparr>
             | Inr _ \<Rightarrow> run_configured env cfg fs))"

section \<open>The exit code\<close>

lemma load_ok:
  assumes "load ld env args = Inr cfg" "\<not> c_show_version cfg"
  shows "config_ok cfg"
  using load_valid [OF assms(1)] assms(2) by simp

lemma logger_built:
  assumes "config_ok cfg" "parses_levels le" "\<And>l. le_build le l = None"
  shows "\<exists>l. new_logger le (c_log_level cfg) (c_log_format cfg) = Inr l"
  using new_logger_valid [OF assms(1,2)] assms(3) by auto

lemma run_server_started:
  assumes "new_server tenv cfg fs = (Inr s, logs, fs')" "config_ok cfg" "start (me_listen env) s = (None, logs2, s1)"
  shows "run_server env s1 = (me_outcome env s1, [], s1)"
proof -
  have "sr_cfg s = cfg" "sr_http_ln s = None" "sr_https_ln s = None"
    using new_server_parts [OF assms(1)] by auto
  then have "run_enter (me_listen env) s1 = Inr (s1, run_begin s1)"
    using start_done [OF assms(3)] assms(2) by simp
  then show ?thesis by (simp add: run_server_def run_begin_def)
qed

lemma configured_code:
  assumes "config_ok cfg"
  shows "mr_code (run_configured env cfg fs) =
      (case new_server (me_tls env) cfg fs of
         (Inl _, _, _) \<Rightarrow> 1
       | (Inr s, _, _) \<Rightarrow>
           (case start (me_listen env) s of
              (Some _, _, _) \<Rightarrow> 1
            | (None, _, s1) \<Rightarrow> if me_outcome env s1 = None then 0 else 1))"
proof -
  obtain r logs fs' where n: "new_server (me_tls env) cfg fs = (r, logs, fs')" by (rule prod_cases3)
  show ?thesis
  proof (cases r)
    case (Inl e)
    with n show ?thesis by (simp add: run_configured_def quiet_exit_def exit_runtime_def)
  next
    case (Inr s)
    obtain res logs2 s1 where st: "start (me_listen env) s = (res, logs2, s1)" by (rule prod_cases3)
    show ?thesis
      using n Inr st run_server_started [OF n [unfolded Inr] assms, of env logs2 s1]
      by (cases res) (simp_all add: run_configured_def quiet_exit_def exit_runtime_def exit_ok_def)
  qed
qed

text \<open>
  C9: The exit code: 0 for help, the version and a run that ended cleanly, 2 for a configuration that does not load, and 1
  when the server cannot be built or started or its run ended with an error. With 2, the error of the configuration is
  printed to standard error, and nothing is logged, printed to standard output, written to a file or served. (Section 4 of
  the specification asks for a log line at \<open>error\<close> with 2; the code has no logger yet and only prints.)
\<close>
theorem exit_codes:
  assumes "parses_levels (me_log env)" "\<And>l. le_build (me_log env) l = None"
  shows "mr_code (run_main env args fs) =
      (case load (me_loader env) (me_cfg env) args of
         Inl e \<Rightarrow> if is_help_error env e then 0 else 2
       | Inr cfg \<Rightarrow>
           if c_show_version cfg then 0
           else case new_server (me_tls env) cfg fs of
                  (Inl _, _, _) \<Rightarrow> 1
                | (Inr s, _, _) \<Rightarrow>
                    (case start (me_listen env) s of
                       (Some _, _, _) \<Rightarrow> 1
                     | (None, _, s1) \<Rightarrow> if me_outcome env s1 = None then 0 else 1)) \<and>
    (mr_code (run_main env args fs) = 2 \<longrightarrow>
       (\<exists>e. load (me_loader env) (me_cfg env) args = Inl e \<and> mr_stderr (run_main env args fs) = Some (LoadFailed e)) \<and>
       mr_log (run_main env args fs) = [] \<and> mr_stdout (run_main env args fs) = [] \<and>
       mr_fs (run_main env args fs) = fs \<and> mr_served (run_main env args fs) = None)"
proof (cases "load (me_loader env) (me_cfg env) args")
  case (Inl e)
  then show ?thesis by (simp add: run_main_def quiet_exit_def exit_ok_def exit_config_def)
next
  case (Inr cfg)
  show ?thesis
  proof (cases "c_show_version cfg")
    case True
    with Inr show ?thesis by (simp add: run_main_def quiet_exit_def exit_ok_def)
  next
    case False
    note ok = load_ok [OF Inr False]
    have run: "run_main env args fs = run_configured env cfg fs"
      using logger_built [OF ok assms] Inr False by (auto simp: run_main_def)
    have "mr_code (run_configured env cfg fs) \<noteq> 2"
      unfolding configured_code [OF ok] by (auto split: prod.split sum.split option.split)
    with Inr False show ?thesis by (simp add: run configured_code [OF ok])
  qed
qed

text \<open>
  C10: A clean exit is a drained server: whenever the program served, it was with a valid configuration and a listener
  for exactly the enabled protocols, and it exits with 0 exactly when both its servers were shut
  down without an error, in whatever order the events of the run came.
\<close>
theorem clean_exit_drained:
  assumes "mr_served (run_main env args fs) = Some s"
    and "trace (run_step s) (run_begin s) es st" "rs_phase st = Returned (me_outcome env s)"
  shows "config_ok (sr_cfg s) \<and> has_listener False s = c_http_enabled (sr_cfg s) \<and>
    has_listener True s = c_https_enabled (sr_cfg s) \<and>
    mr_code (run_main env args fs) = (if shutdowns es = [(False, None), (True, None)] then 0 else 1)"
proof -
  obtain cfg where cfg: "load (me_loader env) (me_cfg env) args = Inr cfg" "\<not> c_show_version cfg"
    "run_main env args fs = run_configured env cfg fs"
    using assms(1) by (auto simp: run_main_def quiet_exit_def split: sum.splits if_splits)
  note ok = load_ok [OF cfg(1,2)]
  obtain s0 logs fs' logs2 s1 where n: "new_server (me_tls env) cfg fs = (Inr s0, logs, fs')"
    "start (me_listen env) s0 = (None, logs2, s1)"
    using assms(1) unfolding cfg(3) run_configured_def quiet_exit_def by (auto split: prod.splits sum.splits option.splits)
  note run = run_server_started [OF n(1) ok n(2)]
  have s: "s = s1" and code: "mr_code (run_main env args fs) = (if me_outcome env s = None then 0 else 1)"
    using assms(1) n run unfolding cfg(3) run_configured_def quiet_exit_def exit_ok_def exit_runtime_def by simp_all
  have "sr_cfg s0 = cfg" "sr_http_ln s0 = None" "sr_https_ln s0 = None"
    using new_server_parts [OF n(1)] by auto
  moreover from this have "sr_cfg s = cfg"
    using start_cfg [OF n(2)] s by simp
  ultimately show ?thesis
    using start_done [OF n(2)] ok s code run_result [OF assms(2,3)]
    by (auto split: option.splits)
qed

section \<open>The properties at work\<close>

lemma auto_valid: "validate env auto_cfg = Inr auto_cfg"
proof -
  have "c_log_ignore_regexps auto_cfg = []" "c_forward_target auto_cfg = None" "c_extra_trusted_proxies auto_cfg = []"
    "c_log_ignore_path auto_cfg = []" "c_forward_url auto_cfg = []" "c_additional_trusted_proxies auto_cfg = []"
    by (simp_all add: auto_cfg_def default_fields default_flags)
  moreover from this have "auto_cfg\<lparr>c_log_ignore_regexps := [], c_forward_target := None, c_extra_trusted_proxies := []\<rparr> = auto_cfg"
    by (simp add: derived_same)
  moreover have "first_error (checks env auto_cfg) = None"
    using auto_cfg_ok tls_modes_distinct by (simp add: checks_pass)
  ultimately show ?thesis
    by (simp add: validate_def split_non_empty_def forward_target_of_def)
qed

text \<open>A command line that sets the CA files, and a run that is cancelled and does not drain in time.\<close>

definition sample_log_env :: log_env where
  "sample_log_env = \<lparr>le_parse_level = (\<lambda>s. if s = ''debug'' then Inr Debug else if s = ''info'' then Inr Info
      else if s = ''warn'' then Inr Warn else if s = ''error'' then Inr Error else Inl ''unrecognized level''),
     le_build = (\<lambda>_. None), le_quote = id\<rparr>"

definition sample_main :: main_env where
  "sample_main = \<lparr>me_loader = plain_loader\<lparr>ld_decode := (\<lambda>_ _ _. Inr auto_cfg)\<rparr>, me_cfg = \<lparr>ce_url_parse = Inl, ce_regexp = Inl\<rparr>,
     me_is_help = (\<lambda>_. False), me_log = sample_log_env, me_version = default_version, me_tls = sample_tls,
     me_listen = (\<lambda>_ addr. Inr addr), me_outcome = (\<lambda>_. Some ''forced shutdown: late'')\<rparr>"

lemma sample_main_parts [simp]:
  "me_log sample_main = sample_log_env" "me_tls sample_main = sample_tls" "me_listen sample_main = (\<lambda>_ addr. Inr addr)"
  "me_outcome sample_main = (\<lambda>_. Some ''forced shutdown: late'')"
  by (simp_all add: sample_main_def)

lemma sample_log: "parses_levels sample_log_env" "le_build sample_log_env l = None"
  by (simp_all add: sample_log_env_def parses_levels_def)

lemma auto_cfg_unversioned: "auto_cfg\<lparr>c_show_version := False, c_config_file := []\<rparr> = auto_cfg" "\<not> c_show_version auto_cfg"
  by (simp_all add: auto_cfg_def)
    (simp_all only: default_config_def config.simps config.update_convs simp_thms)

lemma sample_load: "load (me_loader sample_main) (me_cfg sample_main) args = Inr auto_cfg"
  by (simp add: load_def sample_main_def plain_loader_def auto_cfg_unversioned auto_valid)

definition started_server :: server where
  "started_server = snd (snd (start (\<lambda>_ addr. Inr addr) sample_server))"

lemma sample_start: "\<exists>ms. start (\<lambda>_ addr. Inr addr) sample_server = (None, ms, started_server)"
  by (simp add: started_server_def start_def bind_plaintext_def bind_tls_def Let_def sample_unbound)

theorem exit_codes_witness: "mr_code (run_main sample_main [] ca_only_fs) = 1"
proof -
  obtain ms where "new_server sample_tls auto_cfg ca_only_fs = (Inr sample_server, ms, after_start ca_only_fs)"
    by (rule sample_new_server)
  moreover obtain ms2 where "start (\<lambda>_ addr. Inr addr) sample_server = (None, ms2, started_server)"
    using sample_start by blast
  ultimately show ?thesis
    using exit_codes [of sample_main "[]" ca_only_fs] by (simp add: sample_log sample_load auto_cfg_unversioned)
qed

lemma sample_served: "mr_served (run_main sample_main [] ca_only_fs) = Some started_server"
proof -
  obtain ms where n: "new_server sample_tls auto_cfg ca_only_fs = (Inr sample_server, ms, after_start ca_only_fs)"
    by (rule sample_new_server)
  obtain ms2 where st: "start (\<lambda>_ addr. Inr addr) sample_server = (None, ms2, started_server)"
    using sample_start by blast
  have run: "run_server sample_main started_server = (Some ''forced shutdown: late'', [], started_server)"
    using run_server_started [OF n auto_cfg_ok, of sample_main ms2 started_server] st by simp
  obtain l where "new_logger sample_log_env (c_log_level auto_cfg) (c_log_format auto_cfg) = Inr l"
    using logger_built [OF auto_cfg_ok sample_log] by blast
  then show ?thesis
    using n st run by (simp add: run_main_def run_configured_def sample_load auto_cfg_unversioned)
qed

theorem clean_exit_drained_witness:
  "has_listener True started_server \<and> mr_code (run_main sample_main [] ca_only_fs) = 1"
proof -
  obtain st r where run: "trace (run_step started_server) (run_begin started_server)
     [Cancel, TakeCancel, ShutDown False (Some ''late''), ShutDown True None, Finish] st" "rs_phase st = Returned r"
    using drain_run by blast
  have "r = Some ''forced shutdown: late''"
    using run_result [OF run] by auto
  with clean_exit_drained [OF sample_served run(1)] run(2) sample_start start_cfg sample_unbound
  show ?thesis by fastforce
qed

end
