(* ===== verification/Spec2Isabelle.thy ===== *)
theory Spec2Isabelle
  imports Proxies Recorder Verbose Metrics Forward Jwt Cookies Json Echo Config Logging CertCache AutoCA VaultPKI TlsMgr
    Handler WebSocket Serve Server MainProg
begin

text \<open>
  A model of \<open>https-echo-server\<close>, a Go server that answers each HTTP request with a JSON description of it, or
  forwards it to a remote server, and dumps, logs and measures the exchange. Paths below are under \<open>src/\<close>.

  \<^bold>\<open>How the program is put together.\<close> \<open>main\<close> (\<open>cmd/https-echo-server/main.go\<close>) loads and validates the configuration, builds
  the logger, and has \<open>internal/server/server.go\<close> build the server: metrics, verbose printer, forwarder, TLS
  configuration and the request handler, which both listeners share. It then binds the listeners and runs until a signal
  or an error. A TLS handshake asks the certificate cache of \<open>internal/tlsmgr\<close>, which issues from the local authority or from
  Vault. A request goes through \<open>internal/server/handler.go\<close>: metrics page, CA endpoint, WebSocket session, forwarding
  or echo; its response is written through the recorder, and at the end it is logged and observed.

  \<^bold>\<open>The theories and the code.\<close>

  \<^item> \<open>Prelude\<close>, \<open>Steps\<close>: lemmas the components share, association-list maps, lists of tries; labelled traces
    with the contracts of an invariant and of a rank.
  \<^item> \<open>GoStrings\<close>, \<open>GoHttp\<close>, \<open>GoNet\<close>: what the code uses of Go's standard library: string functions, 64-bit wrap-around
    and truncating division, decimal numbers, base64, addresses \<open>host:port\<close>; headers, URLs, queries and cookies; \<open>netip\<close>
    addresses and prefixes.
  \<^item> \<open>Proxies\<close>, \<open>Cookies\<close>, \<open>Jwt\<close>, \<open>Echo\<close>: \<open>internal/echo\<close>. \<open>resolve\<close> is \<open>ProxyChecker.Resolve\<close>; \<open>verify_signed_cookies\<close> and
    \<open>decode_jwt\<close> the functions of these names; \<open>capture\<close> and \<open>render_response\<close> are \<open>Capture\<close> and \<open>Render\<close>. \<open>Json\<close> is the
    part of \<open>encoding/json\<close> that writes.
  \<^item> \<open>Config\<close>, \<open>Logging\<close>: \<open>internal/config\<close> (\<open>load\<close>, \<open>validate\<close>), \<open>internal/logging\<close> and \<open>internal/version\<close>.
  \<^item> \<open>Recorder\<close>, \<open>Verbose\<close>, \<open>Metrics\<close>, \<open>Forward\<close>: the response writer that records (over a model of the server's own writer), the
    wire dump, the collectors and the calls on them, and the forwarding of one request.
  \<^item> \<open>CertCache\<close>, \<open>AutoCA\<close>, \<open>VaultPKI\<close>, \<open>TlsMgr\<close>: \<open>internal/tlsmgr\<close>. A cache is the map and the linked list of the code;
    an authority works over a model of the file system; \<open>build\<close>, \<open>auto_handshake\<close> and \<open>vault_handshake\<close> are \<open>Build\<close> and the
    functions it installs as \<open>GetCertificate\<close>.
  \<^item> \<open>Handler\<close>, \<open>WebSocket\<close>, \<open>Serve\<close>: \<open>handler.go\<close> and \<open>ws.go\<close>. The state of a request (\<open>srv\<close>) is the recorder, what was logged
    and observed, the printer, and whether the request ended in a panic, after which nothing runs.
  \<^item> \<open>Server\<close>, \<open>MainProg\<close>: \<open>server.go\<close> and \<open>main.go\<close>. \<open>Run\<close> is a step relation: the two serving goroutines, the
    cancellation and the steps of \<open>Run\<close> itself, in any order.

  \<^bold>\<open>What the lemmas show.\<close>

  \<^item> Requests: the echo has the status, type and body that the request asks for, an interim status (100 to 199) being followed
    by 200 on the wire (\<open>serve_echo_response\<close>); the dump shows the exchange as it
    was (\<open>trace_shows_exchange\<close>); every request is observed and logged exactly as configured, panics apart
    (\<open>serve_closes_books\<close>); a forwarded response is relayed (\<open>forward_relays\<close>) with its end-to-end headers
    (\<open>relay_header_exact\<close>); CORS, delays, WebSocket sessions and the local routes behave as specified; the recorder changes
    nothing on the wire, and the blocks of concurrent dumps, which wait for the printer's mutex and are written in pieces of
    any size, never mix.
  \<^item> Clients: the client address is the last untrusted one of the chain, and values before it cannot change it
    (\<open>resolve_spec\<close>, \<open>resolve_ignores_forged_values\<close>); exactly the rightly signed cookies are marked; secrets of the
    environment do not reach the echo, and no markup does.
  \<^item> Certificates: the cache refines a least-recently-used map (\<open>cache_refines_lru\<close>), issues once per name among concurrent
    handshakes, and survives an outage of Vault; the authority survives a restart; every certificate fits its name and is signed
    by the authority that the CA endpoint publishes (\<open>published_ca_signs\<close>).
  \<^item> The process: validation accepts exactly the valid configurations; a run takes one error, or shuts down both servers in order, and no more; it returns once
    cancelled, leaves room for the errors of its goroutines and reports the right error; the exit code tells how the run ended (\<open>exit_codes\<close>, \<open>clean_exit_drained\<close>).

  \<^bold>\<open>Interfaces.\<close> The locales state what a client relies on: \<open>header_map\<close> (headers by canonical names), \<open>response_writer\<close> (net/http's
  writer, the recorder around it and the request's state around that), \<open>cert_store\<close> (the cache as a map with recency), \<open>handshakes\<close> (a source of
  certificates, Vault or the local authority, behind the cache) with its extension \<open>issuer\<close> (a source whose certificates are good
  for their names), and \<open>stepwise_invariant\<close> and \<open>ranked\<close> (step relations, for the run of the server).
  Each is interpreted on the definitions that model the code, and the properties rest on the interpretations.

  \<^bold>\<open>Bounds.\<close> Integers that the code adds, subtracts or doubles are kept in 64 bits by \<open>i64\<close>; a time is a number of nanoseconds and
  \<open>Time.Sub\<close> saturates as in Go. The loops are structural recursions, or functions with a termination proof (eviction); there is no fuel.

  \<^bold>\<open>Not modelled.\<close> The libraries (TLS, x509, HMAC, PEM, JSON and URL parsing, regular expressions, \<open>viper\<close>, the flag parser, \<open>zap\<close>,
  the Prometheus client, the WebSocket library with the close frames it sends by itself, the HTTP client and server) are arguments of the definitions or, for \<open>net/http\<close>'s
  \<open>Serve\<close> and \<open>Shutdown\<close>, events; what a theorem needs of them is a hypothesis, with a witness. Help texts of flags, struct tags, \<open>h2c\<close>
  and HTTP/2 framing, signal handling beyond the cancellation, and the scheduling inside one request are left out.
  The tests and the scripts are not part of the program.
\<close>

end
